(* ===== verification/GC_Prelude.thy ===== *)
theory GC_Prelude
  imports Main "HOL-Library.Word" "HOL-Library.Signed_Division"
begin

text \<open>
  Shared vocabulary of the collector development: the machine types of the
  LP64 little-endian target the C code of \<open>src/gc.c\<close> and \<open>src/gc.h\<close> assumes
  (\<open>void*\<close> is 64 bits, \<open>int\<close> and \<open>unsigned int\<close> are 32 bits), the
  result type that carries both undefined behaviour (an error value) and
  non-termination (\<open>None\<close>), the loop combinator for C \<open>for\<close> loops over a
  finite index range, and generic lemmas on words and lists that the component
  theories share.
\<close>

unbundle bit_operations_syntax

type_synonym addr = "64 word"
type_synonym byte = "8 word"
type_synonym u32 = "32 word"
type_synonym mem = "addr \<Rightarrow> byte"

text \<open>
  Every C function of the collector either returns (\<open>Some (Inr r)\<close>), runs
  into undefined behaviour that the model makes visible (\<open>Some (Inl e)\<close>), or
  does not return at all (\<open>None\<close>): the arena walks of the collector loop
  forever on a chunk whose header says its size is 0.
\<close>

datatype gc_error =
    Refs_index_out_of_bounds int
  | Backpatch_index_out_of_bounds int
  | Null_dereference

type_synonym 'a res = "(gc_error + 'a) option"

named_theorems res_simps "evaluation rules of the result monad"

definition res_bind :: "'a res \<Rightarrow> ('a \<Rightarrow> 'b res) \<Rightarrow> 'b res" where
  "res_bind x f = Option.bind x (case_sum (\<lambda>e. Some (Inl e)) f)"

text \<open>
  A C loop \<open>for (i = 0; i < n; i++) body\<close> whose body may fail or diverge is a
  fold of the body over the index list \<open>[0..<n]\<close> in the result monad; the
  loop itself always runs a bounded number of iterations.
\<close>

primrec res_fold :: "('i \<Rightarrow> 's \<Rightarrow> 's res) \<Rightarrow> 'i list \<Rightarrow> 's \<Rightarrow> 's res" where
  "res_fold f [] s = Some (Inr s)"
| "res_fold f (i # js) s = res_bind (f i s) (res_fold f js)"

lemma res_bind_simps [simp, res_simps]:
  "res_bind None f = None"
  "res_bind (Some (Inl e)) f = Some (Inl e)"
  "res_bind (Some (Inr a)) f = f a"
  by (simp_all add: res_bind_def)

lemma res_cases [case_names None Error Ok]:
  obtains (None) "x = None" | (Error) e where "x = Some (Inl e)" | (Ok) a where "x = Some (Inr a)"
  by (metis option.exhaust sum.exhaust)

lemma res_bind_eq_Inr [res_simps]:
  "res_bind x f = Some (Inr b) \<longleftrightarrow> (\<exists>a. x = Some (Inr a) \<and> f a = Some (Inr b))"
  by (cases x rule: option.exhaust) (auto simp: res_bind_def split: sum.splits)

text \<open>
  \<open>res_bind\<close> may carry recursive calls: it is monotone for
  \<^theory_text>\<open>partial_function (option)\<close>, and a congruence rule tells the function
  package that the continuation only sees the value the first computation returned.
\<close>

lemma res_bind_mono [partial_function_mono]:
  assumes mf: "mono_option B" and mg: "\<And>y. mono_option (\<lambda>f. C y f)"
  shows "mono_option (\<lambda>f. res_bind (B f) (\<lambda>y. C y f))"
  unfolding res_bind_def
proof (rule bind_mono[OF mf])
  fix y show "mono_option (\<lambda>f. case_sum (\<lambda>e. Some (Inl e)) (\<lambda>y. C y f) y)"
    by (cases y) (simp_all add: option.const_mono mg)
qed

lemma res_bind_cong [fundef_cong]:
  "x = y \<Longrightarrow> (\<And>a. y = Some (Inr a) \<Longrightarrow> f a = g a) \<Longrightarrow> res_bind x f = res_bind y g"
  by (cases y rule: res_cases) simp_all

lemma res_fold_append [res_simps]:
  "res_fold f (xs @ ys) s = res_bind (res_fold f xs s) (res_fold f ys)"
proof (induction xs arbitrary: s)
  case Nil
  then show ?case by simp
next
  case (Cons i js)
  show ?case by (cases "f i s" rule: res_cases) (simp_all add: Cons.IH)
qed

lemma res_fold_filter [res_simps]:
  "res_fold (\<lambda>x s. if P x then f x s else Some (Inr s)) xs s = res_fold f (filter P xs) s"
proof (induction xs arbitrary: s)
  case (Cons a xs)
  then show ?case by (cases "f a s" rule: res_cases) simp_all
qed simp

lemma res_fold_concat [res_simps]:
  "res_fold (\<lambda>c. res_fold f (g c)) cs s = res_fold f (concat (map g cs)) s"
proof (induction cs arbitrary: s)
  case (Cons c cs)
  then show ?case by (cases "res_fold f (g c) s" rule: res_cases) (simp_all add: res_fold_append)
qed simp

lemma res_fold_pure [res_simps]:
  "(\<And>i s. f i s = Some (Inr (g i s))) \<Longrightarrow> res_fold f xs s = Some (Inr (fold g xs s))"
  by (induction xs arbitrary: s) simp_all

lemma res_fold_single [simp, res_simps]: "res_fold f [i] = f i"
proof
  fix s show "res_fold f [i] s = f i s" by (cases "f i s" rule: res_cases) simp_all
qed

lemma res_fold_invariant:
  assumes "res_fold f xs s = Some (Inr s')"
    and "P s"
    and "\<And>i t t'. i \<in> set xs \<Longrightarrow> P t \<Longrightarrow> f i t = Some (Inr t') \<Longrightarrow> P t'"
  shows "P s'"
  using assms
proof (induction xs arbitrary: s)
  case Nil
  then show ?case by simp
next
  case (Cons i js)
  from Cons.prems(1) obtain t where t: "f i s = Some (Inr t)" and rest: "res_fold f js t = Some (Inr s')"
    by (auto simp: res_bind_eq_Inr)
  have "P t" using Cons.prems(3)[OF _ Cons.prems(2) t] by simp
  with rest Cons.prems(3) show ?case by (intro Cons.IH) auto
qed

lemma res_fold_total:
  assumes "\<And>i t. i \<in> set xs \<Longrightarrow> P t \<Longrightarrow> \<exists>t'. f i t = Some (Inr t') \<and> P t'"
    and "P s"
  shows "\<exists>s'. res_fold f xs s = Some (Inr s') \<and> P s'"
  using assms
proof (induction xs arbitrary: s)
  case Nil
  then show ?case by simp
next
  case (Cons i js)
  from Cons.prems obtain t where "f i s = Some (Inr t)" and "P t" by fastforce
  with Cons.IH[of t] Cons.prems(1) show ?case by auto
qed

lemma find_upt_Some:
  "find P [0..<n] = Some i \<longleftrightarrow> i < n \<and> P i \<and> list_all (\<lambda>j. \<not> P j) [0..<i]"
  by (auto simp: find_Some_iff list_all_iff)

subsection \<open>Words\<close>

named_theorems addr_simps "address arithmetic facts used to separate memory regions"

lemma of_nat_addr_inj [addr_simps]:
  fixes a :: addr
  assumes "i < 2 ^ 64" and "j < 2 ^ 64"
  shows "a + of_nat i = a + of_nat j \<longleftrightarrow> i = j"
  using assms by (simp add: word_of_nat_eq_iff take_bit_nat_eq_self)

lemma addr_offsets_distinct:
  fixes a :: addr
  assumes "i + n \<le> j" and "j + k \<le> 2 ^ 64" and "x < n" and "y < k"
  shows "a + of_nat (i + x) \<noteq> a + of_nat (j + y)"
  using assms by (subst of_nat_addr_inj) auto

lemma unat_add_of_nat_less:
  fixes a :: addr
  assumes "unat a + n < 2 ^ 64"
  shows "unat (a + of_nat n) = unat a + n"
  using assms by (simp add: unat_word_ariths unat_of_nat)

lemma scast_u32_small: "unat (x :: u32) < 2 ^ 31 \<Longrightarrow> (scast x :: addr) = of_nat (unat x)"
proof -
  assume a: "unat x < 2 ^ 31"
  have u: "int (unat x) = uint x" by simp
  have "int (unat x) < 2 ^ 31" using a by (metis of_nat_less_iff of_nat_numeral of_nat_power)
  then have lt: "uint x < 2 ^ 31" by (simp only: u)
  have t: "take_bit 31 (uint x) = uint x"
    by (rule take_bit_int_eq_self) (use lt in simp_all)
  then have "\<not> bit (uint x) 31" by (metis bit_take_bit_iff less_irrefl)
  then have s: "sint x = uint x" by (simp add: sint_uint signed_take_bit_eq_if_positive t)
  have "(scast x :: addr) = word_of_int (uint x)" by (simp only: scast_eq s)
  also have "\<dots> = ucast x" by (simp only: ucast_eq)
  also have "\<dots> = of_nat (unat x)" by simp
  finally show ?thesis .
qed


lemma sint_addr_small: "unat (x :: addr) < 2 ^ 63 \<Longrightarrow> sint x = int (unat x)"
proof -
  assume a: "unat x < 2 ^ 63"
  have u: "int (unat x) = uint x" by simp
  have "int (unat x) < 2 ^ 63" using a by (metis of_nat_less_iff of_nat_numeral of_nat_power)
  then have lt: "uint x < 2 ^ 63" by (simp only: u)
  have t: "take_bit 63 (uint x) = uint x"
    by (rule take_bit_int_eq_self) (use lt in simp_all)
  then have "\<not> bit (uint x) 63" by (metis bit_take_bit_iff less_irrefl)
  then show ?thesis by (simp add: sint_uint signed_take_bit_eq_if_positive t)
qed


lemma sint_u32_small: "unat (x :: u32) < 2 ^ 31 \<Longrightarrow> sint x = int (unat x)"
proof -
  assume a: "unat x < 2 ^ 31"
  have u: "int (unat x) = uint x" by simp
  have "int (unat x) < 2 ^ 31" using a by (metis of_nat_less_iff of_nat_numeral of_nat_power)
  then have lt: "uint x < 2 ^ 31" by (simp only: u)
  have t: "take_bit 31 (uint x) = uint x"
    by (rule take_bit_int_eq_self) (use lt in simp_all)
  then have "\<not> bit (uint x) 31" by (metis bit_take_bit_iff less_irrefl)
  then show ?thesis by (simp add: sint_uint signed_take_bit_eq_if_positive t)
qed


lemma sint_nonneg_small: "0 \<le> sint (x :: u32) \<Longrightarrow> unat x < 2 ^ 31"
proof (rule ccontr)
  assume a: "0 \<le> sint x" and "\<not> unat x < 2 ^ 31"
  then have ge: "2 ^ 31 \<le> unat x" by simp
  have lt: "unat x < 2 ^ 32" using unsigned_less[of x] by simp
  have "unat x div 2 ^ 31 = 1" using ge lt by (intro div_nat_eqI) simp_all
  then have "bit (unat x) 31" by (simp add: bit_iff_odd)
  then have "bit x 31" by (simp add: bit_unsigned_iff)
  then have "sint x < 0" using bit_last_iff[of x] by simp
  then show False using a by simp
qed

lemma div4_mod_2p32: "((a::nat) mod 2 ^ 32) div 4 * 4 = (a div 4 * 4) mod 2 ^ 32"
proof -
  define q r where "q = a div 2 ^ 32" and "r = a mod (2 ^ 32 :: nat)"
  then have a: "a = r + 2 ^ 30 * q * 4" and r: "r < 2 ^ 32" by simp_all
  have "a div 4 = 2 ^ 30 * q + r div 4" unfolding a by (subst div_mult_self1) simp_all
  then have "a div 4 * 4 = r div 4 * 4 + q * 2 ^ 32" by simp
  moreover have "r div 4 * 4 < 2 ^ 32" using r by linarith
  ultimately show ?thesis unfolding r_def[symmetric] by simp
qed

end
