(* ===== verification/Memory.thy ===== *)
theory Memory
  imports GC_Prelude
begin

text \<open>
  The byte-addressed memory the collector works on. The C code keeps both
  arenas as \<open>char\<close> arrays inside the \<open>collector\<close> struct and reads and
  writes them through casts: a chunk header is an \<open>unsigned int\<close> at the chunk
  address (\<open>FLAGS\<close>), a payload word is a \<open>void*\<close> at \<open>chunk + 4 + 8 i\<close>
  (\<open>BITS_AT\<close>), so pointer-sized loads are not 8-aligned. Memory is therefore
  a total function from 64-bit addresses to bytes, loads and stores are
  little-endian byte sequences, and \<open>memcpy\<close> copies bytes. Uninitialised
  memory (the arenas returned by \<open>malloc\<close> in \<open>gc_new\<close>) is an arbitrary
  function.
\<close>

unbundle bit_operations_syntax

subsection \<open>Little-endian encoding\<close>

definition le_val :: "byte list \<Rightarrow> 'a::len word" where
  "le_val bs = foldr (\<lambda>b w. ucast b OR push_bit 8 w) bs 0"

definition le_bytes :: "nat \<Rightarrow> 'a::len word \<Rightarrow> byte list" where
  "le_bytes n w = map (\<lambda>i. ucast (drop_bit (8 * i) w)) [0..<n]"

subsection \<open>Loads and stores\<close>

definition load_bytes :: "mem \<Rightarrow> addr \<Rightarrow> nat \<Rightarrow> byte list" where
  "load_bytes m a n = map (\<lambda>i. m (a + of_nat i)) [0..<n]"

primrec store_bytes :: "mem \<Rightarrow> addr \<Rightarrow> byte list \<Rightarrow> mem" where
  "store_bytes m a [] = m"
| "store_bytes m a (b # bs) = store_bytes (m(a := b)) (a + 1) bs"

text \<open>\<open>*(unsigned int* )a\<close> and \<open>*(void** )a\<close> as rvalues and as lvalues.\<close>

definition load_u32 :: "mem \<Rightarrow> addr \<Rightarrow> u32" where
  "load_u32 m a = le_val (load_bytes m a 4)"

definition load_ptr :: "mem \<Rightarrow> addr \<Rightarrow> addr" where
  "load_ptr m a = le_val (load_bytes m a 8)"

definition store_u32 :: "mem \<Rightarrow> addr \<Rightarrow> u32 \<Rightarrow> mem" where
  "store_u32 m a v = store_bytes m a (le_bytes 4 v)"

definition store_ptr :: "mem \<Rightarrow> addr \<Rightarrow> addr \<Rightarrow> mem" where
  "store_ptr m a v = store_bytes m a (le_bytes 8 v)"

text \<open>\<open>memcpy(dst, src, n)\<close> on non-overlapping regions.\<close>

definition mem_copy :: "mem \<Rightarrow> addr \<Rightarrow> addr \<Rightarrow> nat \<Rightarrow> mem" where
  "mem_copy m dst src n = store_bytes m dst (load_bytes m src n)"

definition separate :: "addr \<Rightarrow> nat \<Rightarrow> addr \<Rightarrow> nat \<Rightarrow> bool" where
  "separate a n b k \<longleftrightarrow> (\<forall>i<n. \<forall>j<k. a + of_nat i \<noteq> b + of_nat j)"

named_theorems mem_simps "load/store rules of the byte memory"

lemma length_le_bytes [simp]: "length (le_bytes n w) = n"
  by (simp add: le_bytes_def)

lemma bit_le_val:
  "bit (le_val bs :: 'a::len word) k \<longleftrightarrow>
     k < LENGTH('a) \<and> k div 8 < length bs \<and> bit (bs ! (k div 8)) (k mod 8)"
proof (induction bs arbitrary: k)
  case Nil
  then show ?case by (simp add: le_val_def)
next
  case (Cons b bs)
  show ?case
  proof (cases "k < 8")
    case True
    then show ?thesis by (auto simp add: le_val_def bit_simps)
  next
    case False
    then obtain j where k: "k = j + 8" by (metis add.commute le_add_diff_inverse not_less)
    have "bit (le_val (b # bs) :: 'a word) k = bit (push_bit 8 (le_val bs :: 'a word)) k"
      using False by (auto simp add: le_val_def bit_simps dest: bit_imp_le_length)
    also have "\<dots> = (k < LENGTH('a) \<and> bit (le_val bs :: 'a word) j)"
      using k by (auto simp add: bit_simps)
    moreover have "(j + 8) div 8 = Suc (j div 8)" "(j + 8) mod 8 = j mod 8" by simp_all
    ultimately show ?thesis using Cons.IH[of j] k by auto
  qed
qed

lemma le_val_le_bytes:
  assumes "LENGTH('a) \<le> 8 * n"
  shows "le_val (le_bytes n (w :: 'a::len word)) = w"
proof (rule bit_word_eqI)
  fix k assume k: "k < LENGTH('a)"
  then have "k div 8 < n" using assms by auto
  then show "bit (le_val (le_bytes n w) :: 'a word) k = bit w k"
    using k by (simp add: bit_le_val le_bytes_def bit_simps)
qed

lemma length_load_bytes [simp]: "length (load_bytes m a n) = n"
  by (simp add: load_bytes_def)

lemma store_bytes_outside [mem_simps]:
  "(\<And>i. i < length bs \<Longrightarrow> x \<noteq> a + of_nat i) \<Longrightarrow> store_bytes m a bs x = m x"
proof (induction bs arbitrary: m a)
  case Nil
  then show ?case by simp
next
  case (Cons b bs)
  have "x \<noteq> a" using Cons.prems[of 0] by simp
  moreover have "\<And>i. i < length bs \<Longrightarrow> x \<noteq> (a + 1) + of_nat i"
    using Cons.prems by (metis (no_types) Suc_less_eq add.assoc length_Cons of_nat_Suc add.commute)
  ultimately show ?case using Cons.IH by simp
qed

lemma store_bytes_inside:
  assumes "i < length bs" and "length bs \<le> 2 ^ 64"
  shows "store_bytes m a bs (a + of_nat i) = bs ! i"
  using assms
proof (induction bs arbitrary: m a i)
  case Nil
  then show ?case by simp
next
  case (Cons b bs)
  show ?case
  proof (cases i)
    case 0
    have "store_bytes (m(a := b)) (a + 1) bs a = (m(a := b)) a"
    proof (rule store_bytes_outside)
      fix j assume j: "j < length bs"
      have "a + of_nat 0 \<noteq> a + of_nat (Suc j)"
        using j Cons.prems(2) by (subst of_nat_addr_inj) auto
      then show "a \<noteq> a + 1 + of_nat j" by (simp add: add.assoc add.commute)
    qed
    with 0 show ?thesis by simp
  next
    case (Suc j)
    then have eq: "a + of_nat i = (a + 1) + of_nat j" by (simp add: add.commute add.left_commute)
    have "store_bytes m a (b # bs) (a + of_nat i) = store_bytes (m(a := b)) (a + 1) bs ((a + 1) + of_nat j)"
      by (simp only: store_bytes.simps eq)
    also have "\<dots> = bs ! j"
      using Suc Cons by simp
    finally show ?thesis using Suc by simp
  qed
qed

lemma load_bytes_store_bytes_same [mem_simps]:
  "length bs \<le> 2 ^ 64 \<Longrightarrow> load_bytes (store_bytes m a bs) a (length bs) = bs"
  by (rule nth_equalityI) (simp_all add: load_bytes_def store_bytes_inside)

lemma load_bytes_store_bytes_other [mem_simps]:
  "(\<And>i j. i < length bs \<Longrightarrow> j < n \<Longrightarrow> b + of_nat j \<noteq> a + of_nat i) \<Longrightarrow>
   load_bytes (store_bytes m a bs) b n = load_bytes m b n"
  by (simp add: load_bytes_def store_bytes_outside)

text \<open>Round trips: a value written through a cast reads back unchanged.\<close>

lemma load_store_u32 [simp, mem_simps]: "load_u32 (store_u32 m a v) a = v"
proof -
  have "load_bytes (store_bytes m a (le_bytes 4 v)) a 4 = le_bytes 4 v"
    using load_bytes_store_bytes_same[of "le_bytes 4 v" m a] by simp
  then show ?thesis by (simp add: load_u32_def store_u32_def le_val_le_bytes)
qed

lemma load_store_ptr [simp, mem_simps]: "load_ptr (store_ptr m a v) a = v"
proof -
  have "load_bytes (store_bytes m a (le_bytes 8 v)) a 8 = le_bytes 8 v"
    using load_bytes_store_bytes_same[of "le_bytes 8 v" m a] by simp
  then show ?thesis by (simp add: load_ptr_def store_ptr_def le_val_le_bytes)
qed

text \<open>
  Frame rules: a store leaves every byte outside its range unchanged. Two
  ranges given as offsets from a common base are separate when the offsets do
  not overlap.
\<close>

lemma separate_offsets [addr_simps]:
  assumes "x + n \<le> y \<or> y + k \<le> x" and "x + n \<le> 2 ^ 64" and "y + k \<le> 2 ^ 64"
  shows "separate (c + of_nat x) n (c + of_nat y) k"
  unfolding separate_def
proof (intro allI impI)
  fix i j assume "i < n" "j < k"
  with assms have ne: "x + i \<noteq> y + j" and lt: "x + i < 2 ^ 64" "y + j < 2 ^ 64" by auto
  then have "c + of_nat (x + i) \<noteq> c + of_nat (y + j)"
    using of_nat_addr_inj[OF lt, of c] by blast
  then show "c + of_nat x + of_nat i \<noteq> c + of_nat y + of_nat j"
    by (simp add: add.assoc)
qed

lemma separate_sym: "separate a n b k \<longleftrightarrow> separate b k a n"
  unfolding separate_def by metis

lemma load_bytes_store_separate:
  "separate a (length bs) b n \<Longrightarrow> load_bytes (store_bytes m a bs) b n = load_bytes m b n"
  by (rule load_bytes_store_bytes_other) (metis separate_def)

lemma load_u32_store_u32_separate [mem_simps]:
  "separate a 4 b 4 \<Longrightarrow> load_u32 (store_u32 m a v) b = load_u32 m b"
  by (simp add: load_u32_def store_u32_def load_bytes_store_separate)

lemma load_ptr_store_u32_separate [mem_simps]:
  "separate a 4 b 8 \<Longrightarrow> load_ptr (store_u32 m a v) b = load_ptr m b"
  by (simp add: load_ptr_def store_u32_def load_bytes_store_separate)

lemma load_u32_store_ptr_separate [mem_simps]:
  "separate a 8 b 4 \<Longrightarrow> load_u32 (store_ptr m a v) b = load_u32 m b"
  by (simp add: load_u32_def store_ptr_def load_bytes_store_separate)

lemma load_ptr_store_ptr_separate [mem_simps]:
  "separate a 8 b 8 \<Longrightarrow> load_ptr (store_ptr m a v) b = load_ptr m b"
  by (simp add: load_ptr_def store_ptr_def load_bytes_store_separate)

lemma load_bytes_cong:
  "(\<And>i. i < n \<Longrightarrow> m (a + of_nat i) = m' (a + of_nat i)) \<Longrightarrow> load_bytes m a n = load_bytes m' a n"
  by (simp add: load_bytes_def)

lemma mem_copy_inside:
  "i < n \<Longrightarrow> n \<le> 2 ^ 64 \<Longrightarrow> mem_copy m dst src n (dst + of_nat i) = m (src + of_nat i)"
  by (simp add: mem_copy_def store_bytes_inside load_bytes_def)


text \<open>Reads from zero-filled memory, the state of a fresh mapping.\<close>

lemma le_val_replicate_0 [simp]: "le_val (replicate n 0) = 0"
  by (induction n) (simp_all add: le_val_def)

lemma load_u32_zero [simp]: "load_u32 (\<lambda>_. 0) a = 0"
  by (simp add: load_u32_def load_bytes_def map_replicate_const)

lemma load_ptr_zero [simp]: "load_ptr (\<lambda>_. 0) a = 0"
  by (simp add: load_ptr_def load_bytes_def map_replicate_const)


lemma separate_nat:
  "x + n \<le> y \<or> y + k \<le> x \<Longrightarrow> x + n \<le> 2 ^ 64 \<Longrightarrow> y + k \<le> 2 ^ 64 \<Longrightarrow>
   separate (of_nat x) n (of_nat y) k"
  using separate_offsets[of x n y k 0] by simp

end
