(* ===== verification/Header.thy ===== *)
theory Header
  imports Memory
begin

text \<open>
  The tag and header convention of \<open>src/gc.h\<close>: the configuration constants
  (lines 17--22), the colour enumeration \<open>gc_color\<close> (lines 26--31) and the
  chunk macros (lines 62--78) that do not mention the collector. A chunk header
  is the \<open>unsigned int\<close> at the chunk address; its two low bits are the state
  (the nursery mark bit, or an old-generation colour) and the rest is the chunk
  size including the header. Each macro that reads memory takes the memory
  explicitly; \<open>MARK_CHUNK\<close> returns the updated memory.
\<close>

unbundle bit_operations_syntax

subsection \<open>Configuration\<close>

definition GC_MAX_REFS :: nat where "GC_MAX_REFS = 65536"
definition GC_MINCHUNK_SIZE :: nat where "GC_MINCHUNK_SIZE = 256"
definition GC_MINHEAP_SIZE :: nat where "GC_MINHEAP_SIZE = 1024 * 64"
definition GC_MAJHEAP_SIZE :: nat where "GC_MAJHEAP_SIZE = 1024 * 1024 * 32"
definition GC_MINCHUNKS :: nat where "GC_MINCHUNKS = GC_MINHEAP_SIZE div GC_MINCHUNK_SIZE"

lemmas gc_consts = GC_MAX_REFS_def GC_MINCHUNK_SIZE_def GC_MINHEAP_SIZE_def
  GC_MAJHEAP_SIZE_def GC_MINCHUNKS_def

lemma GC_MINCHUNKS_val [simp]: "GC_MINCHUNKS = 256"
  by (simp add: gc_consts)

subsection \<open>Colours\<close>

text \<open>
  The enumeration \<open>gc_color\<close>; C gives its constants the values 0 to 3 in the
  order of declaration, and the code stores and compares them as integers.
\<close>

datatype gc_color = GC_FREE | GC_WHITE | GC_BLACK | GC_GRAY

primrec color_val :: "gc_color \<Rightarrow> u32" where
  "color_val GC_FREE = 0"
| "color_val GC_WHITE = 1"
| "color_val GC_BLACK = 2"
| "color_val GC_GRAY = 3"

lemma color_val_inj [simp]: "color_val c = color_val d \<longleftrightarrow> c = d"
  by (cases c; cases d) simp_all

lemma color_val_le_3: "color_val c \<le> 3"
  by (cases c) simp_all

subsection \<open>Chunk macros\<close>

text \<open>
  \<open>WITH_HEADER\<close> and \<open>WITHOUT_HEADER\<close> add or subtract \<open>sizeof(int)\<close>; the
  code applies them both to \<open>int\<close> sizes (cast back to \<open>int\<close>, so the sum wraps
  at 32 bits) and to pointers.
\<close>

definition WITH_HEADER :: "u32 \<Rightarrow> u32" where
  "WITH_HEADER sz = sz + 4"

definition WITHOUT_HEADER :: "u32 \<Rightarrow> u32" where
  "WITHOUT_HEADER sz = sz - 4"

definition WITHOUT_HEADER_ptr :: "addr \<Rightarrow> addr" where
  "WITHOUT_HEADER_ptr p = p - 4"

definition FLAGS :: "mem \<Rightarrow> addr \<Rightarrow> u32" where
  "FLAGS m chunk = load_u32 m chunk"

definition CHUNK_SIZE :: "mem \<Rightarrow> addr \<Rightarrow> u32" where
  "CHUNK_SIZE m chunk = FLAGS m chunk AND NOT 3"

definition MARK_CHUNK :: "mem \<Rightarrow> addr \<Rightarrow> u32 \<Rightarrow> mem" where
  "MARK_CHUNK m chunk c = store_u32 m chunk (CHUNK_SIZE m chunk OR c)"

definition PTR_INDEX :: "u32 \<Rightarrow> nat" where
  "PTR_INDEX ofs = unat ofs div 8"

definition BITS :: "addr \<Rightarrow> addr" where
  "BITS chunk = chunk + 4"

definition BITS_AT :: "addr \<Rightarrow> nat \<Rightarrow> addr" where
  "BITS_AT chunk idx = BITS chunk + of_nat (idx * 8)"

text \<open>\<open>MEM_TAG\<close>: bit 0 of the word is clear (the cast to \<open>unsigned int\<close> keeps it).\<close>

definition MEM_TAG :: "addr \<Rightarrow> bool" where
  "MEM_TAG ptr \<longleftrightarrow> (ucast ptr :: u32) AND 1 = 0"

definition MARKED :: "mem \<Rightarrow> addr \<Rightarrow> bool" where
  "MARKED m chunk \<longleftrightarrow> FLAGS m chunk AND 1 \<noteq> 0"

definition CHUNK_FLAGS :: "mem \<Rightarrow> addr \<Rightarrow> u32" where
  "CHUNK_FLAGS m chunk = FLAGS m chunk AND 3"

definition ALIGN :: "u32 \<Rightarrow> u32" where
  "ALIGN x = (x + 3) AND NOT 3"

subsection \<open>Header reads after header writes\<close>

named_theorems header_simps "header macros evaluated after a header write"

lemma FLAGS_MARK_CHUNK [header_simps]:
  "FLAGS (MARK_CHUNK m chunk c) chunk = CHUNK_SIZE m chunk OR c"
  by (simp add: FLAGS_def MARK_CHUNK_def)

lemma u32_le_3_cases: "(c :: u32) \<le> 3 \<Longrightarrow> c = 0 \<or> c = 1 \<or> c = 2 \<or> c = 3"
  by unat_arith

lemma size_bits_or_low [simp]:
  "c \<le> 3 \<Longrightarrow> ((x AND NOT 3) OR c) AND NOT 3 = x AND NOT (3 :: u32)"
  by (drule u32_le_3_cases) (auto simp: bit.conj_disj_distrib2)

lemma low_bits_or_low [simp]:
  "c \<le> 3 \<Longrightarrow> ((x AND NOT 3) OR c) AND 3 = (c :: u32)"
  by (drule u32_le_3_cases) (auto simp: bit.conj_disj_distrib2 and.assoc)

lemma CHUNK_SIZE_MARK_CHUNK [simp, header_simps]:
  "c \<le> 3 \<Longrightarrow> CHUNK_SIZE (MARK_CHUNK m chunk c) chunk = CHUNK_SIZE m chunk"
  unfolding CHUNK_SIZE_def FLAGS_MARK_CHUNK by (rule size_bits_or_low)

lemma CHUNK_FLAGS_MARK_CHUNK [simp, header_simps]:
  "c \<le> 3 \<Longrightarrow> CHUNK_FLAGS (MARK_CHUNK m chunk c) chunk = c"
  unfolding CHUNK_FLAGS_def FLAGS_MARK_CHUNK CHUNK_SIZE_def by (rule low_bits_or_low)

lemma MARKED_MARK_CHUNK [simp, header_simps]: "MARKED (MARK_CHUNK m chunk 1) chunk"
  by (simp add: MARKED_def FLAGS_MARK_CHUNK CHUNK_SIZE_def bit.conj_disj_distrib2 and.assoc)

text \<open>
  The state argument of \<open>MARK_CHUNK\<close> is OR-ed into the header unmasked: a
  value of 4 or more changes the size bits. \<open>mark_major_chunk\<close> passes
  \<open>CHUNK_FLAGS(chunk) + GC_BLACK\<close>, which is 5 for a gray chunk.
\<close>

lemma MARK_CHUNK_5 [header_simps]:
  "CHUNK_FLAGS (MARK_CHUNK m chunk 5) chunk = 1"
  "CHUNK_SIZE (MARK_CHUNK m chunk 5) chunk = CHUNK_SIZE m chunk OR 4"
  by (simp_all add: CHUNK_FLAGS_def CHUNK_SIZE_def FLAGS_MARK_CHUNK bit.conj_disj_distrib2 and.assoc)

subsection \<open>Size arithmetic\<close>

lemma unat_and_not_3: "unat (x AND NOT 3 :: u32) = unat x div 4 * 4"
proof -
  have m: "(3::u32) = mask 2" by (simp add: mask_eq_exp_minus_1)
  have "x AND NOT 3 = push_bit 2 (drop_bit 2 x)"
    unfolding m by (rule bit_word_eqI)
      (auto simp: bit_simps bit_mask_iff, (subgoal_tac "Suc (Suc (n - 2)) = n"; simp)+)
  also have "\<dots> = x div 4 * 4" by (simp add: push_bit_eq_mult drop_bit_eq_div)
  finally have eq: "x AND NOT 3 = x div 4 * 4" .
  have "unat x div 4 * 4 \<le> unat x" by simp
  also have "unat x < 2 ^ 32" using unsigned_less[of x] by simp
  finally have lt: "unat x div 4 * 4 < 2 ^ 32" .
  show ?thesis unfolding eq using lt by (simp add: unat_word_ariths unat_div)
qed

lemma unat_ALIGN: "unat x + 3 < 2 ^ 32 \<Longrightarrow> unat (ALIGN x) = (unat x + 3) div 4 * 4"
  unfolding ALIGN_def unat_and_not_3 by (simp add: unat_word_ariths)

text \<open>
  Claim C23 (equivalence): the bit trick \<open>ALIGN(x) = (x + 3) & ~3\<close> is rounding
  up to a multiple of 4, computed in 32 bits: for every \<open>x\<close>, including the
  four values near \<open>2^32\<close> where \<open>x + 3\<close> wraps to a small number.
\<close>

theorem ALIGN_round_up: "ALIGN n = word_of_nat ((unat n + 3) div 4 * 4)"
proof -
  have "unat (ALIGN n) = ((unat n + 3) mod 2 ^ 32) div 4 * 4"
    unfolding ALIGN_def unat_and_not_3 by (simp add: unat_word_ariths)
  moreover have "unat (word_of_nat ((unat n + 3) div 4 * 4) :: u32) = ((unat n + 3) div 4 * 4) mod 2 ^ 32"
    by (subst unat_of_nat) simp
  ultimately have "unat (ALIGN n) = unat (word_of_nat ((unat n + 3) div 4 * 4) :: u32)"
    by (simp only: div4_mod_2p32)
  then show ?thesis by (rule word_unat_eq_iff[THEN iffD2])
qed

lemma unat_WITH_HEADER_ALIGN:
  assumes "unat x + 7 < 2 ^ 32"
  shows "unat (WITH_HEADER (ALIGN x)) = (unat x + 3) div 4 * 4 + 4"
proof -
  have "unat (ALIGN x) + 4 < 2 ^ 32" using assms by (simp add: unat_ALIGN)
  then show ?thesis using assms by (simp add: WITH_HEADER_def unat_word_ariths unat_ALIGN)
qed

lemma unat_CHUNK_SIZE_dvd: "4 dvd unat (CHUNK_SIZE m a)"
  unfolding CHUNK_SIZE_def unat_and_not_3 by simp

text \<open>Header writes leave the headers of other chunks alone.\<close>

lemma FLAGS_MARK_CHUNK_other [header_simps]:
  "separate chunk 4 other 4 \<Longrightarrow> FLAGS (MARK_CHUNK m chunk c) other = FLAGS m other"
  by (simp add: FLAGS_def MARK_CHUNK_def load_u32_store_u32_separate)

lemma load_ptr_MARK_CHUNK_other [header_simps]:
  "separate chunk 4 p 8 \<Longrightarrow> load_ptr (MARK_CHUNK m chunk c) p = load_ptr m p"
  by (simp add: MARK_CHUNK_def load_ptr_store_u32_separate)


lemma PTR_INDEX_less: "PTR_INDEX (x :: u32) < 2 ^ 29"
proof -
  have "unat x < 2 ^ 32" using unsigned_less[of x] by simp
  then show ?thesis unfolding PTR_INDEX_def by simp
qed


lemma ALIGN_low_bits: "ALIGN x AND 3 = 0"
  by (simp add: ALIGN_def and.assoc)

lemma ALIGN_idem: "ALIGN (ALIGN x) = ALIGN x"
proof -
  have "ALIGN x + 3 = ALIGN x OR 3"
    by (rule disjunctive_add_eq_or) (simp add: ALIGN_low_bits)
  then have "ALIGN (ALIGN x) = (ALIGN x OR 3) AND NOT 3" by (simp add: ALIGN_def)
  also have "\<dots> = ALIGN x AND NOT 3" by (simp add: bit.conj_disj_distrib2)
  also have "\<dots> = ALIGN x" by (simp add: ALIGN_def and.assoc)
  finally show ?thesis .
qed

lemma request_sizes:
  assumes "0 < unat n" and "unat n \<le> 252"
  shows "unat (WITH_HEADER (ALIGN n)) = (unat n + 3) div 4 * 4 + 4"
    and "unat (WITH_HEADER (ALIGN n)) \<le> 256"
    and "sint (WITH_HEADER (ALIGN n)) = int (unat (WITH_HEADER (ALIGN n)))"
    and "unat n \<le> unat (ALIGN n)"
proof -
  show u: "unat (WITH_HEADER (ALIGN n)) = (unat n + 3) div 4 * 4 + 4"
    using assms by (intro unat_WITH_HEADER_ALIGN) simp
  then show "unat (WITH_HEADER (ALIGN n)) \<le> 256" using assms by simp
  show "sint (WITH_HEADER (ALIGN n)) = int (unat (WITH_HEADER (ALIGN n)))"
    using u assms by (intro sint_u32_small) simp
  show "unat n \<le> unat (ALIGN n)" using assms by (simp add: unat_ALIGN)
qed

lemma size_low_bits:
  assumes "0 < unat n" and "unat n \<le> 252"
  shows "WITH_HEADER (ALIGN n) AND NOT 3 = WITH_HEADER (ALIGN n)"
proof -
  have "4 dvd unat (WITH_HEADER (ALIGN n))" using request_sizes(1)[OF assms] by simp
  moreover have "unat (WITH_HEADER (ALIGN n) AND NOT 3) = unat (WITH_HEADER (ALIGN n)) div 4 * 4"
    by (rule unat_and_not_3)
  ultimately have "unat (WITH_HEADER (ALIGN n) AND NOT 3) = unat (WITH_HEADER (ALIGN n))"
    by simp
  then show ?thesis by (simp add: word_unat_eq_iff)
qed


lemma MARK_CHUNK_changes_header:
  assumes "MARK_CHUNK m c v a \<noteq> m a"
  shows "\<exists>b<4. a = c + of_nat b"
proof (rule ccontr)
  assume "\<not> ?thesis"
  then have "\<And>i. i < length (le_bytes 4 (CHUNK_SIZE m c OR v)) \<Longrightarrow> a \<noteq> c + of_nat i" by auto
  then have "store_bytes m c (le_bytes 4 (CHUNK_SIZE m c OR v)) a = m a" by (rule store_bytes_outside)
  then show False using assms by (simp add: MARK_CHUNK_def store_u32_def)
qed

end
