(* ===== verification/Collector.thy ===== *)
theory Collector
  imports Header
begin

text \<open>
  The \<open>collector\<close> struct of \<open>src/gc.h\<close> (lines 33--40), the macros of
  \<open>gc.h\<close> that locate the two arenas inside it (lines 71--75, 79--80), the
  accesses to its two fixed-size arrays, \<open>gc_new\<close> (\<open>src/gc.c\<close> lines 10--16)
  and the root-range scan that \<open>mark_minor\<close>, \<open>darken_roots\<close> and
  \<open>backpatch_refs\<close> share.

  The two arenas are the first two fields of the struct, so the nursery starts at
  the struct's address \<open>gc_base\<close> and the old generation \<open>GC_MINHEAP_SIZE\<close>
  bytes later; both live in the one byte memory \<open>gc_mem\<close>, together with
  every root range the embedder registers. The remaining fields are record
  fields. An index outside one of the arrays \<open>gc_refs\<close> and \<open>gc_backpatch\<close>
  is undefined behaviour in C, which the model returns as an error.
\<close>

unbundle bit_operations_syntax

record collector =
  gc_mem :: mem
  gc_base :: addr
  gc_free_chunk :: int
  gc_ref_count :: int
  gc_backpatch :: "nat \<Rightarrow> addr"
  gc_refs :: "nat \<Rightarrow> addr \<times> addr"

definition minor_heap :: "collector \<Rightarrow> addr" where
  "minor_heap gc = gc_base gc"

definition major_heap :: "collector \<Rightarrow> addr" where
  "major_heap gc = gc_base gc + of_nat GC_MINHEAP_SIZE"

definition major_end :: "collector \<Rightarrow> addr" where
  "major_end gc = major_heap gc + of_nat GC_MAJHEAP_SIZE"

text \<open>
  The struct must fit below the top of the address space for the arena bounds
  \<open>&heap[SIZE]\<close> to be meaningful; every theorem about arena walks assumes it.
\<close>

definition layout_ok :: "collector \<Rightarrow> bool" where
  "layout_ok gc \<longleftrightarrow> unat (gc_base gc) + GC_MINHEAP_SIZE + GC_MAJHEAP_SIZE < 2 ^ 64"

subsection \<open>Pointer tests and nursery slot arithmetic\<close>

definition POINTS_MINOR :: "collector \<Rightarrow> addr \<Rightarrow> bool" where
  "POINTS_MINOR gc ptr \<longleftrightarrow> minor_heap gc \<le> ptr \<and> ptr < minor_heap gc + of_nat GC_MINHEAP_SIZE"

definition POINTS_MAJOR :: "collector \<Rightarrow> addr \<Rightarrow> bool" where
  "POINTS_MAJOR gc ptr \<longleftrightarrow> major_heap gc \<le> ptr \<and> ptr < major_end gc"

definition REF_PTR_MIN :: "collector \<Rightarrow> addr \<Rightarrow> bool" where
  "REF_PTR_MIN gc ptr \<longleftrightarrow> MEM_TAG ptr \<and> POINTS_MINOR gc ptr"

definition REF_PTR_MAJ :: "collector \<Rightarrow> addr \<Rightarrow> bool" where
  "REF_PTR_MAJ gc ptr \<longleftrightarrow> MEM_TAG ptr \<and> POINTS_MAJOR gc ptr"

text \<open>
  \<open>MINOR_CHUNK\<close> and \<open>CHUNK_OFFSET\<close> divide a pointer difference
  (\<open>ptrdiff_t\<close>, signed) by the slot size with C's truncating division.
\<close>

definition MINOR_CHUNK :: "collector \<Rightarrow> addr \<Rightarrow> addr" where
  "MINOR_CHUNK gc ptr = minor_heap gc +
     word_of_int ((sint (ptr - minor_heap gc) sdiv int GC_MINCHUNK_SIZE) * int GC_MINCHUNK_SIZE)"

definition CHUNK_AT :: "collector \<Rightarrow> nat \<Rightarrow> addr" where
  "CHUNK_AT gc i = minor_heap gc + of_nat (i * GC_MINCHUNK_SIZE)"

definition CHUNK_OFFSET :: "collector \<Rightarrow> addr \<Rightarrow> int" where
  "CHUNK_OFFSET gc chunk = sint (chunk - minor_heap gc) sdiv int GC_MINCHUNK_SIZE"

subsection \<open>The fixed-size arrays\<close>

text \<open>\<open>set_ref_block\<close> (\<open>gc.c\<close> lines 18--22): the write \<open>gc_refs[index]\<close>.\<close>

definition set_ref_block :: "collector \<Rightarrow> int \<Rightarrow> addr \<Rightarrow> addr \<Rightarrow> gc_error + collector" where
  "set_ref_block gc index start end =
     (if 0 \<le> index \<and> index < int GC_MAX_REFS
      then Inr (gc\<lparr>gc_refs := (gc_refs gc)(nat index := (start, end))\<rparr>)
      else Inl (Refs_index_out_of_bounds index))"

definition backpatch_get :: "collector \<Rightarrow> int \<Rightarrow> gc_error + addr" where
  "backpatch_get gc i =
     (if 0 \<le> i \<and> i < int GC_MINCHUNKS then Inr (gc_backpatch gc (nat i))
      else Inl (Backpatch_index_out_of_bounds i))"

definition backpatch_set :: "collector \<Rightarrow> int \<Rightarrow> addr \<Rightarrow> gc_error + collector" where
  "backpatch_set gc i v =
     (if 0 \<le> i \<and> i < int GC_MINCHUNKS then Inr (gc\<lparr>gc_backpatch := (gc_backpatch gc)(nat i := v)\<rparr>)
      else Inl (Backpatch_index_out_of_bounds i))"

subsection \<open>Construction\<close>

text \<open>
  \<open>gc_new\<close> \<open>malloc\<close>s the struct at address \<open>a\<close> and sets only the two
  counters: the arenas, the backpatch table and the root table keep whatever the
  allocator returned, given here as the arguments \<open>m\<close>, \<open>bp\<close> and \<open>rs\<close>.
\<close>

definition gc_new :: "addr \<Rightarrow> mem \<Rightarrow> (nat \<Rightarrow> addr) \<Rightarrow> (nat \<Rightarrow> addr \<times> addr) \<Rightarrow> collector" where
  "gc_new a m bp rs =
     \<lparr>gc_mem = m, gc_base = a, gc_free_chunk = 0, gc_ref_count = 0,
      gc_backpatch = bp, gc_refs = rs\<rparr>"

subsection \<open>Scanning the registered root ranges\<close>

text \<open>
  The words a root range \<open>[begin, end)\<close> denotes: the C loop
  \<open>for (ref = begin; ref < end; ref++)\<close> steps a \<open>void**\<close>, that is 8 bytes,
  and visits \<open>\<lceil>(end - begin) / 8\<rceil>\<close> addresses (pointer arithmetic is not
  allowed to wrap in C).
\<close>

definition ref_range :: "addr \<Rightarrow> addr \<Rightarrow> addr list" where
  "ref_range b e =
     map (\<lambda>k. b + of_nat (8 * k)) [0..<(if b < e then (unat (e - b) + 7) div 8 else 0)]"

text \<open>
  The loop nest of \<open>mark_minor\<close>, \<open>darken_roots\<close> and \<open>backpatch_refs\<close>:
  every slot below \<open>gc_ref_count\<close>, every word of its range, the body for
  each word address that is not \<open>NULL\<close>. The bodies never write the root
  table, so the ranges are those of the collector the scan starts from.
\<close>

definition for_each_root :: "(addr \<Rightarrow> collector \<Rightarrow> collector res) \<Rightarrow> collector \<Rightarrow> collector res" where
  "for_each_root body gc =
     res_fold (\<lambda>counter.
        res_fold (\<lambda>ref g. if ref \<noteq> 0 then body ref g else Some (Inr g))
          (ref_range (fst (gc_refs gc counter)) (snd (gc_refs gc counter))))
       [0..<nat (gc_ref_count gc)] gc"

definition root_words :: "collector \<Rightarrow> addr list" where
  "root_words gc =
     filter (\<lambda>ref. ref \<noteq> 0)
       (concat (map (\<lambda>counter. ref_range (fst (gc_refs gc counter)) (snd (gc_refs gc counter)))
          [0..<nat (gc_ref_count gc)]))"

text \<open>
  The collector the witnesses run on: the struct at address \<open>0x10000\<close>, so the
  nursery is \<open>[0x10000, 0x20000)\<close> and the old generation starts at
  \<open>0x20000\<close>, with all memory and both tables zero, as \<open>malloc\<close> of a
  fresh mapping returns them.
\<close>

text \<open>
  Frames of the operations: \<open>mem_only\<close> holds when only the byte memory
  differs, \<open>keeps_roots\<close> when the struct's address and the root registry
  are the same (both collections and the allocators keep them).
\<close>

definition mem_only :: "collector \<Rightarrow> collector \<Rightarrow> bool" where
  "mem_only gc g \<longleftrightarrow> gc_base g = gc_base gc \<and> gc_free_chunk g = gc_free_chunk gc
     \<and> gc_ref_count g = gc_ref_count gc \<and> gc_backpatch g = gc_backpatch gc \<and> gc_refs g = gc_refs gc"

definition keeps_roots :: "collector \<Rightarrow> collector \<Rightarrow> bool" where
  "keeps_roots gc g \<longleftrightarrow> gc_base g = gc_base gc \<and> gc_ref_count g = gc_ref_count gc \<and> gc_refs g = gc_refs gc"

abbreviation ex_gc :: collector where
  "ex_gc \<equiv> gc_new 65536 (\<lambda>_. 0) (\<lambda>_. 0) (\<lambda>_. (0, 0))"

lemma unat_major_heap:
  "layout_ok gc \<Longrightarrow> unat (major_heap gc) = unat (gc_base gc) + GC_MINHEAP_SIZE"
  by (simp add: layout_ok_def major_heap_def unat_word_ariths unat_of_nat gc_consts)

lemma major_offset_less_end:
  assumes "layout_ok gc" and "off \<le> GC_MAJHEAP_SIZE"
  shows "major_heap gc + of_nat off < major_end gc \<longleftrightarrow> off < GC_MAJHEAP_SIZE"
proof -
  have h: "unat (major_heap gc) + GC_MAJHEAP_SIZE < 2 ^ 64"
    using assms(1) by (simp add: unat_major_heap layout_ok_def)
  then have "unat (major_heap gc + of_nat off) = unat (major_heap gc) + off"
    using assms(2) by (intro unat_add_of_nat_less) simp
  moreover have "unat (major_end gc) = unat (major_heap gc) + GC_MAJHEAP_SIZE"
    using h by (simp add: major_end_def unat_add_of_nat_less)
  ultimately show ?thesis by (simp add: word_less_nat_alt)
qed

lemma major_heap_less_end: "layout_ok gc \<Longrightarrow> major_heap gc < major_end gc"
  using major_offset_less_end[of gc 0] by (simp add: gc_consts)

lemma major_offset_end: "layout_ok gc \<Longrightarrow> major_heap gc + of_nat GC_MAJHEAP_SIZE = major_end gc"
  by (simp add: major_end_def)

lemma layout_ok_mem_update [simp]: "layout_ok (gc\<lparr>gc_mem := m\<rparr>) = layout_ok gc"
  by (simp add: layout_ok_def)

lemma major_heap_mem_update [simp]: "major_heap (gc\<lparr>gc_mem := m\<rparr>) = major_heap gc"
  by (simp add: major_heap_def)

lemma major_end_mem_update [simp]: "major_end (gc\<lparr>gc_mem := m\<rparr>) = major_end gc"
  by (simp add: major_end_def)

lemma ex_gc_layout: "layout_ok ex_gc"
  by (simp add: layout_ok_def gc_new_def gc_consts)

lemma ex_gc_major_heap: "major_heap ex_gc = 131072"
  by (simp add: major_heap_def gc_new_def gc_consts)

lemma for_each_root_eq:
  "for_each_root body gc = res_fold body (root_words gc) gc"
  by (simp add: for_each_root_def root_words_def res_fold_filter res_fold_concat filter_concat
      map_map comp_def)


lemma POINTS_MINOR_offset:
  assumes "POINTS_MINOR gc ptr"
  shows "ptr = minor_heap gc + of_nat (unat (ptr - minor_heap gc)) \<and> unat (ptr - minor_heap gc) < GC_MINHEAP_SIZE"
proof -
  let ?b = "minor_heap gc"
  have le: "?b \<le> ptr" and lt: "ptr < ?b + of_nat GC_MINHEAP_SIZE" using assms by (auto simp: POINTS_MINOR_def)
  have d: "unat (ptr - ?b) = unat ptr - unat ?b" using le by (simp add: unat_sub)
  have "unat ?b + GC_MINHEAP_SIZE < 2 ^ 64"
  proof (rule ccontr)
    assume "\<not> ?thesis"
    then have ge: "2 ^ 64 \<le> unat ?b + 65536" by (simp add: gc_consts)
    have b: "unat ?b < 2 ^ 64" using unsigned_less[of ?b] by simp
    have "unat (?b + of_nat GC_MINHEAP_SIZE) = (unat ?b + 65536) mod 2 ^ 64"
      by (simp add: unat_word_ariths unat_of_nat gc_consts)
    also have "\<dots> = unat ?b + 65536 - 2 ^ 64"
      using ge b by (simp add: le_mod_geq)
    finally have "unat (?b + of_nat GC_MINHEAP_SIZE) < unat ?b" using ge by simp
    then show False using le lt by (simp add: word_less_nat_alt word_le_nat_alt)
  qed
  then have "unat (?b + of_nat GC_MINHEAP_SIZE) = unat ?b + GC_MINHEAP_SIZE"
    by (simp add: unat_add_of_nat_less)
  then have "unat ptr < unat ?b + GC_MINHEAP_SIZE" using lt by (simp add: word_less_nat_alt)
  then have "unat (ptr - ?b) < GC_MINHEAP_SIZE" unfolding d by (simp add: gc_consts)
  moreover have "?b + of_nat (unat (ptr - ?b)) = ptr" by (simp only: of_nat_unat) simp
  ultimately show ?thesis by simp
qed

lemma MINOR_CHUNK_slot:
  assumes "POINTS_MINOR gc ptr"
  shows "\<exists>k<GC_MINCHUNKS. MINOR_CHUNK gc ptr = CHUNK_AT gc k"
proof -
  let ?u = "unat (ptr - minor_heap gc)"
  have u: "?u < GC_MINHEAP_SIZE" using POINTS_MINOR_offset[OF assms] by blast
  then have s: "sint (ptr - minor_heap gc) = int ?u" by (intro sint_addr_small) (simp add: gc_consts)
  have "sint (ptr - minor_heap gc) sdiv int GC_MINCHUNK_SIZE = int (?u div GC_MINCHUNK_SIZE)"
    unfolding s by (simp add: signed_divide_int_def sgn_if zdiv_int gc_consts)
  then have "MINOR_CHUNK gc ptr = CHUNK_AT gc (?u div GC_MINCHUNK_SIZE)"
    by (simp add: MINOR_CHUNK_def CHUNK_AT_def)
  moreover have "?u div GC_MINCHUNK_SIZE < GC_MINCHUNKS" using u by (simp add: gc_consts less_mult_imp_div_less)
  ultimately show ?thesis by blast
qed

lemma REF_PTR_MIN_slot:
  "REF_PTR_MIN gc ptr \<Longrightarrow> \<exists>k<GC_MINCHUNKS. MINOR_CHUNK gc ptr = CHUNK_AT gc k"
  unfolding REF_PTR_MIN_def using MINOR_CHUNK_slot by blast

lemma base_mem_update [simp]:
  "minor_heap (gc\<lparr>gc_mem := m\<rparr>) = minor_heap gc"
  "CHUNK_AT (gc\<lparr>gc_mem := m\<rparr>) k = CHUNK_AT gc k"
  "MINOR_CHUNK (gc\<lparr>gc_mem := m\<rparr>) p = MINOR_CHUNK gc p"
  "POINTS_MINOR (gc\<lparr>gc_mem := m\<rparr>) p = POINTS_MINOR gc p"
  "REF_PTR_MIN (gc\<lparr>gc_mem := m\<rparr>) p = REF_PTR_MIN gc p"
  "CHUNK_OFFSET (gc\<lparr>gc_mem := m\<rparr>) p = CHUNK_OFFSET gc p"
  by (simp_all add: minor_heap_def CHUNK_AT_def MINOR_CHUNK_def POINTS_MINOR_def REF_PTR_MIN_def CHUNK_OFFSET_def)

lemma slot_headers_separate:
  "k \<noteq> j \<Longrightarrow> k < GC_MINCHUNKS \<Longrightarrow> j < GC_MINCHUNKS \<Longrightarrow> separate (CHUNK_AT gc k) 4 (CHUNK_AT gc j) 4"
  unfolding CHUNK_AT_def
  by (rule separate_offsets) (auto simp: gc_consts)

lemma MARKED_MARK_CHUNK_slot:
  assumes "k < GC_MINCHUNKS" and "j < GC_MINCHUNKS"
  shows "MARKED (MARK_CHUNK m (CHUNK_AT gc k) 1) (CHUNK_AT gc j) \<longleftrightarrow> j = k \<or> MARKED m (CHUNK_AT gc j)"
proof (cases "j = k")
  case False
  then show ?thesis using slot_headers_separate[OF _ assms, of gc]
    by (simp add: MARKED_def FLAGS_MARK_CHUNK_other)
qed (simp add: MARKED_MARK_CHUNK)

lemma CHUNK_SIZE_MARK_CHUNK_slot:
  assumes "k < GC_MINCHUNKS" and "j < GC_MINCHUNKS"
  shows "CHUNK_SIZE (MARK_CHUNK m (CHUNK_AT gc k) 1) (CHUNK_AT gc j) = CHUNK_SIZE m (CHUNK_AT gc j)"
proof (cases "j = k")
  case False
  then show ?thesis using slot_headers_separate[OF _ assms, of gc]
    by (simp add: CHUNK_SIZE_def FLAGS_MARK_CHUNK_other)
qed simp

lemma mem_frame_ex [simp]:
  "\<exists>m. gc = gc\<lparr>gc_mem := m\<rparr>"
  "\<exists>m. gc\<lparr>gc_mem := m'\<rparr> = gc\<lparr>gc_mem := m\<rparr>"
  by (rule exI[of _ "gc_mem gc"], simp) (rule exI, rule refl)

lemma CHUNK_OFFSET_CHUNK_AT:
  assumes "k < GC_MINCHUNKS"
  shows "CHUNK_OFFSET gc (CHUNK_AT gc k) = int k"
proof -
  have lt: "k * 256 < 2 ^ 16" using assms by (simp add: gc_consts)
  then have u: "unat (of_nat (k * 256) :: addr) = k * 256" by (subst unat_of_nat) simp
  then have "sint (of_nat (k * 256) :: addr) = int (k * 256)"
    using sint_addr_small[of "of_nat (k * 256)"] lt by simp
  then show ?thesis by (simp add: CHUNK_OFFSET_def CHUNK_AT_def gc_consts signed_divide_int_def sgn_if)
qed

lemma backpatch_get_minor:
  "POINTS_MINOR gc ptr \<Longrightarrow> \<exists>v. backpatch_get gc (CHUNK_OFFSET gc (MINOR_CHUNK gc ptr)) = Inr v"
  using MINOR_CHUNK_slot[of gc ptr] by (auto simp: CHUNK_OFFSET_CHUNK_AT backpatch_get_def)

lemma mem_only_refl [simp]: "mem_only gc gc"
  by (simp add: mem_only_def)

lemma mem_only_update [simp]:
  "mem_only gc (g\<lparr>gc_mem := m\<rparr>) = mem_only gc g"
  "mem_only (gc\<lparr>gc_mem := m\<rparr>) g = mem_only gc g"
  by (simp_all add: mem_only_def)

lemma mem_only_trans: "mem_only a b \<Longrightarrow> mem_only b c \<Longrightarrow> mem_only a c"
  by (simp add: mem_only_def)

lemma keeps_roots_refl [simp]: "keeps_roots gc gc"
  by (simp add: keeps_roots_def)

lemma keeps_roots_update [simp]:
  "keeps_roots gc (g\<lparr>gc_mem := m\<rparr>) = keeps_roots gc g"
  "keeps_roots gc (g\<lparr>gc_backpatch := bp\<rparr>) = keeps_roots gc g"
  "keeps_roots gc (g\<lparr>gc_free_chunk := k\<rparr>) = keeps_roots gc g"
  by (simp_all add: keeps_roots_def)

lemma keeps_roots_trans: "keeps_roots a b \<Longrightarrow> keeps_roots b c \<Longrightarrow> keeps_roots a c"
  by (simp add: keeps_roots_def)

lemma mem_only_keeps_roots: "mem_only gc g \<Longrightarrow> keeps_roots gc g"
  by (simp add: mem_only_def keeps_roots_def)

lemma keeps_roots_layout: "keeps_roots gc g \<Longrightarrow> layout_ok g = layout_ok gc"
  by (simp add: keeps_roots_def layout_ok_def)

end
