(* ===== verification/Major_Alloc.thy ===== *)
theory Major_Alloc
  imports Collector
begin

text \<open>
  The old-generation arena and its allocator: \<open>find_major_chunk\<close> and
  \<open>gc_major_alloc\<close> of \<open>src/gc.c\<close> (lines 92--100 and 133--158). The arena
  is a sequence of chunks linked implicitly by their header sizes; both
  functions walk it from its start with \<open>curr = curr + CHUNK_SIZE(curr)\<close>, a
  loop that never ends once it reaches a chunk whose size bits are 0. The walks
  are therefore \<^theory_text>\<open>partial_function (option)\<close>s, and \<open>chunk_chain\<close> describes
  the arenas on which they terminate: headers with positive sizes that tile the
  arena exactly.
\<close>

unbundle bit_operations_syntax

subsection \<open>Definitions\<close>

text \<open>
  The first loop of \<open>gc_major_alloc\<close> (lines 141--145). It leaves the loop at
  the first chunk that is \<^emph>\<open>not\<close> free or is smaller than the request, and
  steps over every chunk that would fit. \<open>size > CHUNK_SIZE(curr)\<close> compares an
  \<open>int\<close> with an \<open>unsigned int\<close>, so the comparison is unsigned.
\<close>

partial_function (option) major_alloc_scan :: "collector \<Rightarrow> u32 \<Rightarrow> addr \<Rightarrow> addr option" where
  "major_alloc_scan gc sz cur =
     (if cur < major_end gc then
        (if CHUNK_FLAGS (gc_mem gc) cur \<noteq> color_val GC_FREE \<or> sz > CHUNK_SIZE (gc_mem gc) cur
         then Some cur
         else major_alloc_scan gc sz (cur + ucast (CHUNK_SIZE (gc_mem gc) cur)))
      else Some cur)"

declare major_alloc_scan.simps [code]

text \<open>
  The rest of \<open>gc_major_alloc\<close>: the chosen chunk keeps its old size
  (\<open>FLAGS = prev_size\<close>) and turns white, and the remainder header
  \<open>prev_size - size\<close> is written \<open>size\<close> bytes further on (\<open>curr + size\<close> adds
  a signed \<open>int\<close>). The result is the payload address, \<open>NULL\<close> (0) on failure.
\<close>

definition gc_major_alloc :: "collector \<Rightarrow> u32 \<Rightarrow> (addr \<times> collector) option" where
  "gc_major_alloc gc n =
     (if n = 0 then Some (0, gc)
      else
        let sz = WITH_HEADER (ALIGN n)
        in Option.bind (major_alloc_scan gc sz (major_heap gc)) (\<lambda>cur.
             if cur \<ge> major_end gc then Some (0, gc)
             else
               let m = gc_mem gc;
                   prev_size = CHUNK_SIZE m cur;
                   m1 = store_u32 m cur prev_size;
                   m2 = MARK_CHUNK m1 cur (color_val GC_WHITE);
                   next = cur + scast sz;
                   m3 = store_u32 m2 next (prev_size - sz)
               in Some (cur + 4, gc\<lparr>gc_mem := m3\<rparr>)))"

partial_function (option) find_major_loop :: "collector \<Rightarrow> addr \<Rightarrow> addr \<Rightarrow> addr option" where
  "find_major_loop gc ptr cur =
     (if \<not> (ptr \<ge> cur \<and> ptr < cur + ucast (CHUNK_SIZE (gc_mem gc) cur)) \<and> cur < major_end gc
      then find_major_loop gc ptr (cur + ucast (CHUNK_SIZE (gc_mem gc) cur))
      else Some cur)"

declare find_major_loop.simps [code]

definition find_major_chunk :: "collector \<Rightarrow> addr \<Rightarrow> addr option" where
  "find_major_chunk gc ptr =
     Option.bind (find_major_loop gc ptr (major_heap gc))
       (\<lambda>cur. Some (if cur < major_end gc then cur else 0))"

text \<open>
  An arena on which the walks are defined: the header at \<open>a\<close> gives the first
  size of \<open>ss\<close>, each size is positive, and the next header follows it.
\<close>

fun chunk_chain :: "mem \<Rightarrow> addr \<Rightarrow> nat list \<Rightarrow> bool" where
  "chunk_chain m a [] = True"
| "chunk_chain m a (s # ss) \<longleftrightarrow>
     unat (CHUNK_SIZE m a) = s \<and> 0 < s \<and> chunk_chain m (a + of_nat s) ss"

definition arena_wf :: "collector \<Rightarrow> nat list \<Rightarrow> bool" where
  "arena_wf gc ss \<longleftrightarrow>
     layout_ok gc \<and> chunk_chain (gc_mem gc) (major_heap gc) ss \<and> sum_list ss = GC_MAJHEAP_SIZE"

text \<open>The offsets of the headers of an arena described by its chunk sizes.\<close>

fun chunk_offsets :: "nat \<Rightarrow> nat list \<Rightarrow> nat list" where
  "chunk_offsets off [] = []"
| "chunk_offsets off (s # ss) = off # chunk_offsets (off + s) ss"

definition fits :: "mem \<Rightarrow> u32 \<Rightarrow> addr \<Rightarrow> bool" where
  "fits m sz a \<longleftrightarrow> CHUNK_FLAGS m a = color_val GC_FREE \<and> sz \<le> CHUNK_SIZE m a"

text \<open>
  The example collector with the old generation set up as one free chunk that
  spans the whole arena, the natural initial state that \<open>gc_new\<close> does not
  establish.
\<close>

abbreviation ex_free_arena :: collector where
  "ex_free_arena \<equiv> ex_gc\<lparr>gc_mem := store_u32 (\<lambda>_. 0) 131072 33554432\<rparr>"

subsection \<open>The allocation scan\<close>

lemma major_alloc_scan_result:
  assumes "major_alloc_scan gc sz a = Some r"
  shows "r < major_end gc \<longrightarrow> \<not> fits (gc_mem gc) sz r"
proof (rule major_alloc_scan.raw_induct[where P = "\<lambda>gc sz a r. r < major_end gc \<longrightarrow> \<not> fits (gc_mem gc) sz r", OF _ assms])
  fix f gc sz and a r :: addr
  assume IH: "\<And>gc sz a r. f gc sz a = Some r \<Longrightarrow> r < major_end gc \<longrightarrow> \<not> fits (gc_mem gc) sz r"
    and eq: "(if a < major_end gc then
        (if CHUNK_FLAGS (gc_mem gc) a \<noteq> color_val GC_FREE \<or> sz > CHUNK_SIZE (gc_mem gc) a
         then Some a else f gc sz (a + ucast (CHUNK_SIZE (gc_mem gc) a)))
      else Some a) = Some r"
  show "r < major_end gc \<longrightarrow> \<not> fits (gc_mem gc) sz r"
    using eq IH[of gc sz "a + ucast (CHUNK_SIZE (gc_mem gc) a)" r]
    by (auto simp: fits_def not_le split: if_splits)
qed

lemma ucast_chunk_size: "unat (CHUNK_SIZE m a) = s \<Longrightarrow> (ucast (CHUNK_SIZE m a) :: addr) = of_nat s"
  by (metis of_nat_unat)

lemma major_alloc_scan_chain:
  assumes "layout_ok gc" and "chunk_chain (gc_mem gc) (major_heap gc + of_nat off) ss"
    and "off + sum_list ss = GC_MAJHEAP_SIZE"
  shows "\<exists>r. major_alloc_scan gc sz (major_heap gc + of_nat off) = Some r"
  using assms(2,3)
proof (induction ss arbitrary: off)
  case Nil
  then have "\<not> major_heap gc + of_nat off < major_end gc"
    using major_offset_less_end[OF assms(1), of off] by simp
  then show ?case by (simp add: major_alloc_scan.simps)
next
  case (Cons s ss)
  then have sz: "unat (CHUNK_SIZE (gc_mem gc) (major_heap gc + of_nat off)) = s" and "0 < s"
    and rest: "chunk_chain (gc_mem gc) (major_heap gc + of_nat (off + s)) ss"
    by (simp_all add: add.assoc)
  have "\<exists>r. major_alloc_scan gc sz (major_heap gc + of_nat (off + s)) = Some r"
    using Cons.IH[OF rest] Cons.prems(2) by simp
  moreover have "major_heap gc + of_nat off + ucast (CHUNK_SIZE (gc_mem gc) (major_heap gc + of_nat off)) =
      major_heap gc + of_nat (off + s)"
    using ucast_chunk_size[OF sz] by (simp add: add.assoc)
  ultimately obtain r where
    "major_alloc_scan gc sz (major_heap gc + of_nat off + ucast (CHUNK_SIZE (gc_mem gc) (major_heap gc + of_nat off))) = Some r"
    by auto
  then show ?case
    by (subst major_alloc_scan.simps) auto
qed

lemma ex_free_arena_wf: "arena_wf ex_free_arena [33554432]"
  by (simp add: arena_wf_def layout_ok_def major_heap_def major_end_def gc_new_def gc_consts CHUNK_SIZE_def FLAGS_def)

lemma major_alloc_scan_find:
  assumes "layout_ok gc" and "chunk_chain (gc_mem gc) (major_heap gc + of_nat off) ss"
    and "off + sum_list ss = GC_MAJHEAP_SIZE"
  shows "major_alloc_scan gc sz (major_heap gc + of_nat off) = Some (major_heap gc + of_nat
    (case find (\<lambda>x. \<not> fits (gc_mem gc) sz (major_heap gc + of_nat x)) (chunk_offsets off ss) of
       Some x \<Rightarrow> x | None \<Rightarrow> GC_MAJHEAP_SIZE))"
  using assms(2,3)
proof (induction ss arbitrary: off)
  case Nil
  then have "\<not> major_heap gc + of_nat off < major_end gc"
    using major_offset_less_end[OF assms(1), of off] by simp
  then show ?case using Nil.prems(2) by (simp add: major_alloc_scan.simps)
next
  case (Cons s ss)
  let ?a = "major_heap gc + of_nat off"
  have sz: "unat (CHUNK_SIZE (gc_mem gc) ?a) = s" and "0 < s"
    and rest: "chunk_chain (gc_mem gc) (major_heap gc + of_nat (off + s)) ss"
    using Cons.prems(1) by (simp_all add: add.assoc)
  have lt: "?a < major_end gc"
    using major_offset_less_end[OF assms(1), of off] Cons.prems(2) \<open>0 < s\<close> by simp
  have nxt: "?a + ucast (CHUNK_SIZE (gc_mem gc) ?a) = major_heap gc + of_nat (off + s)"
    using ucast_chunk_size[OF sz] by (simp add: add.assoc)
  show ?case
  proof (cases "fits (gc_mem gc) sz ?a")
    case True
    have "major_alloc_scan gc sz ?a = major_alloc_scan gc sz (?a + ucast (CHUNK_SIZE (gc_mem gc) ?a))"
      using True lt by (subst major_alloc_scan.simps) (auto simp: fits_def not_less)
    also have "\<dots> = major_alloc_scan gc sz (major_heap gc + of_nat (off + s))" by (simp only: nxt)
    also have "\<dots> = Some (major_heap gc + of_nat
        (case find (\<lambda>x. \<not> fits (gc_mem gc) sz (major_heap gc + of_nat x)) (chunk_offsets (off + s) ss) of
           Some x \<Rightarrow> x | None \<Rightarrow> GC_MAJHEAP_SIZE))"
      using Cons.prems(2) by (intro Cons.IH[OF rest]) simp
    finally show ?thesis using True by simp
  next
    case False
    then show ?thesis using lt
      by (subst major_alloc_scan.simps) (auto simp: fits_def not_less)
  qed
qed

subsection \<open>What gc_major_alloc hands out\<close>

lemma gc_major_alloc_Some:
  assumes "gc_major_alloc gc n = Some (p, gc')" and "p \<noteq> 0"
  shows "n \<noteq> 0 \<and> (\<exists>cur. major_alloc_scan gc (WITH_HEADER (ALIGN n)) (major_heap gc) = Some cur
     \<and> cur < major_end gc \<and> p = cur + 4
     \<and> gc' = gc\<lparr>gc_mem := store_u32 (MARK_CHUNK (store_u32 (gc_mem gc) cur (CHUNK_SIZE (gc_mem gc) cur))
                   cur (color_val GC_WHITE)) (cur + scast (WITH_HEADER (ALIGN n)))
                   (CHUNK_SIZE (gc_mem gc) cur - WITH_HEADER (ALIGN n))\<rparr>)"
  using assms
  by (auto simp: gc_major_alloc_def Let_def not_le split: if_splits Option.bind_splits)

lemma gc_major_alloc_frame:
  "gc_major_alloc gc n = Some (p, gc') \<Longrightarrow> gc' = gc\<lparr>gc_mem := gc_mem gc'\<rparr>"
  by (auto simp: gc_major_alloc_def Let_def split: if_splits Option.bind_splits)

lemma gc_major_alloc_first_unfit:
  assumes "layout_ok gc" and "n \<noteq> 0" and "\<not> fits (gc_mem gc) (WITH_HEADER (ALIGN n)) (major_heap gc)"
  shows "gc_major_alloc gc n = Some (major_heap gc + 4, gc\<lparr>gc_mem :=
    store_u32 (MARK_CHUNK (store_u32 (gc_mem gc) (major_heap gc) (CHUNK_SIZE (gc_mem gc) (major_heap gc)))
      (major_heap gc) (color_val GC_WHITE)) (major_heap gc + scast (WITH_HEADER (ALIGN n)))
      (CHUNK_SIZE (gc_mem gc) (major_heap gc) - WITH_HEADER (ALIGN n))\<rparr>)"
proof -
  have scan: "major_alloc_scan gc (WITH_HEADER (ALIGN n)) (major_heap gc) = Some (major_heap gc)"
    using assms(3) major_heap_less_end[OF assms(1)]
    by (subst major_alloc_scan.simps) (auto simp: fits_def not_le)
  moreover have "\<not> major_end gc \<le> major_heap gc" using major_heap_less_end[OF assms(1)] by simp
  ultimately show ?thesis using assms(2) by (simp add: gc_major_alloc_def Let_def)
qed

text \<open>
  Claim C24 (equivalence): on a well-formed arena the pointer walk of
  \<open>gc_major_alloc\<close> computes a list search over the chunk offsets: it stops
  at the first chunk that does \<^emph>\<open>not\<close> fit the request (or at the arena's
  end when every chunk fits), the reverse of the first-fit search the
  specification describes.
\<close>

theorem major_alloc_scan_first_unfit:
  assumes "arena_wf gc ss"
  shows "major_alloc_scan gc sz (major_heap gc) = Some (major_heap gc + of_nat
    (case find (\<lambda>x. \<not> fits (gc_mem gc) sz (major_heap gc + of_nat x)) (chunk_offsets 0 ss) of
       Some x \<Rightarrow> x | None \<Rightarrow> GC_MAJHEAP_SIZE))"
  using major_alloc_scan_find[of gc 0 ss sz] assms by (simp add: arena_wf_def)

text \<open>
  Claim C11 (code bug): the scan is inverted. It steps over every chunk that
  is free and large enough and stops at the first one that is not, so no block
  \<open>gc_major_alloc\<close> returns ever comes from a chunk that fitted the request:
  it is carved out of an allocated chunk or out of one that is too small.
\<close>

theorem gc_major_alloc_never_fits:
  assumes "gc_major_alloc gc n = Some (p, gc')" and "p \<noteq> 0"
  shows "\<not> fits (gc_mem gc) (WITH_HEADER (ALIGN n)) (p - 4)"
proof -
  from assms have n: "n \<noteq> 0" by (auto simp: gc_major_alloc_def)
  then obtain cur where scan: "major_alloc_scan gc (WITH_HEADER (ALIGN n)) (major_heap gc) = Some cur"
    using assms(1) by (cases "major_alloc_scan gc (WITH_HEADER (ALIGN n)) (major_heap gc)")
      (auto simp: gc_major_alloc_def Let_def)
  show ?thesis
  proof (cases "cur < major_end gc")
    case True
    then have "\<not> major_end gc \<le> cur" by simp
    with assms(1) n scan have "p = cur + 4" by (simp add: gc_major_alloc_def Let_def)
    with major_alloc_scan_result[OF scan] True show ?thesis by simp
  next
    case False
    then have "major_end gc \<le> cur" by simp
    with assms n scan show ?thesis by (simp add: gc_major_alloc_def)
  qed
qed

lemma sz_bounds:
  assumes "n \<noteq> 0" and "unat n + 7 < 2 ^ 31"
  shows "4 \<le> unat (WITH_HEADER (ALIGN n)) \<and> unat (WITH_HEADER (ALIGN n)) < 2 ^ 31"
proof -
  have "unat (WITH_HEADER (ALIGN n)) = (unat n + 3) div 4 * 4 + 4"
    using assms(2) by (intro unat_WITH_HEADER_ALIGN) simp
  then show ?thesis using assms(2) by simp
qed

text \<open>
  Claim C12 (code bug): whenever the first chunk of the arena does not fit the
  request (in particular on the zero-filled arena of a fresh collector, whose
  first header reads as a free chunk of size 0), \<open>gc_major_alloc\<close> returns the
  first chunk's payload and leaves that chunk white, so every later request gets
  the same block again.
\<close>

theorem gc_major_alloc_reuses_first_chunk:
  assumes "layout_ok gc" and "n \<noteq> 0" and "unat n + 7 < 2 ^ 31"
    and "\<not> fits (gc_mem gc) (WITH_HEADER (ALIGN n)) (major_heap gc)"
  shows "\<exists>gc'. gc_major_alloc gc n = Some (major_heap gc + 4, gc')
     \<and> CHUNK_FLAGS (gc_mem gc') (major_heap gc) = color_val GC_WHITE"
proof -
  let ?sz = "WITH_HEADER (ALIGN n)" and ?a = "major_heap gc"
  have scan: "major_alloc_scan gc ?sz ?a = Some ?a"
    using assms(4) major_heap_less_end[OF assms(1)]
    by (subst major_alloc_scan.simps) (auto simp: fits_def not_le)
  have not_end: "\<not> major_end gc \<le> ?a" using major_heap_less_end[OF assms(1)] by simp
  have b: "4 \<le> unat ?sz" "unat ?sz < 2 ^ 31" using sz_bounds[OF assms(2,3)] by auto
  have sep: "separate (?a + scast ?sz) 4 ?a 4"
    using separate_offsets[of "unat ?sz" 4 0 4 ?a] b by (simp add: scast_u32_small)
  let ?m2 = "MARK_CHUNK (store_u32 (gc_mem gc) ?a (CHUNK_SIZE (gc_mem gc) ?a)) ?a (color_val GC_WHITE)"
  have "CHUNK_FLAGS (store_u32 ?m2 (?a + scast ?sz) (CHUNK_SIZE (gc_mem gc) ?a - ?sz)) ?a = CHUNK_FLAGS ?m2 ?a"
    using sep by (simp add: CHUNK_FLAGS_def FLAGS_def load_u32_store_u32_separate)
  also have "\<dots> = color_val GC_WHITE" by (simp add: CHUNK_FLAGS_MARK_CHUNK)
  finally show ?thesis
    using assms(2) scan not_end by (simp add: gc_major_alloc_def Let_def)
qed

text \<open>
  Claim C13 (error): the specification's first-fit guarantee (a request no
  larger than the largest free chunk never fails) does not hold: on an arena
  that is one free chunk of \<open>GC_MAJHEAP_SIZE\<close> bytes every request fails.
\<close>

theorem gc_major_alloc_fails_on_free_arena:
  assumes "layout_ok gc" and "FLAGS (gc_mem gc) (major_heap gc) = of_nat GC_MAJHEAP_SIZE"
    and "n \<noteq> 0" and "unat n \<le> GC_MAJHEAP_SIZE - 4"
  shows "gc_major_alloc gc n = Some (0, gc)"
proof -
  let ?sz = "WITH_HEADER (ALIGN n)" and ?a = "major_heap gc"
  have "unat ?sz = (unat n + 3) div 4 * 4 + 4"
    using assms(4) by (intro unat_WITH_HEADER_ALIGN) (simp add: gc_consts)
  then have "unat ?sz \<le> GC_MAJHEAP_SIZE" using assms(4) by (simp add: gc_consts)
  then have le: "?sz \<le> 33554432" by (simp add: word_le_nat_alt gc_consts)
  have hdr: "CHUNK_FLAGS (gc_mem gc) ?a = 0" "CHUNK_SIZE (gc_mem gc) ?a = 33554432"
    using assms(2) by (simp_all add: CHUNK_FLAGS_def CHUNK_SIZE_def gc_consts)
  have "?a + ucast (33554432 :: u32) = major_end gc"
    by (simp add: major_end_def gc_consts)
  then have "major_alloc_scan gc ?sz ?a = Some (major_end gc)"
    using hdr le major_heap_less_end[OF assms(1)]
    by (subst major_alloc_scan.simps) (auto simp: not_less major_alloc_scan.simps)
  then show ?thesis using assms(3) by (simp add: gc_major_alloc_def)
qed

text \<open>
  Claim C14 (code bug): the chunk is not split. The block handed out keeps the
  size of the whole chunk it came from, and the header of the remainder is
  written inside that block, \<open>WITH_HEADER (ALIGN n)\<close> bytes from its start.
\<close>

theorem gc_major_alloc_does_not_split:
  assumes "gc_major_alloc gc n = Some (p, gc')" and "p \<noteq> 0" and "unat n + 7 < 2 ^ 31"
  shows "CHUNK_SIZE (gc_mem gc') (p - 4) = CHUNK_SIZE (gc_mem gc) (p - 4)
    \<and> FLAGS (gc_mem gc') (p - 4 + of_nat (unat (WITH_HEADER (ALIGN n)))) =
       CHUNK_SIZE (gc_mem gc) (p - 4) - WITH_HEADER (ALIGN n)"
proof -
  obtain cur where n: "n \<noteq> 0" and p: "p = cur + 4"
    and gc': "gc' = gc\<lparr>gc_mem := store_u32 (MARK_CHUNK (store_u32 (gc_mem gc) cur (CHUNK_SIZE (gc_mem gc) cur))
                   cur (color_val GC_WHITE)) (cur + scast (WITH_HEADER (ALIGN n)))
                   (CHUNK_SIZE (gc_mem gc) cur - WITH_HEADER (ALIGN n))\<rparr>"
    using gc_major_alloc_Some[OF assms(1,2)] by blast
  let ?sz = "WITH_HEADER (ALIGN n)"
  have b: "4 \<le> unat ?sz" "unat ?sz < 2 ^ 31" using sz_bounds[OF n assms(3)] by auto
  then have sc: "(scast ?sz :: addr) = of_nat (unat ?sz)" by (simp add: scast_u32_small)
  have sep: "separate (cur + of_nat (unat ?sz)) 4 cur 4"
    using separate_offsets[of "unat ?sz" 4 0 4 cur] b by simp
  have "CHUNK_SIZE (gc_mem gc') cur = CHUNK_SIZE (MARK_CHUNK (store_u32 (gc_mem gc) cur (CHUNK_SIZE (gc_mem gc) cur))
                   cur (color_val GC_WHITE)) cur"
    using sep by (simp add: gc' sc CHUNK_SIZE_def FLAGS_def load_u32_store_u32_separate)
  also have "\<dots> = CHUNK_SIZE (gc_mem gc) cur"
    by (simp add: CHUNK_SIZE_MARK_CHUNK) (simp add: CHUNK_SIZE_def FLAGS_def)
  finally show ?thesis by (simp add: p gc' sc FLAGS_def)
qed

text \<open>
  Claim C15 (error): the remainder header is written without a bounds check.
  For a request of at least \<open>GC_MAJHEAP_SIZE - 4\<close> bytes served from the
  first chunk, \<open>FLAGS(next) = prev_size - size\<close> (\<open>gc.c\<close> lines
  155--156) writes at or beyond \<open>&gc_major_heap[GC_MAJHEAP_SIZE]\<close>, outside
  the old generation; in the C struct those bytes are \<open>gc_free_chunk\<close> and
  \<open>gc_ref_count\<close>.
\<close>

theorem gc_major_alloc_writes_past_arena:
  assumes "layout_ok gc" and "n \<noteq> 0" and "unat n + 7 < 2 ^ 31"
    and "\<not> fits (gc_mem gc) (WITH_HEADER (ALIGN n)) (major_heap gc)"
    and "GC_MAJHEAP_SIZE \<le> unat (WITH_HEADER (ALIGN n))"
    and "unat (major_heap gc) + 2 ^ 31 < 2 ^ 64"
  shows "\<exists>gc'. gc_major_alloc gc n = Some (major_heap gc + 4, gc')
     \<and> major_end gc \<le> major_heap gc + scast (WITH_HEADER (ALIGN n))
     \<and> load_u32 (gc_mem gc') (major_heap gc + scast (WITH_HEADER (ALIGN n)))
         = CHUNK_SIZE (gc_mem gc) (major_heap gc) - WITH_HEADER (ALIGN n)"
proof -
  let ?sz = "WITH_HEADER (ALIGN n)" and ?a = "major_heap gc"
  have scan: "major_alloc_scan gc ?sz ?a = Some ?a"
    using assms(4) major_heap_less_end[OF assms(1)]
    by (subst major_alloc_scan.simps) (auto simp: fits_def not_le)
  have not_end: "\<not> major_end gc \<le> ?a" using major_heap_less_end[OF assms(1)] by simp
  have b: "unat ?sz < 2 ^ 31" using sz_bounds[OF assms(2,3)] by auto
  then have sc: "(scast ?sz :: addr) = of_nat (unat ?sz)" by (rule scast_u32_small)
  have "unat (?a + of_nat (unat ?sz)) = unat ?a + unat ?sz"
    using assms(6) b by (intro unat_add_of_nat_less) simp
  moreover have "unat (major_end gc) = unat ?a + GC_MAJHEAP_SIZE"
    using assms(6) unfolding major_end_def by (intro unat_add_of_nat_less) (simp add: gc_consts)
  ultimately have "major_end gc \<le> ?a + scast ?sz" using assms(5) by (simp add: sc word_le_nat_alt)
  then show ?thesis using assms(2) scan not_end by (simp add: gc_major_alloc_def Let_def)
qed

subsection \<open>Witnesses\<close>

lemma ex_gc_first_not_fit: "\<not> fits (gc_mem ex_gc) (WITH_HEADER (ALIGN 16)) (major_heap ex_gc)"
  by (simp add: fits_def CHUNK_SIZE_def FLAGS_def gc_new_def WITH_HEADER_def ALIGN_def)

lemma ex_gc_alloc_16: "\<exists>g1. gc_major_alloc ex_gc 16 = Some (131076, g1)"
proof -
  have "major_alloc_scan ex_gc (WITH_HEADER (ALIGN 16)) (major_heap ex_gc) = Some (major_heap ex_gc)"
    using ex_gc_first_not_fit major_heap_less_end[OF ex_gc_layout]
    by (subst major_alloc_scan.simps) (simp add: fits_def not_le)
  then show ?thesis using major_heap_less_end[OF ex_gc_layout]
    by (simp add: gc_major_alloc_def Let_def ex_gc_major_heap not_le)
qed

theorem major_alloc_scan_first_unfit_witness:
  "major_alloc_scan ex_free_arena 28 (major_heap ex_free_arena) = Some (major_heap ex_free_arena + 33554432)"
  using major_alloc_scan_first_unfit[OF ex_free_arena_wf, of 28]
  by (simp add: fits_def CHUNK_FLAGS_def CHUNK_SIZE_def FLAGS_def ex_gc_major_heap gc_consts)

theorem gc_major_alloc_reuses_first_chunk_witness:
  "\<exists>g1 g2. gc_major_alloc ex_gc 16 = Some (131076, g1) \<and> gc_major_alloc g1 16 = Some (131076, g2)"
proof -
  obtain g1 where a1: "gc_major_alloc ex_gc 16 = Some (major_heap ex_gc + 4, g1)"
    and w: "CHUNK_FLAGS (gc_mem g1) (major_heap ex_gc) = color_val GC_WHITE"
    using gc_major_alloc_reuses_first_chunk[OF ex_gc_layout _ _ ex_gc_first_not_fit] by auto
  have g1: "g1 = ex_gc\<lparr>gc_mem := gc_mem g1\<rparr>" using gc_major_alloc_frame[OF a1] .
  have l1: "layout_ok g1" by (subst g1) (simp add: ex_gc_layout)
  have h1: "major_heap g1 = major_heap ex_gc" by (subst g1) simp
  have "\<not> fits (gc_mem g1) (WITH_HEADER (ALIGN 16)) (major_heap g1)"
    using w h1 by (simp add: fits_def)
  then obtain g2 where "gc_major_alloc g1 16 = Some (major_heap g1 + 4, g2)"
    using gc_major_alloc_reuses_first_chunk[OF l1, of 16] by auto
  with a1 h1 show ?thesis by (auto simp: ex_gc_major_heap)
qed

theorem gc_major_alloc_never_fits_witness:
  "\<exists>g1. gc_major_alloc ex_gc 16 = Some (131076, g1)
     \<and> \<not> fits (gc_mem ex_gc) (WITH_HEADER (ALIGN 16)) (131076 - 4)"
proof -
  obtain g1 where a: "gc_major_alloc ex_gc 16 = Some (131076, g1)"
    using ex_gc_alloc_16 by blast
  then show ?thesis using gc_major_alloc_never_fits[OF a] by auto
qed

theorem gc_major_alloc_fails_on_free_arena_witness:
  "gc_major_alloc ex_free_arena 16 = Some (0, ex_free_arena)"
  by (rule gc_major_alloc_fails_on_free_arena)
    (simp_all add: layout_ok_def major_heap_def gc_new_def gc_consts FLAGS_def)

theorem gc_major_alloc_does_not_split_witness:
  "\<exists>g1. gc_major_alloc ex_gc 16 = Some (131076, g1)
     \<and> CHUNK_SIZE (gc_mem g1) 131072 = 0 \<and> FLAGS (gc_mem g1) 131092 = - 20"
proof -
  obtain g1 where a: "gc_major_alloc ex_gc 16 = Some (131076, g1)"
    using ex_gc_alloc_16 by blast
  have z: "CHUNK_SIZE (gc_mem ex_gc) 131072 = 0"
    by (simp add: CHUNK_SIZE_def FLAGS_def gc_new_def)
  have u: "unat (WITH_HEADER (ALIGN (16 :: u32))) = 20" "WITH_HEADER (ALIGN (16 :: u32)) = 20"
    by (simp_all add: WITH_HEADER_def ALIGN_def)
  have "CHUNK_SIZE (gc_mem g1) (131076 - 4) = CHUNK_SIZE (gc_mem ex_gc) (131076 - 4)
    \<and> FLAGS (gc_mem g1) (131076 - 4 + of_nat (unat (WITH_HEADER (ALIGN (16 :: u32))))) =
       CHUNK_SIZE (gc_mem ex_gc) (131076 - 4) - WITH_HEADER (ALIGN 16)"
    by (rule gc_major_alloc_does_not_split[OF a]) simp_all
  then show ?thesis using a z unfolding u by simp
qed

theorem gc_major_alloc_writes_past_arena_witness:
  "\<exists>gc'. gc_major_alloc ex_gc 33554428 = Some (131076, gc')
     \<and> major_end ex_gc \<le> 131072 + 33554432 \<and> load_u32 (gc_mem gc') (131072 + 33554432) = - 33554432"
proof -
  have sz: "WITH_HEADER (ALIGN (33554428 :: u32)) = 33554432" by (simp add: WITH_HEADER_def ALIGN_def)
  have "\<not> fits (gc_mem ex_gc) 33554432 131072" by (simp add: fits_def CHUNK_SIZE_def CHUNK_FLAGS_def FLAGS_def gc_new_def)
  moreover have "CHUNK_SIZE (gc_mem ex_gc) 131072 = 0" by (simp add: CHUNK_SIZE_def FLAGS_def gc_new_def)
  ultimately show ?thesis
    using gc_major_alloc_writes_past_arena[of ex_gc 33554428] ex_gc_layout
    by (simp add: sz ex_gc_major_heap gc_consts)
qed

lemma ex_gc_major_alloc_large:
  assumes "int GC_MINCHUNK_SIZE < sint (WITH_HEADER (ALIGN n))" and "n \<noteq> 0"
  shows "\<exists>m. gc_major_alloc ex_gc n = Some (131076, ex_gc\<lparr>gc_mem := m\<rparr>) \<and> load_u32 m 131072 = 1"
proof -
  let ?sz = "WITH_HEADER (ALIGN n)" and ?h = "major_heap ex_gc"
  have u: "unat ?sz < 2 ^ 31" using assms(1) by (intro sint_nonneg_small) (simp add: gc_consts)
  then have s: "sint ?sz = int (unat ?sz)" by (rule sint_u32_small)
  have "int GC_MINCHUNK_SIZE < int (unat ?sz)" using assms(1) unfolding s .
  then have u256: "256 < unat ?sz" unfolding of_nat_less_iff by (simp add: gc_consts)
  then have pos: "0 < ?sz" by (simp add: word_less_nat_alt)
  have lt: "?h < major_end ex_gc" by (rule major_heap_less_end[OF ex_gc_layout])
  have "major_alloc_scan ex_gc ?sz ?h = Some ?h"
    using lt pos by (subst major_alloc_scan.simps) (simp add: CHUNK_FLAGS_def CHUNK_SIZE_def FLAGS_def gc_new_def)
  moreover have sc: "(scast ?sz :: addr) = ucast ?sz" using u by (simp add: scast_u32_small)
  moreover have sep: "separate (131072 + ucast ?sz) 4 131072 4"
    using separate_offsets[of "unat ?sz" 4 0 4 131072] u256 u by simp
  moreover have "gc_mem ex_gc = (\<lambda>_. 0)" by (simp add: gc_new_def)
  moreover define m where "m = store_u32 (store_u32 (store_u32 (\<lambda>_. 0) 131072 0) 131072 1) (131072 + ucast ?sz) (- ?sz)"
  ultimately have "gc_major_alloc ex_gc n = Some (131076, ex_gc\<lparr>gc_mem := m\<rparr>)"
    using lt assms(2) unfolding gc_major_alloc_def ex_gc_major_heap
    by (simp add: Let_def MARK_CHUNK_def CHUNK_SIZE_def FLAGS_def not_le)
  moreover have "load_u32 m 131072 = 1"
    unfolding m_def by (subst load_u32_store_u32_separate[OF sep]) simp
  ultimately show ?thesis by blast
qed

end
