(* ===== verification/Minor_GC.thy ===== *)
theory Minor_GC
  imports Major_Alloc
begin

text \<open>
  The minor collection of \<open>src/gc.c\<close>: marking the nursery from the roots
  (\<open>gc_mark_chunk\<close>, lines 78--90, and \<open>mark_minor\<close>, lines 197--211), the
  promotion of the nursery slots into the old generation (\<open>copy_minor_heap\<close>,
  lines 249--268) with the two pointer-rewriting passes \<open>backpatch_refs\<close>
  (lines 228--247) and \<open>backpatch_chunk\<close> (lines 213--226), and \<open>gc_minor\<close>
  (lines 287--292) that runs them and empties the nursery.

  Each function threads the collector. The recursive marking may in principle
  not return, so it is a \<^theory_text>\<open>partial_function (option)\<close>; \<open>Minor_Mark\<close>
  shows that it always returns. An index outside \<open>gc_backpatch\<close> is an error
  value, as in \<open>Collector\<close>.
\<close>

unbundle bit_operations_syntax

subsection \<open>Marking the nursery\<close>

text \<open>
  The loop of \<open>gc_mark_chunk\<close> from word \<open>i\<close> of \<open>chunk\<close> on. The bound
  \<open>PTR_INDEX(CHUNK_SIZE(chunk))\<close> is read again on every iteration, and a
  recursive call on an unmarked slot is \<open>gc_mark_chunk\<close> itself: mark the slot,
  then scan it from word 0.
\<close>

partial_function (option) mark_scan :: "collector \<Rightarrow> addr \<Rightarrow> nat \<Rightarrow> collector option" where
  "mark_scan gc chunk i =
     (if i < PTR_INDEX (CHUNK_SIZE (gc_mem gc) chunk) then
        (let ptr = load_ptr (gc_mem gc) (BITS_AT chunk i) in
         if REF_PTR_MIN gc ptr then
           (let ref = MINOR_CHUNK gc ptr in
            if \<not> MARKED (gc_mem gc) ref
            then Option.bind (mark_scan (gc\<lparr>gc_mem := MARK_CHUNK (gc_mem gc) ref 1\<rparr>) ref 0)
                   (\<lambda>gc'. mark_scan gc' chunk (Suc i))
            else mark_scan gc chunk (Suc i))
         else mark_scan gc chunk (Suc i))
      else Some gc)"

declare mark_scan.simps [code]

definition gc_mark_chunk :: "collector \<Rightarrow> addr \<Rightarrow> collector option" where
  "gc_mark_chunk gc chunk = mark_scan (gc\<lparr>gc_mem := MARK_CHUNK (gc_mem gc) chunk 1\<rparr>) chunk 0"

text \<open>
  \<open>mark_minor\<close> clears the backpatch table and marks, from every root word
  that holds a nursery pointer, the slot it points into (the body of its loop
  nest is \<open>mark_root\<close>). It does not clear the mark bits left by the previous
  collection.
\<close>

definition mark_root :: "addr \<Rightarrow> collector \<Rightarrow> collector res" where
  "mark_root ref gc =
     (let ptr = load_ptr (gc_mem gc) ref in
      if REF_PTR_MIN gc ptr then map_option Inr (gc_mark_chunk gc (MINOR_CHUNK gc ptr))
      else Some (Inr gc))"

definition mark_minor :: "collector \<Rightarrow> collector res" where
  "mark_minor gc = for_each_root mark_root (gc\<lparr>gc_backpatch := (\<lambda>_. 0)\<rparr>)"

subsection \<open>Rewriting pointers into promoted slots\<close>

text \<open>
  The loop of \<open>backpatch_chunk\<close> from word \<open>i\<close> on: every word of the chunk
  that points into a marked nursery slot is moved by the distance from the slot
  to its copy. The loop index never exceeds \<open>PTR_INDEX\<close> of a 32-bit size,
  which bounds the recursion.
\<close>

function backpatch_chunk_loop :: "collector \<Rightarrow> addr \<Rightarrow> nat \<Rightarrow> collector res" where
  "backpatch_chunk_loop gc chunk i =
     (if i < PTR_INDEX (CHUNK_SIZE (gc_mem gc) chunk) then
        (let ptr = load_ptr (gc_mem gc) (BITS_AT chunk i) in
         if REF_PTR_MIN gc ptr then
           (let ref = MINOR_CHUNK gc ptr in
            if MARKED (gc_mem gc) ref then
              (case backpatch_get gc (CHUNK_OFFSET gc ref) of
                 Inl e \<Rightarrow> Some (Inl e)
               | Inr new_ptr \<Rightarrow>
                   backpatch_chunk_loop
                     (gc\<lparr>gc_mem := store_ptr (gc_mem gc) (BITS_AT chunk i) (ptr + (new_ptr - ref))\<rparr>)
                     chunk (Suc i))
            else backpatch_chunk_loop gc chunk (Suc i))
         else backpatch_chunk_loop gc chunk (Suc i))
      else Some (Inr gc))"
  by pat_completeness auto
termination
  by (relation "measure (\<lambda>(gc, chunk, i). 2 ^ 29 - i)")
    (auto dest: less_trans[OF _ PTR_INDEX_less])

definition backpatch_chunk :: "collector \<Rightarrow> addr \<Rightarrow> collector res" where
  "backpatch_chunk gc chunk = backpatch_chunk_loop gc chunk 0"

text \<open>
  \<open>backpatch_refs\<close> moves every root word that points into a marked slot
  (any word pointing into the nursery: unlike the other scans it does not test
  \<open>MEM_TAG\<close>) by the same distance, unless the slot's copy is \<open>NULL\<close>; the
  body of its loop nest is \<open>backpatch_root\<close>.
\<close>

definition backpatch_root :: "addr \<Rightarrow> collector \<Rightarrow> collector res" where
  "backpatch_root ref gc =
     (let ptr = load_ptr (gc_mem gc) ref in
      if POINTS_MINOR gc ptr then
        (let chunk = MINOR_CHUNK gc ptr in
         if MARKED (gc_mem gc) chunk then
           (case backpatch_get gc (CHUNK_OFFSET gc chunk) of
              Inl e \<Rightarrow> Some (Inl e)
            | Inr new_ptr \<Rightarrow>
                if new_ptr \<noteq> 0
                then Some (Inr (gc\<lparr>gc_mem := store_ptr (gc_mem gc) ref (ptr + (new_ptr - chunk))\<rparr>))
                else Some (Inr gc))
         else Some (Inr gc))
      else Some (Inr gc))"

definition backpatch_refs :: "collector \<Rightarrow> collector res" where
  "backpatch_refs gc = for_each_root backpatch_root gc"

subsection \<open>Promotion\<close>

text \<open>
  The first loop of \<open>copy_minor_heap\<close>, one iteration: allocate an old-generation
  block for slot \<open>i\<close> (its size plus another header, since \<open>gc_major_alloc\<close>
  adds one itself) and record the block's header address, which is
  \<open>NULL - 4\<close> when the allocation failed.
\<close>

definition promote_slot :: "nat \<Rightarrow> collector \<Rightarrow> collector res" where
  "promote_slot i gc =
     (case gc_major_alloc gc (WITH_HEADER (CHUNK_SIZE (gc_mem gc) (CHUNK_AT gc i))) of
        None \<Rightarrow> None
      | Some (p, gc') \<Rightarrow> Some (backpatch_set gc' (int i) (WITHOUT_HEADER_ptr p)))"

text \<open>The last loop of \<open>copy_minor_heap\<close>, one iteration: copy a marked slot.\<close>

definition copy_slot :: "nat \<Rightarrow> collector \<Rightarrow> collector res" where
  "copy_slot i gc =
     (let chunk = CHUNK_AT gc i in
      if MARKED (gc_mem gc) chunk then
        (case backpatch_get gc (int i) of
           Inl e \<Rightarrow> Some (Inl e)
         | Inr new \<Rightarrow>
             Some (Inr (gc\<lparr>gc_mem := mem_copy (gc_mem gc) new chunk (unat (CHUNK_SIZE (gc_mem gc) chunk))\<rparr>)))
      else Some (Inr gc))"

text \<open>
  \<open>copy_minor_heap\<close>: promote every slot below \<open>gc_free_chunk\<close> (marked or
  not), rewrite the roots, then rewrite and copy the first \<open>gc_ref_count\<close>
  slots: the last two loops are bounded by the number of root ranges, not by the
  number of slots.
\<close>

definition copy_minor_heap :: "collector \<Rightarrow> collector res" where
  "copy_minor_heap gc =
     res_bind (res_fold promote_slot [0..<nat (gc_free_chunk gc)] gc) (\<lambda>g1.
     res_bind (backpatch_refs g1) (\<lambda>g2.
     res_bind (res_fold (\<lambda>i g. backpatch_chunk g (CHUNK_AT g i)) [0..<nat (gc_ref_count g2)] g2) (\<lambda>g3.
     res_fold copy_slot [0..<nat (gc_ref_count g3)] g3)))"

definition gc_minor :: "collector \<Rightarrow> collector res" where
  "gc_minor gc =
     res_bind (mark_minor gc) (\<lambda>g1.
     res_bind (copy_minor_heap g1) (\<lambda>g2.
     Some (Inr (g2\<lparr>gc_free_chunk := 0\<rparr>))))"


lemma gc_minor_free_chunk: "gc_minor gc = Some (Inr g) \<Longrightarrow> gc_free_chunk g = 0"
  by (auto simp: gc_minor_def res_bind_eq_Inr)

end
