(* ===== verification/Minor_Mark.thy ===== *)
theory Minor_Mark
  imports Minor_GC
begin

text \<open>
  Correctness of the nursery marking of \<open>src/gc.c\<close> (\<open>gc_mark_chunk\<close>,
  \<open>mark_minor\<close>), modelled in \<open>Minor_GC\<close>. The definitions below are not
  code: they name the sets and relations the theorems speak of. The unmarked
  slots measure the recursion of \<open>gc_mark_chunk\<close>; \<open>marks_only\<close> says that a
  state differs from another only in the bytes of slot headers, with every slot
  size and every existing mark kept; \<open>minor_succ\<close> is the points-to graph of
  the nursery slots as the marking loop reads it, and \<open>root_slot\<close> the slots
  the root words point into. The main results: the marking always returns
  (whatever the memory holds), it changes only mark bits, and, on a nursery with
  no stale marks, slots no larger than 252 bytes and root words outside the slot
  headers, every slot reachable from a root is marked.
\<close>

unbundle bit_operations_syntax

definition unmarked_slots :: "collector \<Rightarrow> nat set" where
  "unmarked_slots gc = {k. k < GC_MINCHUNKS \<and> \<not> MARKED (gc_mem gc) (CHUNK_AT gc k)}"

definition hdr_byte :: "collector \<Rightarrow> addr \<Rightarrow> bool" where
  "hdr_byte gc a \<longleftrightarrow> (\<exists>k<GC_MINCHUNKS. \<exists>b<4. a = CHUNK_AT gc k + of_nat b)"

definition marks_only :: "collector \<Rightarrow> collector \<Rightarrow> bool" where
  "marks_only gc r \<longleftrightarrow>
     (\<exists>m. r = gc\<lparr>gc_mem := m\<rparr>) \<and> unmarked_slots r \<subseteq> unmarked_slots gc
     \<and> (\<forall>a. gc_mem r a \<noteq> gc_mem gc a \<longrightarrow> hdr_byte gc a)
     \<and> (\<forall>k<GC_MINCHUNKS. CHUNK_SIZE (gc_mem r) (CHUNK_AT gc k) = CHUNK_SIZE (gc_mem gc) (CHUNK_AT gc k))"

definition points_to_slot :: "collector \<Rightarrow> addr \<Rightarrow> nat \<Rightarrow> bool" where
  "points_to_slot gc p j \<longleftrightarrow> j < GC_MINCHUNKS \<and> REF_PTR_MIN gc p \<and> MINOR_CHUNK gc p = CHUNK_AT gc j"

definition slot_words :: "collector \<Rightarrow> nat \<Rightarrow> addr list" where
  "slot_words gc k =
     map (\<lambda>i. load_ptr (gc_mem gc) (BITS_AT (CHUNK_AT gc k) i))
       [0..<PTR_INDEX (CHUNK_SIZE (gc_mem gc) (CHUNK_AT gc k))]"

definition minor_succ :: "collector \<Rightarrow> nat \<Rightarrow> nat \<Rightarrow> bool" where
  "minor_succ gc k j \<longleftrightarrow> k < GC_MINCHUNKS \<and> j < GC_MINCHUNKS \<and> list_ex (\<lambda>p. points_to_slot gc p j) (slot_words gc k)"

definition root_slot :: "collector \<Rightarrow> nat \<Rightarrow> bool" where
  "root_slot gc j \<longleftrightarrow>
     j < GC_MINCHUNKS \<and> list_ex (\<lambda>w. points_to_slot gc (load_ptr (gc_mem gc) w) j) (root_words gc)"

definition small_slots :: "collector \<Rightarrow> bool" where
  "small_slots gc \<longleftrightarrow>
     list_all (\<lambda>k. unat (CHUNK_SIZE (gc_mem gc) (CHUNK_AT gc k)) \<le> 252) [0..<GC_MINCHUNKS]"

definition roots_clear :: "collector \<Rightarrow> bool" where
  "roots_clear gc \<longleftrightarrow> (\<forall>w\<in>set (root_words gc). \<forall>b<8. \<not> hdr_byte gc (w + of_nat b))"

definition words_marked :: "collector \<Rightarrow> addr \<Rightarrow> nat \<Rightarrow> collector \<Rightarrow> bool" where
  "words_marked gc chunk i r \<longleftrightarrow>
     (\<forall>i' j. i \<le> i' \<and> i' < PTR_INDEX (CHUNK_SIZE (gc_mem gc) chunk)
        \<and> points_to_slot gc (load_ptr (gc_mem gc) (BITS_AT chunk i')) j
        \<longrightarrow> MARKED (gc_mem r) (CHUNK_AT gc j))"

definition new_marks_closed :: "collector \<Rightarrow> collector \<Rightarrow> bool" where
  "new_marks_closed gc r \<longleftrightarrow>
     (\<forall>j j'. j < GC_MINCHUNKS \<and> MARKED (gc_mem r) (CHUNK_AT gc j) \<and> \<not> MARKED (gc_mem gc) (CHUNK_AT gc j)
        \<and> minor_succ gc j j' \<longrightarrow> MARKED (gc_mem r) (CHUNK_AT gc j'))"


text \<open>
  The example the witnesses run on: \<open>ex_gc\<close> with one root range
  \<open>[0x100, 0x108)\<close> whose word points into slot 0, slot 0 a 20-byte chunk
  whose first word points into slot 1, and slot 1 a 20-byte chunk.
\<close>

abbreviation ex_mem :: mem where
  "ex_mem \<equiv> store_u32 (store_ptr (store_u32 (store_ptr (\<lambda>_. 0) 256 65540) 65536 20) 65540 65796) 65792 20"

abbreviation ex_roots :: collector where
  "ex_roots \<equiv> ex_gc\<lparr>gc_mem := ex_mem, gc_ref_count := 1, gc_refs := (\<lambda>_. (0, 0))(0 := (256, 264))\<rparr>"

lemma unmarked_slots_mark:
  assumes "k < GC_MINCHUNKS"
  shows "unmarked_slots (gc\<lparr>gc_mem := MARK_CHUNK (gc_mem gc) (CHUNK_AT gc k) 1\<rparr>) = unmarked_slots gc - {k}"
  unfolding unmarked_slots_def using MARKED_MARK_CHUNK_slot[OF assms] by auto

lemma marks_only_refl [simp]: "marks_only gc gc"
  unfolding marks_only_def by (metis collector.surjective collector.update_convs(1) order_refl)

lemma marks_only_trans:
  assumes "marks_only gc g" and "marks_only g r"
  shows "marks_only gc r"
proof -
  obtain m1 where g: "g = gc\<lparr>gc_mem := m1\<rparr>" using assms(1) by (auto simp: marks_only_def)
  obtain m2 where r: "r = g\<lparr>gc_mem := m2\<rparr>" using assms(2) by (auto simp: marks_only_def)
  have hdr: "hdr_byte g = hdr_byte gc" by (simp add: g hdr_byte_def fun_eq_iff)
  have "r = gc\<lparr>gc_mem := m2\<rparr>" by (simp add: r g)
  moreover have "gc_mem r a \<noteq> gc_mem gc a \<Longrightarrow> hdr_byte gc a" for a
    using assms unfolding marks_only_def hdr by metis
  moreover have "unmarked_slots r \<subseteq> unmarked_slots gc" using assms by (auto simp: marks_only_def)
  moreover have "CHUNK_SIZE (gc_mem r) (CHUNK_AT gc k) = CHUNK_SIZE (gc_mem gc) (CHUNK_AT gc k)"
    if "k < GC_MINCHUNKS" for k
    using assms that unfolding marks_only_def by (simp add: g)
  ultimately show ?thesis unfolding marks_only_def by blast
qed

lemma marks_only_mark:
  assumes "k < GC_MINCHUNKS"
  shows "marks_only gc (gc\<lparr>gc_mem := MARK_CHUNK (gc_mem gc) (CHUNK_AT gc k) 1\<rparr>)"
  unfolding marks_only_def
proof (intro conjI allI impI)
  show "hdr_byte gc a" if "gc_mem (gc\<lparr>gc_mem := MARK_CHUNK (gc_mem gc) (CHUNK_AT gc k) 1\<rparr>) a \<noteq> gc_mem gc a" for a
    using MARK_CHUNK_changes_header[of "gc_mem gc" "CHUNK_AT gc k" 1 a] that assms
    unfolding hdr_byte_def by auto
qed (auto simp: unmarked_slots_mark[OF assms] CHUNK_SIZE_MARK_CHUNK_slot[OF assms])

lemma mark_scan_marks_only:
  assumes "mark_scan gc chunk i = Some r"
  shows "marks_only gc r"
proof (rule mark_scan.raw_induct[where P = "\<lambda>gc chunk i r. marks_only gc r", OF _ assms])
  fix f :: "collector \<Rightarrow> addr \<Rightarrow> nat \<Rightarrow> collector option" and gc chunk i r
  assume IH: "\<And>gc chunk i r. f gc chunk i = Some r \<Longrightarrow> marks_only gc r"
    and eq: "(if i < PTR_INDEX (CHUNK_SIZE (gc_mem gc) chunk) then
        (let ptr = load_ptr (gc_mem gc) (BITS_AT chunk i) in
         if REF_PTR_MIN gc ptr then
           (let ref = MINOR_CHUNK gc ptr in
            if \<not> MARKED (gc_mem gc) ref
            then Option.bind (f (gc\<lparr>gc_mem := MARK_CHUNK (gc_mem gc) ref 1\<rparr>) ref 0)
                   (\<lambda>gc'. f gc' chunk (Suc i))
            else f gc chunk (Suc i))
         else f gc chunk (Suc i))
      else Some gc) = Some r"
  let ?ptr = "load_ptr (gc_mem gc) (BITS_AT chunk i)"
  show "marks_only gc r"
  proof (cases "i < PTR_INDEX (CHUNK_SIZE (gc_mem gc) chunk) \<and> REF_PTR_MIN gc ?ptr \<and> \<not> MARKED (gc_mem gc) (MINOR_CHUNK gc ?ptr)")
    case True
    then obtain k where k: "k < GC_MINCHUNKS" "MINOR_CHUNK gc ?ptr = CHUNK_AT gc k"
      using REF_PTR_MIN_slot by blast
    let ?g = "gc\<lparr>gc_mem := MARK_CHUNK (gc_mem gc) (CHUNK_AT gc k) 1\<rparr>"
    obtain g1 where g1: "f ?g (CHUNK_AT gc k) 0 = Some g1" and r: "f g1 chunk (Suc i) = Some r"
      using eq True k by (auto simp: Let_def bind_eq_Some_conv)
    have "marks_only gc g1" by (rule marks_only_trans[OF marks_only_mark[OF k(1)] IH[OF g1]])
    then show ?thesis using IH[OF r] by (rule marks_only_trans)
  next
    case False
    then have "r = gc \<or> f gc chunk (Suc i) = Some r" using eq by (auto simp: Let_def split: if_splits)
    then show ?thesis using IH by auto
  qed
qed

lemma lex_measure_less:
  assumes "a < c" and "j \<le> 2 ^ 29"
  shows "a * 2 ^ 30 + j < c * 2 ^ 30 + (l :: nat)"
  using mult_le_mono1[of "Suc a" c "2 ^ 30"] assms by simp

lemma finite_unmarked_slots: "finite (unmarked_slots gc)"
  by (rule finite_subset[of _ "{..<GC_MINCHUNKS}"]) (auto simp: unmarked_slots_def)

lemma marks_only_card:
  "marks_only gc r \<Longrightarrow> card (unmarked_slots r) \<le> card (unmarked_slots gc)"
  unfolding marks_only_def by (blast intro: card_mono finite_unmarked_slots)

lemma mark_scan_terminates: "\<exists>r. mark_scan gc chunk i = Some r"
proof (induction "card (unmarked_slots gc) * 2 ^ 30 + (2 ^ 29 - i)" arbitrary: gc chunk i rule: less_induct)
  case less
  let ?ptr = "load_ptr (gc_mem gc) (BITS_AT chunk i)"
  show ?case
  proof (cases "i < PTR_INDEX (CHUNK_SIZE (gc_mem gc) chunk)")
    case False
    then show ?thesis by (subst mark_scan.simps) simp
  next
    case True
    then have i: "i < 2 ^ 29" using PTR_INDEX_less less_trans by blast
    then have "2 ^ 29 - Suc i < 2 ^ 29 - i" by simp
    then have "card (unmarked_slots gc) * 2 ^ 30 + (2 ^ 29 - Suc i) < card (unmarked_slots gc) * 2 ^ 30 + (2 ^ 29 - i)"
      by (simp only: nat_add_left_cancel_less)
    then obtain r where step: "mark_scan gc chunk (Suc i) = Some r"
      using less(1) by blast
    show ?thesis
    proof (cases "REF_PTR_MIN gc ?ptr \<and> \<not> MARKED (gc_mem gc) (MINOR_CHUNK gc ?ptr)")
      case False
      then show ?thesis using True step by (subst mark_scan.simps) (auto simp: Let_def)
    next
      case mark: True
      then obtain k where k: "k < GC_MINCHUNKS" "MINOR_CHUNK gc ?ptr = CHUNK_AT gc k"
        using REF_PTR_MIN_slot by blast
      let ?g = "gc\<lparr>gc_mem := MARK_CHUNK (gc_mem gc) (CHUNK_AT gc k) 1\<rparr>"
      have "k \<in> unmarked_slots gc" using mark k by (simp add: unmarked_slots_def)
      then have c: "card (unmarked_slots ?g) < card (unmarked_slots gc)"
        unfolding unmarked_slots_mark[OF k(1)]
        by (rule card_Diff1_less[OF finite_unmarked_slots])
      then obtain g1 where g1: "mark_scan ?g (CHUNK_AT gc k) 0 = Some g1"
        using less(1)[of ?g 0 "CHUNK_AT gc k"] lex_measure_less by fastforce
      have "card (unmarked_slots g1) < card (unmarked_slots gc)"
        using marks_only_card[OF mark_scan_marks_only[OF g1]] c by simp
      then obtain r1 where "mark_scan g1 chunk (Suc i) = Some r1"
        using less(1)[of g1 "Suc i" chunk] lex_measure_less by fastforce
      then show ?thesis using True mark k g1 by (subst mark_scan.simps) (simp add: Let_def)
    qed
  qed
qed

lemma gc_mark_chunk_terminates: "\<exists>r. gc_mark_chunk gc chunk = Some r"
  unfolding gc_mark_chunk_def by (rule mark_scan_terminates)

lemma slot_word_not_hdr:
  assumes "c < GC_MINCHUNKS" and "i < 31" and "b < 8"
  shows "\<not> hdr_byte gc (BITS_AT (CHUNK_AT gc c) i + of_nat b)"
proof
  assume "hdr_byte gc (BITS_AT (CHUNK_AT gc c) i + of_nat b)"
  then obtain k b' where k: "k < GC_MINCHUNKS" "b' < 4"
    and eq: "BITS_AT (CHUNK_AT gc c) i + of_nat b = CHUNK_AT gc k + of_nat b'"
    by (auto simp: hdr_byte_def)
  have l: "BITS_AT (CHUNK_AT gc c) i + of_nat b = minor_heap gc + of_nat (c * 256 + 4 + i * 8 + b)"
    by (simp add: BITS_AT_def BITS_def CHUNK_AT_def gc_consts algebra_simps)
  have r: "CHUNK_AT gc k + of_nat b' = minor_heap gc + of_nat (k * 256 + b')"
    by (simp add: CHUNK_AT_def gc_consts algebra_simps)
  have "c * 256 + 4 + i * 8 + b < 2 ^ 64" "k * 256 + b' < 2 ^ 64"
    using assms k by (simp_all add: gc_consts)
  then have e: "c * 256 + (4 + i * 8 + b) = k * 256 + b'"
    using eq unfolding l r by (simp only: of_nat_addr_inj add.assoc)
  have "4 + i * 8 + b < 256" using assms by simp
  then have "(c * 256 + (4 + i * 8 + b)) mod 256 = 4 + i * 8 + b" by simp
  moreover have "(k * 256 + b') mod 256 = b'" using k by simp
  ultimately have "4 + i * 8 + b = b'" using e by simp
  then show False using k by simp
qed

lemma marks_only_load_ptr:
  assumes "marks_only gc r" and "\<And>b. b < 8 \<Longrightarrow> \<not> hdr_byte gc (a + of_nat b)"
  shows "load_ptr (gc_mem r) a = load_ptr (gc_mem gc) a"
proof -
  have "\<forall>x. gc_mem r x \<noteq> gc_mem gc x \<longrightarrow> hdr_byte gc x" using assms(1) by (simp add: marks_only_def)
  then have "load_bytes (gc_mem r) a 8 = load_bytes (gc_mem gc) a 8"
    using assms(2) by (intro load_bytes_cong) blast
  then show ?thesis by (simp add: load_ptr_def)
qed

lemma small_slot_index:
  assumes "small_slots gc" and "c < GC_MINCHUNKS" and "i < PTR_INDEX (CHUNK_SIZE (gc_mem gc) (CHUNK_AT gc c))"
  shows "i < 31"
proof -
  have "unat (CHUNK_SIZE (gc_mem gc) (CHUNK_AT gc c)) \<le> 252"
    using assms(1,2) by (simp add: small_slots_def list_all_iff)
  then show ?thesis using assms(3) by (simp add: PTR_INDEX_def)
qed

lemma marks_only_base:
  assumes "marks_only gc g"
  shows "CHUNK_AT g = CHUNK_AT gc" "points_to_slot g = points_to_slot gc" "hdr_byte g = hdr_byte gc"
proof -
  obtain m where g: "g = gc\<lparr>gc_mem := m\<rparr>" using assms by (auto simp: marks_only_def)
  show "CHUNK_AT g = CHUNK_AT gc" "points_to_slot g = points_to_slot gc" "hdr_byte g = hdr_byte gc"
    by (simp_all add: g fun_eq_iff points_to_slot_def hdr_byte_def)
qed

lemma marks_only_marked:
  assumes "marks_only gc g" and "j < GC_MINCHUNKS" and "MARKED (gc_mem gc) (CHUNK_AT gc j)"
  shows "MARKED (gc_mem g) (CHUNK_AT gc j)"
  using assms unfolding marks_only_def unmarked_slots_def by (auto simp: marks_only_base[OF assms(1)])

lemma marks_only_small_slots:
  assumes "marks_only gc g" and "small_slots gc"
  shows "small_slots g"
  using assms unfolding small_slots_def list_all_iff marks_only_def
  by (auto simp: marks_only_base[OF assms(1)])

lemma marks_only_word:
  assumes "marks_only gc g" and "small_slots gc" and "c < GC_MINCHUNKS"
    and "i < PTR_INDEX (CHUNK_SIZE (gc_mem gc) (CHUNK_AT gc c))"
  shows "load_ptr (gc_mem g) (BITS_AT (CHUNK_AT gc c) i) = load_ptr (gc_mem gc) (BITS_AT (CHUNK_AT gc c) i)"
  using small_slot_index[OF assms(2-4)] assms(3)
  by (intro marks_only_load_ptr[OF assms(1)] slot_word_not_hdr)

lemma marks_only_size:
  "marks_only gc g \<Longrightarrow> c < GC_MINCHUNKS \<Longrightarrow> CHUNK_SIZE (gc_mem g) (CHUNK_AT gc c) = CHUNK_SIZE (gc_mem gc) (CHUNK_AT gc c)"
  by (simp add: marks_only_def)

lemma marks_only_words_marked:
  assumes "marks_only gc g" and "small_slots gc" and "c < GC_MINCHUNKS"
  shows "words_marked g (CHUNK_AT gc c) i r = words_marked gc (CHUNK_AT gc c) i r"
  unfolding words_marked_def marks_only_base[OF assms(1)] marks_only_size[OF assms(1,3)]
  using marks_only_word[OF assms] by metis

lemma marks_only_minor_succ:
  assumes "marks_only gc g" and "small_slots gc"
  shows "minor_succ g = minor_succ gc"
proof (intro ext)
  fix k j
  show "minor_succ g k j = minor_succ gc k j"
  proof (cases "k < GC_MINCHUNKS")
    case True
    have "slot_words g k = slot_words gc k"
      unfolding slot_words_def marks_only_base[OF assms(1)] marks_only_size[OF assms(1) True]
      using marks_only_word[OF assms True] by simp
    then show ?thesis by (simp add: minor_succ_def marks_only_base[OF assms(1)])
  qed (simp add: minor_succ_def)
qed

lemma minor_succ_word:
  assumes "minor_succ gc k j"
  obtains i where "i < PTR_INDEX (CHUNK_SIZE (gc_mem gc) (CHUNK_AT gc k))"
    and "points_to_slot gc (load_ptr (gc_mem gc) (BITS_AT (CHUNK_AT gc k) i)) j"
  using assms by (auto simp: minor_succ_def slot_words_def list_ex_iff)

lemma new_marks_closed_refl [simp]: "new_marks_closed gc gc"
  by (auto simp: new_marks_closed_def)

lemma mark_scan_post:
  assumes "mark_scan gc chunk i = Some r"
  shows "marks_only gc r \<and> (small_slots gc \<longrightarrow>
           (\<forall>c<GC_MINCHUNKS. chunk = CHUNK_AT gc c \<longrightarrow> words_marked gc chunk i r) \<and> new_marks_closed gc r)"
proof (rule mark_scan.raw_induct[where P = "\<lambda>gc chunk i r. marks_only gc r \<and> (small_slots gc \<longrightarrow>
           (\<forall>c<GC_MINCHUNKS. chunk = CHUNK_AT gc c \<longrightarrow> words_marked gc chunk i r) \<and> new_marks_closed gc r)",
      OF _ assms])
  fix f :: "collector \<Rightarrow> addr \<Rightarrow> nat \<Rightarrow> collector option" and gc chunk i r
  assume IH: "\<And>gc chunk i r. f gc chunk i = Some r \<Longrightarrow> marks_only gc r \<and> (small_slots gc \<longrightarrow>
           (\<forall>c<GC_MINCHUNKS. chunk = CHUNK_AT gc c \<longrightarrow> words_marked gc chunk i r) \<and> new_marks_closed gc r)"
    and eq: "(if i < PTR_INDEX (CHUNK_SIZE (gc_mem gc) chunk) then
        (let ptr = load_ptr (gc_mem gc) (BITS_AT chunk i) in
         if REF_PTR_MIN gc ptr then
           (let ref = MINOR_CHUNK gc ptr in
            if \<not> MARKED (gc_mem gc) ref
            then Option.bind (f (gc\<lparr>gc_mem := MARK_CHUNK (gc_mem gc) ref 1\<rparr>) ref 0)
                   (\<lambda>gc'. f gc' chunk (Suc i))
            else f gc chunk (Suc i))
         else f gc chunk (Suc i))
      else Some gc) = Some r"
  let ?ptr = "load_ptr (gc_mem gc) (BITS_AT chunk i)"
  let ?n = "PTR_INDEX (CHUNK_SIZE (gc_mem gc) chunk)"
  show "marks_only gc r \<and> (small_slots gc \<longrightarrow>
           (\<forall>c<GC_MINCHUNKS. chunk = CHUNK_AT gc c \<longrightarrow> words_marked gc chunk i r) \<and> new_marks_closed gc r)"
  proof (cases "i < ?n")
    case False
    then have "r = gc" using eq by simp
    moreover have "words_marked gc chunk i gc" using False by (auto simp: words_marked_def)
    ultimately show ?thesis by auto
  next
    case inb: True
    show ?thesis
    proof (cases "REF_PTR_MIN gc ?ptr \<and> \<not> MARKED (gc_mem gc) (MINOR_CHUNK gc ?ptr)")
      case False
      then have fr: "f gc chunk (Suc i) = Some r" using eq inb by (cases "REF_PTR_MIN gc ?ptr") (simp_all add: Let_def)
      note ih = IH[OF fr]
      have "words_marked gc chunk i r" if "words_marked gc chunk (Suc i) r" "small_slots gc"
        unfolding words_marked_def
      proof (intro allI impI)
        fix i' j assume a: "i \<le> i' \<and> i' < ?n \<and> points_to_slot gc (load_ptr (gc_mem gc) (BITS_AT chunk i')) j"
        show "MARKED (gc_mem r) (CHUNK_AT gc j)"
        proof (cases "i' = i")
          case True
          then have p: "points_to_slot gc ?ptr j" using a by simp
          then have "MARKED (gc_mem gc) (CHUNK_AT gc j)" using False by (simp add: points_to_slot_def)
          moreover obtain k where "k < GC_MINCHUNKS" "CHUNK_AT gc j = CHUNK_AT gc k"
            using p REF_PTR_MIN_slot by (metis points_to_slot_def)
          ultimately show ?thesis using marks_only_marked[of gc r k] ih by metis
        next
          case False
          then have "Suc i \<le> i'" using a by simp
          then show ?thesis using a that(1) unfolding words_marked_def by blast
        qed
      qed
      then show ?thesis using ih by blast
    next
      case True
      then obtain k where k: "k < GC_MINCHUNKS" and ref: "MINOR_CHUNK gc ?ptr = CHUNK_AT gc k"
        using REF_PTR_MIN_slot by blast
      let ?g = "gc\<lparr>gc_mem := MARK_CHUNK (gc_mem gc) (CHUNK_AT gc k) 1\<rparr>"
      obtain g1 where g1: "f ?g (CHUNK_AT gc k) 0 = Some g1" and r: "f g1 chunk (Suc i) = Some r"
        using eq inb True ref by (auto simp: Let_def bind_eq_Some_conv)
      have m0: "marks_only gc ?g" by (rule marks_only_mark[OF k])
      note ih1 = IH[OF g1] and ih2 = IH[OF r]
      have m1: "marks_only gc g1" using marks_only_trans[OF m0] ih1 by blast
      have m2: "marks_only gc r" using marks_only_trans[OF m1] ih2 by blast
      have post: "(\<forall>c<GC_MINCHUNKS. chunk = CHUNK_AT gc c \<longrightarrow> words_marked gc chunk i r) \<and> new_marks_closed gc r"
        if sm: "small_slots gc"
      proof -
        have sm0: "small_slots ?g" and sm1: "small_slots g1"
          using marks_only_small_slots[OF m0 sm] marks_only_small_slots[OF m1 sm] by auto
        have "\<forall>c<GC_MINCHUNKS. CHUNK_AT gc k = CHUNK_AT ?g c \<longrightarrow> words_marked ?g (CHUNK_AT gc k) 0 g1"
          using ih1 sm0 by blast
        then have "words_marked ?g (CHUNK_AT gc k) 0 g1" using k by (metis base_mem_update(2))
        then have w1: "words_marked gc (CHUNK_AT gc k) 0 g1"
          using marks_only_words_marked[OF m0 sm k] by simp
        have s0: "minor_succ ?g = minor_succ gc" and s1: "minor_succ g1 = minor_succ gc"
          using marks_only_minor_succ[OF m0 sm] marks_only_minor_succ[OF m1 sm] by auto
        have c1: "new_marks_closed ?g g1" and c2: "new_marks_closed g1 r" using ih1 ih2 sm0 sm1 by auto
        have kr: "MARKED (gc_mem r) (CHUNK_AT gc k)"
          using marks_only_marked[OF marks_only_trans[OF ih1[THEN conjunct1] ih2[THEN conjunct1]] k]
          by (simp add: marks_only_base[OF m0] MARKED_MARK_CHUNK)
        have g1r: "MARKED (gc_mem r) (CHUNK_AT gc j)" if "j < GC_MINCHUNKS" "MARKED (gc_mem g1) (CHUNK_AT gc j)" for j
          using marks_only_marked[OF ih2[THEN conjunct1]] that by (simp add: marks_only_base[OF m1])
        have "words_marked gc chunk i r" if c: "c < GC_MINCHUNKS" "chunk = CHUNK_AT gc c" for c
          unfolding words_marked_def
        proof (intro allI impI)
          fix i' j assume a: "i \<le> i' \<and> i' < ?n \<and> points_to_slot gc (load_ptr (gc_mem gc) (BITS_AT chunk i')) j"
          show "MARKED (gc_mem r) (CHUNK_AT gc j)"
          proof (cases "i' = i")
            case True
            then show ?thesis using a kr ref by (simp add: points_to_slot_def)
          next
            case False
            have "words_marked g1 chunk (Suc i) r" using ih2 sm1 c by (auto simp: marks_only_base[OF m1])
            then have "words_marked gc chunk (Suc i) r"
              using marks_only_words_marked[OF m1 sm c(1)] c(2) by simp
            moreover have "Suc i \<le> i'" using a False by simp
            ultimately show ?thesis using a unfolding words_marked_def by blast
          qed
        qed
        moreover have "new_marks_closed gc r"
          unfolding new_marks_closed_def
        proof (intro allI impI)
          fix j j' assume a: "j < GC_MINCHUNKS \<and> MARKED (gc_mem r) (CHUNK_AT gc j) \<and>
              \<not> MARKED (gc_mem gc) (CHUNK_AT gc j) \<and> minor_succ gc j j'"
          show "MARKED (gc_mem r) (CHUNK_AT gc j')"
          proof (cases "MARKED (gc_mem g1) (CHUNK_AT gc j)")
            case True
            show ?thesis
            proof (cases "j = k")
              case True
              obtain i' where "i' < PTR_INDEX (CHUNK_SIZE (gc_mem gc) (CHUNK_AT gc k))"
                and "points_to_slot gc (load_ptr (gc_mem gc) (BITS_AT (CHUNK_AT gc k) i')) j'"
                using a True by (auto elim: minor_succ_word)
              then have "MARKED (gc_mem g1) (CHUNK_AT gc j')" using w1 unfolding words_marked_def by blast
              then show ?thesis using g1r a by (simp add: minor_succ_def)
            next
              case False
              then have "\<not> MARKED (gc_mem ?g) (CHUNK_AT gc j)"
                using a k MARKED_MARK_CHUNK_slot[OF k, of j "gc_mem gc" gc] by simp
              moreover have "minor_succ ?g j j'" using a s0 by simp
              ultimately have "MARKED (gc_mem g1) (CHUNK_AT gc j')"
                using c1 a \<open>MARKED (gc_mem g1) (CHUNK_AT gc j)\<close>
                unfolding new_marks_closed_def marks_only_base[OF m0] by blast
              then show ?thesis using g1r a by (simp add: minor_succ_def)
            qed
          next
            case False
            then show ?thesis using c2 a unfolding new_marks_closed_def marks_only_base[OF m1] s1 by blast
          qed
        qed
        ultimately show ?thesis by blast
      qed
      show ?thesis using m2 post by blast
    qed
  qed
qed

lemma new_marks_closed_trans:
  assumes "marks_only gc t" and "marks_only t r" and "small_slots gc"
    and "new_marks_closed gc t" and "new_marks_closed t r"
  shows "new_marks_closed gc r"
  unfolding new_marks_closed_def
proof (intro allI impI)
  fix j j' assume a: "j < GC_MINCHUNKS \<and> MARKED (gc_mem r) (CHUNK_AT gc j) \<and>
      \<not> MARKED (gc_mem gc) (CHUNK_AT gc j) \<and> minor_succ gc j j'"
  have s: "minor_succ t = minor_succ gc" by (rule marks_only_minor_succ[OF assms(1,3)])
  show "MARKED (gc_mem r) (CHUNK_AT gc j')"
  proof (cases "MARKED (gc_mem t) (CHUNK_AT gc j)")
    case True
    then have "MARKED (gc_mem t) (CHUNK_AT gc j')" using assms(4) a unfolding new_marks_closed_def by blast
    moreover have "j' < GC_MINCHUNKS" using a by (simp add: minor_succ_def)
    ultimately show ?thesis using marks_only_marked[OF assms(2)] unfolding marks_only_base[OF assms(1)] by blast
  next
    case False
    then show ?thesis using assms(5) a unfolding new_marks_closed_def marks_only_base[OF assms(1)] s by blast
  qed
qed

lemma gc_mark_chunk_post:
  assumes "gc_mark_chunk gc (CHUNK_AT gc c) = Some r" and "c < GC_MINCHUNKS" and "small_slots gc"
  shows "marks_only gc r \<and> MARKED (gc_mem r) (CHUNK_AT gc c) \<and> new_marks_closed gc r"
proof -
  let ?g = "gc\<lparr>gc_mem := MARK_CHUNK (gc_mem gc) (CHUNK_AT gc c) 1\<rparr>"
  have m0: "marks_only gc ?g" by (rule marks_only_mark[OF assms(2)])
  have sm0: "small_slots ?g" by (rule marks_only_small_slots[OF m0 assms(3)])
  have post: "marks_only ?g r \<and> (small_slots ?g \<longrightarrow>
           (\<forall>c'<GC_MINCHUNKS. CHUNK_AT gc c = CHUNK_AT ?g c' \<longrightarrow> words_marked ?g (CHUNK_AT gc c) 0 r)
           \<and> new_marks_closed ?g r)"
    using mark_scan_post assms(1) unfolding gc_mark_chunk_def by blast
  then have "words_marked ?g (CHUNK_AT gc c) 0 r" using sm0 assms(2) by (metis base_mem_update(2))
  then have w: "words_marked gc (CHUNK_AT gc c) 0 r" using marks_only_words_marked[OF m0 assms(3,2)] by simp
  have m: "marks_only gc r" using marks_only_trans[OF m0] post by blast
  have mc: "MARKED (gc_mem r) (CHUNK_AT gc c)"
    using marks_only_marked[of ?g r c] post assms(2) by (simp add: MARKED_MARK_CHUNK)
  have s0: "minor_succ ?g = minor_succ gc" by (rule marks_only_minor_succ[OF m0 assms(3)])
  have "new_marks_closed gc r"
    unfolding new_marks_closed_def
  proof (intro allI impI)
    fix j j' assume a: "j < GC_MINCHUNKS \<and> MARKED (gc_mem r) (CHUNK_AT gc j) \<and>
        \<not> MARKED (gc_mem gc) (CHUNK_AT gc j) \<and> minor_succ gc j j'"
    show "MARKED (gc_mem r) (CHUNK_AT gc j')"
    proof (cases "j = c")
      case True
      then obtain i' where "i' < PTR_INDEX (CHUNK_SIZE (gc_mem gc) (CHUNK_AT gc c))"
        and "points_to_slot gc (load_ptr (gc_mem gc) (BITS_AT (CHUNK_AT gc c) i')) j'"
        using a by (auto elim: minor_succ_word)
      then show ?thesis using w unfolding words_marked_def by blast
    next
      case False
      then have "\<not> MARKED (gc_mem ?g) (CHUNK_AT gc j)"
        using a MARKED_MARK_CHUNK_slot[OF assms(2), of j "gc_mem gc" gc] by simp
      moreover have "minor_succ ?g j j'" using a s0 by simp
      moreover have cl: "new_marks_closed ?g r" using post sm0 by blast
      ultimately show ?thesis using a unfolding new_marks_closed_def marks_only_base[OF m0] by blast
    qed
  qed
  then show ?thesis using m mc by blast
qed

lemma mark_root_post:
  assumes "mark_root w t = Some (Inr t1)" and "marks_only g0 t" and "small_slots g0"
    and "new_marks_closed g0 t" and "\<And>b. b < 8 \<Longrightarrow> \<not> hdr_byte g0 (w + of_nat b)"
  shows "marks_only t t1 \<and> new_marks_closed g0 t1
    \<and> (\<forall>j. points_to_slot g0 (load_ptr (gc_mem g0) w) j \<longrightarrow> MARKED (gc_mem t1) (CHUNK_AT g0 j))"
proof -
  let ?ptr = "load_ptr (gc_mem g0) w"
  have p: "load_ptr (gc_mem t) w = ?ptr" by (rule marks_only_load_ptr[OF assms(2,5)])
  have b: "CHUNK_AT t = CHUNK_AT g0" "points_to_slot t = points_to_slot g0"
    using marks_only_base[OF assms(2)] by auto
  then have rp: "REF_PTR_MIN t = REF_PTR_MIN g0" and mc: "MINOR_CHUNK t = MINOR_CHUNK g0"
    using assms(2) by (auto simp: marks_only_def)
  have st: "small_slots t" by (rule marks_only_small_slots[OF assms(2,3)])
  show ?thesis
  proof (cases "REF_PTR_MIN g0 ?ptr")
    case True
    then obtain k where k: "k < GC_MINCHUNKS" "MINOR_CHUNK g0 ?ptr = CHUNK_AT g0 k"
      using REF_PTR_MIN_slot by blast
    have "gc_mark_chunk t (CHUNK_AT t k) = Some t1"
      using assms(1) True k by (auto simp: mark_root_def Let_def p rp mc b)
    note post = gc_mark_chunk_post[OF this k(1) st]
    have m: "marks_only t t1" using post by blast
    have "new_marks_closed g0 t1"
      using new_marks_closed_trans[OF assms(2) _ assms(3,4)] post by blast
    moreover have "MARKED (gc_mem t1) (CHUNK_AT g0 j)" if "points_to_slot g0 ?ptr j" for j
      using that post k b by (simp add: points_to_slot_def)
    ultimately show ?thesis using m by blast
  next
    case False
    then have "t1 = t" using assms(1) by (simp add: mark_root_def Let_def p rp)
    then show ?thesis using assms False by (simp add: points_to_slot_def)
  qed
qed

lemma mark_root_total: "\<exists>t1. mark_root w t = Some (Inr t1)"
  using gc_mark_chunk_terminates[of t] by (auto simp: mark_root_def Let_def)

lemma mark_roots_post:
  assumes "res_fold mark_root ws t = Some (Inr t')" and "marks_only g0 t" and "small_slots g0"
    and "new_marks_closed g0 t" and "\<forall>w\<in>set ws. \<forall>b<8. \<not> hdr_byte g0 (w + of_nat b)"
  shows "marks_only t t' \<and> new_marks_closed g0 t'
    \<and> (\<forall>w\<in>set ws. \<forall>j. points_to_slot g0 (load_ptr (gc_mem g0) w) j \<longrightarrow> MARKED (gc_mem t') (CHUNK_AT g0 j))"
  using assms(1,2,4,5)
proof (induction ws arbitrary: t)
  case Nil
  then show ?case by simp
next
  case (Cons w ws)
  obtain t1 where t1: "mark_root w t = Some (Inr t1)" using mark_root_total by blast
  then have rest: "res_fold mark_root ws t1 = Some (Inr t')" using Cons.prems(1) by simp
  have p1: "marks_only t t1 \<and> new_marks_closed g0 t1
    \<and> (\<forall>j. points_to_slot g0 (load_ptr (gc_mem g0) w) j \<longrightarrow> MARKED (gc_mem t1) (CHUNK_AT g0 j))"
    using mark_root_post[OF t1 Cons.prems(2) assms(3) Cons.prems(3)] Cons.prems(4) by simp
  have m1: "marks_only g0 t1" using marks_only_trans[OF Cons.prems(2)] p1 by blast
  have ih: "marks_only t1 t' \<and> new_marks_closed g0 t'
    \<and> (\<forall>w\<in>set ws. \<forall>j. points_to_slot g0 (load_ptr (gc_mem g0) w) j \<longrightarrow> MARKED (gc_mem t') (CHUNK_AT g0 j))"
    using Cons.IH[OF rest m1] p1 Cons.prems(4) by simp
  have "MARKED (gc_mem t') (CHUNK_AT g0 j)" if "points_to_slot g0 (load_ptr (gc_mem g0) w) j" for j
  proof -
    have "MARKED (gc_mem t1) (CHUNK_AT g0 j)" and j: "j < GC_MINCHUNKS"
      using p1 that by (simp_all add: points_to_slot_def)
    then show ?thesis using marks_only_marked[of t1 t' j] ih marks_only_base[OF m1] by simp
  qed
  then show ?case using ih p1 marks_only_trans by auto
qed

lemma base_backpatch_update [simp]:
  "CHUNK_AT (gc\<lparr>gc_backpatch := bp\<rparr>) = CHUNK_AT gc"
  "root_words (gc\<lparr>gc_backpatch := bp\<rparr>) = root_words gc"
  "hdr_byte (gc\<lparr>gc_backpatch := bp\<rparr>) = hdr_byte gc"
  "points_to_slot (gc\<lparr>gc_backpatch := bp\<rparr>) = points_to_slot gc"
  "small_slots (gc\<lparr>gc_backpatch := bp\<rparr>) = small_slots gc"
  by (simp_all add: fun_eq_iff CHUNK_AT_def minor_heap_def root_words_def hdr_byte_def points_to_slot_def
      REF_PTR_MIN_def POINTS_MINOR_def MINOR_CHUNK_def small_slots_def)

lemma minor_succ_backpatch_update [simp]:
  "minor_succ (gc\<lparr>gc_backpatch := bp\<rparr>) = minor_succ gc"
  by (simp add: fun_eq_iff minor_succ_def slot_words_def)

lemma mark_root_marks_only:
  assumes "mark_root w t = Some (Inr t1)"
  shows "marks_only t t1"
proof (cases "REF_PTR_MIN t (load_ptr (gc_mem t) w)")
  case True
  then obtain k where k: "k < GC_MINCHUNKS" "MINOR_CHUNK t (load_ptr (gc_mem t) w) = CHUNK_AT t k"
    using REF_PTR_MIN_slot by blast
  then have "mark_scan (t\<lparr>gc_mem := MARK_CHUNK (gc_mem t) (CHUNK_AT t k) 1\<rparr>) (CHUNK_AT t k) 0 = Some t1"
    using assms True by (simp add: mark_root_def gc_mark_chunk_def)
  then show ?thesis by (rule marks_only_trans[OF marks_only_mark[OF k(1)] mark_scan_marks_only])
next
  case False
  then show ?thesis using assms by (simp add: mark_root_def)
qed

lemma mark_minor_total: "\<exists>g. mark_minor gc = Some (Inr g)"
proof -
  have "\<exists>g. res_fold mark_root ws s = Some (Inr g) \<and> True" for ws s
    by (rule res_fold_total) (simp_all add: mark_root_total)
  then show ?thesis unfolding mark_minor_def for_each_root_eq by blast
qed

text \<open>
  Claim C2 (termination): \<open>mark_minor\<close> always returns, without an error,
  whatever the memory and the root table hold; it clears the backpatch table
  and otherwise changes only the mark bits of nursery slot headers.
\<close>

theorem mark_minor_returns:
  "\<exists>g. mark_minor gc = Some (Inr g) \<and> marks_only (gc\<lparr>gc_backpatch := (\<lambda>_. 0)\<rparr>) g"
proof -
  obtain g where g: "mark_minor gc = Some (Inr g)" using mark_minor_total by blast
  then have "res_fold mark_root (root_words gc) (gc\<lparr>gc_backpatch := (\<lambda>_. 0)\<rparr>) = Some (Inr g)"
    by (simp add: mark_minor_def for_each_root_eq)
  then have "marks_only (gc\<lparr>gc_backpatch := (\<lambda>_. 0)\<rparr>) g"
    by (rule res_fold_invariant) (auto intro: marks_only_trans mark_root_marks_only)
  then show ?thesis using g by blast
qed

text \<open>
  Claim C1 (safety): marking is complete. On a nursery with no stale marks,
  every slot of at most 252 bytes and root words outside the slot headers,
  every slot reachable from a root word through pointers in slot payloads is
  marked when \<open>mark_minor\<close> returns.
\<close>

theorem mark_minor_marks_reachable:
  assumes "mark_minor gc = Some (Inr g)" and "small_slots gc" and "roots_clear gc"
    and "\<forall>k<GC_MINCHUNKS. \<not> MARKED (gc_mem gc) (CHUNK_AT gc k)"
    and "root_slot gc j0" and "(minor_succ gc)\<^sup>*\<^sup>* j0 j"
  shows "MARKED (gc_mem g) (CHUNK_AT gc j)"
proof -
  let ?g0 = "gc\<lparr>gc_backpatch := (\<lambda>_. 0)\<rparr>"
  have "res_fold mark_root (root_words ?g0) ?g0 = Some (Inr g)"
    using assms(1) by (simp add: mark_minor_def for_each_root_eq)
  then have post: "marks_only ?g0 g \<and> new_marks_closed ?g0 g
    \<and> (\<forall>w\<in>set (root_words gc). \<forall>j. points_to_slot gc (load_ptr (gc_mem gc) w) j \<longrightarrow> MARKED (gc_mem g) (CHUNK_AT gc j))"
    using mark_roots_post[of "root_words ?g0" ?g0 g ?g0] assms(2,3) by (simp add: roots_clear_def)
  have j0: "MARKED (gc_mem g) (CHUNK_AT gc j0)"
    using assms(5) post by (auto simp: root_slot_def list_ex_iff)
  from assms(6) show ?thesis
  proof (induction rule: rtranclp_induct)
    case base
    then show ?case by (rule j0)
  next
    case (step j j')
    have "j < GC_MINCHUNKS" using step(2) by (simp add: minor_succ_def)
    moreover have "\<not> MARKED (gc_mem gc) (CHUNK_AT gc j)" using assms(4) calculation by blast
    ultimately show ?case using post step(2,3) unfolding new_marks_closed_def by simp
  qed
qed

subsection \<open>Witnesses\<close>

lemma ex_roots_chunk: "CHUNK_AT ex_roots k = 0 + of_nat (65536 + k * 256)"
  by (simp add: CHUNK_AT_def minor_heap_def gc_new_def gc_consts)

lemma ex_hdr_other:
  assumes "2 \<le> k" and "k < GC_MINCHUNKS"
  shows "load_u32 ex_mem (CHUNK_AT ex_roots k) = 0"
proof -
  have k: "k * 256 < 65536" using assms(2) by simp
  have s1: "separate 65792 4 (CHUNK_AT ex_roots k) 4"
    using separate_offsets[of 65792 4 "65536 + k * 256" 4 0] assms k unfolding ex_roots_chunk by simp
  have s2: "separate 65540 8 (CHUNK_AT ex_roots k) 4"
    using separate_offsets[of 65540 8 "65536 + k * 256" 4 0] assms k unfolding ex_roots_chunk by simp
  have s3: "separate 65536 4 (CHUNK_AT ex_roots k) 4"
    using separate_offsets[of 65536 4 "65536 + k * 256" 4 0] assms k unfolding ex_roots_chunk by simp
  have s4: "separate 256 8 (CHUNK_AT ex_roots k) 4"
    using separate_offsets[of 256 8 "65536 + k * 256" 4 0] assms k unfolding ex_roots_chunk by simp
  show ?thesis
    by (simp add: load_u32_store_u32_separate[OF s1] load_u32_store_ptr_separate[OF s2]
        load_u32_store_u32_separate[OF s3] load_u32_store_ptr_separate[OF s4])
qed

lemma ex_loads:
  "load_u32 ex_mem 65536 = 20" "load_u32 ex_mem 65792 = 20" "load_ptr ex_mem 65540 = 65796"
  "load_ptr ex_mem 65548 = 0" "load_ptr ex_mem 256 = 65540"
proof -
  have s: "separate 65792 4 65536 4" "separate 65540 8 65536 4" "separate 65792 4 65540 8"
    "separate 65792 4 65548 8" "separate 65540 8 65548 8" "separate 65536 4 65548 8" "separate 256 8 65548 8"
    "separate 65792 4 256 8" "separate 65540 8 256 8" "separate 65536 4 256 8"
    using separate_nat[of 65792 4 65536 4] separate_nat[of 65540 8 65536 4] separate_nat[of 65792 4 65540 8]
      separate_nat[of 65792 4 65548 8] separate_nat[of 65540 8 65548 8] separate_nat[of 65536 4 65548 8]
      separate_nat[of 256 8 65548 8] separate_nat[of 65792 4 256 8] separate_nat[of 65540 8 256 8]
      separate_nat[of 65536 4 256 8]
    by simp_all
  show "load_u32 ex_mem 65536 = 20" "load_u32 ex_mem 65792 = 20" "load_ptr ex_mem 65540 = 65796"
    "load_ptr ex_mem 65548 = 0" "load_ptr ex_mem 256 = 65540"
    by (simp_all add: s mem_simps)
qed

lemma ex_hdr_small:
  assumes "k < GC_MINCHUNKS"
  shows "unat (CHUNK_SIZE ex_mem (CHUNK_AT ex_roots k)) \<le> 252 \<and> \<not> MARKED ex_mem (CHUNK_AT ex_roots k)"
proof -
  have "k = 0 \<or> k = 1 \<or> 2 \<le> k" by linarith
  moreover have "CHUNK_AT ex_roots 0 = 65536" "CHUNK_AT ex_roots 1 = 65792" by (simp_all add: ex_roots_chunk)
  ultimately show ?thesis using ex_hdr_other[OF _ assms] ex_loads
    by (auto simp: CHUNK_SIZE_def MARKED_def FLAGS_def)
qed

lemma ex_root_words: "root_words ex_roots = [256]"
  by (simp add: root_words_def ref_range_def)

lemma ex_roots_clear: "roots_clear ex_roots"
  unfolding roots_clear_def ex_root_words
proof (intro ballI allI impI notI)
  fix w :: addr and b :: nat assume w: "w \<in> set [256]" and b: "b < 8" and h: "hdr_byte ex_roots (w + of_nat b)"
  then obtain k b' where k: "k < GC_MINCHUNKS" "b' < 4"
    and eq: "0 + of_nat (256 + b) = (0 :: addr) + of_nat (65536 + k * 256 + b')"
    by (auto simp: hdr_byte_def ex_roots_chunk)
  have "256 + b = 65536 + k * 256 + b'"
    using eq b k by (subst (asm) of_nat_addr_inj) simp_all
  then show False using b by simp
qed

lemma ex_points_to:
  "points_to_slot ex_roots 65540 0" "points_to_slot ex_roots 65796 1"
  by (simp_all add: points_to_slot_def REF_PTR_MIN_def MEM_TAG_def POINTS_MINOR_def MINOR_CHUNK_def
      CHUNK_AT_def minor_heap_def gc_new_def gc_consts signed_divide_int_def)

theorem mark_minor_marks_reachable_witness:
  "\<exists>g. mark_minor ex_roots = Some (Inr g) \<and> MARKED (gc_mem g) (CHUNK_AT ex_roots 1)"
proof -
  obtain g where g: "mark_minor ex_roots = Some (Inr g)" using mark_minor_total by blast
  have sm: "small_slots ex_roots" using ex_hdr_small by (simp add: small_slots_def list_all_iff)
  have um: "\<forall>k<GC_MINCHUNKS. \<not> MARKED (gc_mem ex_roots) (CHUNK_AT ex_roots k)" using ex_hdr_small by simp
  have r: "root_slot ex_roots 0" using ex_points_to ex_loads by (simp add: root_slot_def ex_root_words)
  have "slot_words ex_roots 0 = [65796, 0]"
    using ex_loads by (simp add: slot_words_def ex_roots_chunk CHUNK_SIZE_def FLAGS_def PTR_INDEX_def
        BITS_AT_def BITS_def upt_rec)
  then have "minor_succ ex_roots 0 1" using ex_points_to by (simp add: minor_succ_def)
  then have "MARKED (gc_mem g) (CHUNK_AT ex_roots 1)"
    using mark_minor_marks_reachable[OF g sm ex_roots_clear um r] by blast
  then show ?thesis using g by blast
qed

theorem mark_minor_returns_witness:
  "\<exists>g. mark_minor ex_roots = Some (Inr g) \<and> marks_only (ex_roots\<lparr>gc_backpatch := (\<lambda>_. 0)\<rparr>) g"
  by (rule mark_minor_returns)

end
