(* ===== verification/Minor_Copy.thy ===== *)
theory Minor_Copy
  imports Minor_GC
begin

text \<open>
  The pointer-rewriting passes of the minor collection (\<open>backpatch_refs\<close>,
  \<open>gc.c\<close> lines 228--247, and \<open>backpatch_chunk\<close>, lines 213--226,
  modelled in \<open>Minor_GC\<close>): neither pass can fail, since every nursery
  pointer selects a slot whose index is inside \<open>gc_backpatch\<close>, and each
  changes only memory; a root into a promoted slot is moved to the same offset
  in the slot's copy. The promotion loop of \<open>copy_minor_heap\<close>
  (lines 252--256): without roots it still promotes every allocated slot into
  the old generation's first chunk.
\<close>

lemma backpatch_root_total:
  "\<exists>m. backpatch_root ref gc = Some (Inr (gc\<lparr>gc_mem := m\<rparr>))"
  using backpatch_get_minor[of gc "load_ptr (gc_mem gc) ref"]
  by (auto simp: backpatch_root_def Let_def)

lemma backpatch_chunk_loop_total:
  "\<exists>m. backpatch_chunk_loop gc chunk i = Some (Inr (gc\<lparr>gc_mem := m\<rparr>))"
proof (induction gc chunk i rule: backpatch_chunk_loop.induct)
  case (1 gc chunk i)
  let ?ptr = "load_ptr (gc_mem gc) (BITS_AT chunk i)"
  have ih: "\<exists>m. backpatch_chunk_loop gc chunk (Suc i) = Some (Inr (gc\<lparr>gc_mem := m\<rparr>))"
    if "i < PTR_INDEX (CHUNK_SIZE (gc_mem gc) chunk)"
      "\<not> (REF_PTR_MIN gc ?ptr \<and> MARKED (gc_mem gc) (MINOR_CHUNK gc ?ptr))"
    using 1(2,3) that by (cases "REF_PTR_MIN gc ?ptr") auto
  have ih2: "\<exists>m. backpatch_chunk_loop (gc\<lparr>gc_mem := store_ptr (gc_mem gc) (BITS_AT chunk i)
        (?ptr + (v - MINOR_CHUNK gc ?ptr))\<rparr>) chunk (Suc i) = Some (Inr (gc\<lparr>gc_mem := m\<rparr>))"
    if "i < PTR_INDEX (CHUNK_SIZE (gc_mem gc) chunk)" "REF_PTR_MIN gc ?ptr" "MARKED (gc_mem gc) (MINOR_CHUNK gc ?ptr)"
      "backpatch_get gc (CHUNK_OFFSET gc (MINOR_CHUNK gc ?ptr)) = Inr v" for v
    using 1(1)[OF that(1) refl that(2) refl that(3,4)] by simp
  show ?case
  proof (cases "i < PTR_INDEX (CHUNK_SIZE (gc_mem gc) chunk) \<and> REF_PTR_MIN gc ?ptr \<and> MARKED (gc_mem gc) (MINOR_CHUNK gc ?ptr)")
    case True
    then obtain v where "backpatch_get gc (CHUNK_OFFSET gc (MINOR_CHUNK gc ?ptr)) = Inr v"
      using backpatch_get_minor[of gc ?ptr] by (auto simp: REF_PTR_MIN_def)
    then show ?thesis using True ih2 by (subst backpatch_chunk_loop.simps) (simp add: Let_def)
  next
    case False
    then show ?thesis using ih by (subst backpatch_chunk_loop.simps) (auto simp: Let_def)
  qed
qed

text \<open>
  Claim C21 (error): the two backpatch passes never fail. Whatever memory,
  roots and table hold, \<open>backpatch_refs\<close> and \<open>backpatch_chunk\<close> return
  without an error value and change nothing but the collector's memory: the
  index \<open>CHUNK_OFFSET\<close> of a slot a nursery pointer selects is always inside
  \<open>gc_backpatch\<close>.
\<close>

theorem backpatch_never_fails:
  "(\<exists>m. backpatch_refs gc = Some (Inr (gc\<lparr>gc_mem := m\<rparr>)))
   \<and> (\<exists>m. backpatch_chunk gc chunk = Some (Inr (gc\<lparr>gc_mem := m\<rparr>)))"
proof
  have "\<exists>g. res_fold backpatch_root ws gc = Some (Inr g) \<and> (\<exists>m. g = gc\<lparr>gc_mem := m\<rparr>)" for ws
  proof (rule res_fold_total)
    fix w t assume "\<exists>m. t = gc\<lparr>gc_mem := m\<rparr>"
    then obtain m where t: "t = gc\<lparr>gc_mem := m\<rparr>" by blast
    obtain m' where "backpatch_root w t = Some (Inr (t\<lparr>gc_mem := m'\<rparr>))"
      using backpatch_root_total by blast
    then show "\<exists>t'. backpatch_root w t = Some (Inr t') \<and> (\<exists>m. t' = gc\<lparr>gc_mem := m\<rparr>)"
      using t by simp
  qed simp
  then show "\<exists>m. backpatch_refs gc = Some (Inr (gc\<lparr>gc_mem := m\<rparr>))"
    unfolding backpatch_refs_def for_each_root_eq by blast
  show "\<exists>m. backpatch_chunk gc chunk = Some (Inr (gc\<lparr>gc_mem := m\<rparr>))"
    unfolding backpatch_chunk_def by (rule backpatch_chunk_loop_total)
qed

text \<open>
  Claim C22 (functional): \<open>backpatch_root\<close> on a root word that points into a
  marked nursery slot \<open>k\<close> whose copy is not \<open>NULL\<close> rewrites the word to
  the same offset inside the copy, \<open>gc_backpatch[k] + (ptr - slot)\<close>, and
  changes nothing else.
\<close>

theorem backpatch_root_moves:
  assumes "POINTS_MINOR gc (load_ptr (gc_mem gc) ref)"
    and "MINOR_CHUNK gc (load_ptr (gc_mem gc) ref) = CHUNK_AT gc k" and "k < GC_MINCHUNKS"
    and "MARKED (gc_mem gc) (CHUNK_AT gc k)" and "gc_backpatch gc k \<noteq> 0"
  shows "backpatch_root ref gc = Some (Inr (gc\<lparr>gc_mem := store_ptr (gc_mem gc) ref
      (gc_backpatch gc k + (load_ptr (gc_mem gc) ref - CHUNK_AT gc k))\<rparr>))"
  using assms by (simp add: backpatch_root_def backpatch_get_def CHUNK_OFFSET_CHUNK_AT Let_def algebra_simps)

subsection \<open>Promotion of dead slots\<close>

text \<open>The memory after one promotion into the first chunk, seen from the
  first header and from the slot headers.\<close>

lemma first_chunk_write:
  fixes m :: mem and gc :: collector and sz :: u32
  assumes "4 \<le> unat sz" and "unat sz < 2 ^ 31"
  defines "a \<equiv> major_heap gc"
  defines "m' \<equiv> store_u32 (MARK_CHUNK (store_u32 m a (CHUNK_SIZE m a)) a (color_val GC_WHITE))
      (a + scast sz) (CHUNK_SIZE m a - sz)"
  shows "CHUNK_FLAGS m' a = color_val GC_WHITE" and "CHUNK_SIZE m' a = CHUNK_SIZE m a"
    and "j < GC_MINCHUNKS \<Longrightarrow> load_u32 m' (CHUNK_AT gc j) = load_u32 m (CHUNK_AT gc j)"
proof -
  have sc: "(scast sz :: addr) = of_nat (unat sz)" using assms(2) by (rule scast_u32_small)
  have a: "a = gc_base gc + of_nat 65536" by (simp add: a_def major_heap_def gc_consts)
  have sep: "separate (a + scast sz) 4 a 4"
    unfolding a sc using assms(1,2) by (simp only: add.assoc of_nat_add[symmetric]) (intro separate_offsets; simp)
  have "CHUNK_FLAGS m' a = CHUNK_FLAGS (MARK_CHUNK (store_u32 m a (CHUNK_SIZE m a)) a (color_val GC_WHITE)) a"
    using sep by (simp add: m'_def CHUNK_FLAGS_def FLAGS_def load_u32_store_u32_separate)
  then show "CHUNK_FLAGS m' a = color_val GC_WHITE" by simp
  have "CHUNK_SIZE m' a = CHUNK_SIZE (MARK_CHUNK (store_u32 m a (CHUNK_SIZE m a)) a (color_val GC_WHITE)) a"
    using sep by (simp add: m'_def CHUNK_SIZE_def FLAGS_def load_u32_store_u32_separate)
  also have "\<dots> = CHUNK_SIZE m a"
    by (simp add: CHUNK_SIZE_MARK_CHUNK color_val_le_3) (simp add: CHUNK_SIZE_def FLAGS_def)
  finally show "CHUNK_SIZE m' a = CHUNK_SIZE m a" .
  assume j: "j < GC_MINCHUNKS"
  have c: "CHUNK_AT gc j = gc_base gc + of_nat (j * 256)" by (simp add: CHUNK_AT_def minor_heap_def gc_consts)
  have s1: "separate (a + scast sz) 4 (CHUNK_AT gc j) 4"
    unfolding a sc c using assms(2) j by (simp only: add.assoc of_nat_add[symmetric]) (intro separate_offsets; simp add: gc_consts)
  have s2: "separate a 4 (CHUNK_AT gc j) 4"
    unfolding a c using j by (intro separate_offsets) (simp_all add: gc_consts)
  show "load_u32 m' (CHUNK_AT gc j) = load_u32 m (CHUNK_AT gc j)"
    using s1 s2 by (simp add: m'_def MARK_CHUNK_def load_u32_store_u32_separate)
qed

lemma promote_first_chunk:
  assumes "layout_ok gc" and "i < GC_MINCHUNKS" and "unat (CHUNK_SIZE (gc_mem gc) (CHUNK_AT gc i)) \<le> 256"
    and "CHUNK_FLAGS (gc_mem gc) (major_heap gc) \<noteq> color_val GC_FREE \<or> unat (CHUNK_SIZE (gc_mem gc) (major_heap gc)) < 8"
  shows "\<exists>m. promote_slot i gc = Some (Inr (gc\<lparr>gc_mem := m, gc_backpatch := (gc_backpatch gc)(i := major_heap gc)\<rparr>))
    \<and> CHUNK_FLAGS m (major_heap gc) = color_val GC_WHITE
    \<and> CHUNK_SIZE m (major_heap gc) = CHUNK_SIZE (gc_mem gc) (major_heap gc)
    \<and> (\<forall>j < GC_MINCHUNKS. load_u32 m (CHUNK_AT gc j) = load_u32 (gc_mem gc) (CHUNK_AT gc j))"
proof -
  let ?s = "CHUNK_SIZE (gc_mem gc) (CHUNK_AT gc i)"
  let ?n = "WITH_HEADER ?s"
  let ?sz = "WITH_HEADER (ALIGN ?n)"
  have un: "unat ?n = unat ?s + 4" using assms(3) by (simp add: WITH_HEADER_def unat_word_ariths)
  then have n0: "?n \<noteq> 0" by (metis add_is_0 unat_0 zero_neq_numeral)
  have "unat ?sz = (unat ?n + 3) div 4 * 4 + 4" using un assms(3) by (intro unat_WITH_HEADER_ALIGN) simp
  then have b: "8 \<le> unat ?sz" "unat ?sz < 2 ^ 31" using un assms(3) by simp_all
  have nf: "\<not> fits (gc_mem gc) ?sz (major_heap gc)" using assms(4) b(1) by (auto simp: fits_def word_le_nat_alt)
  have wh: "WITHOUT_HEADER_ptr (major_heap gc + 4) = major_heap gc" by (simp add: WITHOUT_HEADER_ptr_def)
  have bp: "backpatch_set g (int i) v = Inr (g\<lparr>gc_backpatch := (gc_backpatch g)(i := v)\<rparr>)" for g :: collector and v
    using assms(2) by (simp add: backpatch_set_def)
  note w = first_chunk_write[where m = "gc_mem gc" and gc = gc and sz = ?sz]
  define m where "m = store_u32 (MARK_CHUNK (store_u32 (gc_mem gc) (major_heap gc) (CHUNK_SIZE (gc_mem gc) (major_heap gc)))
      (major_heap gc) (color_val GC_WHITE)) (major_heap gc + scast ?sz) (CHUNK_SIZE (gc_mem gc) (major_heap gc) - ?sz)"
  have "promote_slot i gc = Some (Inr (gc\<lparr>gc_mem := m, gc_backpatch := (gc_backpatch gc)(i := major_heap gc)\<rparr>))"
    using gc_major_alloc_first_unfit[OF assms(1) n0 nf] by (simp add: promote_slot_def wh bp m_def)
  moreover have "CHUNK_FLAGS m (major_heap gc) = color_val GC_WHITE"
    and "CHUNK_SIZE m (major_heap gc) = CHUNK_SIZE (gc_mem gc) (major_heap gc)"
    and "\<forall>j < GC_MINCHUNKS. load_u32 m (CHUNK_AT gc j) = load_u32 (gc_mem gc) (CHUNK_AT gc j)"
    using w b unfolding m_def by simp_all
  ultimately show ?thesis by blast
qed

lemma promote_loop_first_chunk:
  assumes "layout_ok gc" and "\<forall>i\<in>set xs. i < GC_MINCHUNKS \<and> unat (CHUNK_SIZE (gc_mem gc) (CHUNK_AT gc i)) \<le> 256"
    and "CHUNK_FLAGS (gc_mem gc) (major_heap gc) \<noteq> color_val GC_FREE \<or> unat (CHUNK_SIZE (gc_mem gc) (major_heap gc)) < 8"
  shows "\<exists>m. res_fold promote_slot xs gc = Some (Inr (gc\<lparr>gc_mem := m,
      gc_backpatch := \<lambda>j. if j \<in> set xs then major_heap gc else gc_backpatch gc j\<rparr>))
    \<and> CHUNK_FLAGS m (major_heap gc) = (if xs = [] then CHUNK_FLAGS (gc_mem gc) (major_heap gc) else color_val GC_WHITE)"
  using assms
proof (induction xs arbitrary: gc)
  case Nil
  then show ?case by (intro exI[of _ "gc_mem gc"]) simp
next
  case (Cons x xs)
  obtain m1 where p: "promote_slot x gc = Some (Inr (gc\<lparr>gc_mem := m1, gc_backpatch := (gc_backpatch gc)(x := major_heap gc)\<rparr>))"
    and f: "CHUNK_FLAGS m1 (major_heap gc) = color_val GC_WHITE"
    and s: "\<forall>j<GC_MINCHUNKS. load_u32 m1 (CHUNK_AT gc j) = load_u32 (gc_mem gc) (CHUNK_AT gc j)"
    using promote_first_chunk[OF Cons.prems(1) _ _ Cons.prems(3), of x] Cons.prems(2) by auto
  let ?g1 = "gc\<lparr>gc_mem := m1, gc_backpatch := (gc_backpatch gc)(x := major_heap gc)\<rparr>"
  have h1: "major_heap ?g1 = major_heap gc" "CHUNK_AT ?g1 = CHUNK_AT gc"
    by (simp_all add: major_heap_def CHUNK_AT_def minor_heap_def fun_eq_iff)
  have "layout_ok ?g1" using Cons.prems(1) by (simp add: layout_ok_def)
  moreover have "\<forall>i\<in>set xs. i < GC_MINCHUNKS \<and> unat (CHUNK_SIZE (gc_mem ?g1) (CHUNK_AT ?g1 i)) \<le> 256"
    using Cons.prems(2) s by (simp add: h1 CHUNK_SIZE_def FLAGS_def)
  moreover have "CHUNK_FLAGS (gc_mem ?g1) (major_heap ?g1) \<noteq> color_val GC_FREE
      \<or> unat (CHUNK_SIZE (gc_mem ?g1) (major_heap ?g1)) < 8"
    using f h1 by simp
  ultimately obtain m where r: "res_fold promote_slot xs ?g1 = Some (Inr (?g1\<lparr>gc_mem := m,
      gc_backpatch := \<lambda>j. if j \<in> set xs then major_heap ?g1 else gc_backpatch ?g1 j\<rparr>))"
    and fl: "CHUNK_FLAGS m (major_heap ?g1) = (if xs = [] then CHUNK_FLAGS (gc_mem ?g1) (major_heap ?g1) else color_val GC_WHITE)"
    using Cons.IH by blast
  show ?case using p r fl f unfolding h1 by (intro exI[of _ m]) (auto simp: fun_eq_iff)
qed

text \<open>
  Claim C30 (code bug): a minor collection without roots is not a no-op. Every
  slot below \<open>gc_free_chunk\<close> is promoted whether marked or not: when
  the old generation's first chunk cannot hold any slot (allocated, or free
  and smaller than 8 bytes, as on a zero-filled arena), \<open>gc_major_alloc\<close>
  hands that chunk out for every slot, so the collection leaves it white
  (allocated) and records it as the copy of every dead slot in
  \<open>gc_backpatch\<close>.
\<close>

theorem gc_minor_without_roots_promotes:
  assumes "layout_ok gc" and "gc_ref_count gc = 0" and "0 < gc_free_chunk gc" and "gc_free_chunk gc \<le> int GC_MINCHUNKS"
    and "\<forall>i < nat (gc_free_chunk gc). unat (CHUNK_SIZE (gc_mem gc) (CHUNK_AT gc i)) \<le> 256"
    and "CHUNK_FLAGS (gc_mem gc) (major_heap gc) \<noteq> color_val GC_FREE \<or> unat (CHUNK_SIZE (gc_mem gc) (major_heap gc)) < 8"
  shows "\<exists>g. gc_minor gc = Some (Inr g) \<and> CHUNK_FLAGS (gc_mem g) (major_heap gc) = color_val GC_WHITE
    \<and> (\<forall>i < nat (gc_free_chunk gc). gc_backpatch g i = major_heap gc)"
proof -
  let ?g0 = "gc\<lparr>gc_backpatch := \<lambda>_. 0\<rparr>" and ?xs = "[0..<nat (gc_free_chunk gc)]"
  have "root_words ?g0 = []" using assms(2) by (simp add: root_words_def)
  then have mm: "mark_minor gc = Some (Inr ?g0)" by (simp add: mark_minor_def for_each_root_eq)
  have c0: "\<forall>i\<in>set ?xs. i < GC_MINCHUNKS \<and> unat (CHUNK_SIZE (gc_mem ?g0) (CHUNK_AT ?g0 i)) \<le> 256"
    using assms(4,5) by (auto simp: CHUNK_AT_def minor_heap_def)
  have l0: "layout_ok ?g0" using assms(1) by (simp add: layout_ok_def)
  have mh: "major_heap ?g0 = major_heap gc" by (simp add: major_heap_def)
  have h0: "CHUNK_FLAGS (gc_mem ?g0) (major_heap ?g0) \<noteq> color_val GC_FREE
      \<or> unat (CHUNK_SIZE (gc_mem ?g0) (major_heap ?g0)) < 8"
    using assms(6) mh by simp
  obtain m where p: "res_fold promote_slot ?xs ?g0 = Some (Inr (?g0\<lparr>gc_mem := m,
      gc_backpatch := \<lambda>j. if j \<in> set ?xs then major_heap ?g0 else gc_backpatch ?g0 j\<rparr>))"
    and f0: "CHUNK_FLAGS m (major_heap ?g0) = (if ?xs = [] then CHUNK_FLAGS (gc_mem ?g0) (major_heap ?g0) else color_val GC_WHITE)"
    using promote_loop_first_chunk[OF l0 c0 h0] by blast
  have f: "CHUNK_FLAGS m (major_heap gc) = color_val GC_WHITE" using f0 assms(3) mh by simp
  let ?g2 = "?g0\<lparr>gc_mem := m, gc_backpatch := \<lambda>j. if j \<in> set ?xs then major_heap ?g0 else gc_backpatch ?g0 j\<rparr>"
  have "root_words ?g2 = []" using assms(2) by (simp add: root_words_def)
  then have "copy_minor_heap ?g0 = Some (Inr ?g2)"
    using p assms(2) by (simp add: copy_minor_heap_def backpatch_refs_def for_each_root_eq)
  then have "gc_minor gc = Some (Inr (?g2\<lparr>gc_free_chunk := 0\<rparr>))" using mm by (simp add: gc_minor_def)
  then show ?thesis using f mh by auto
qed

abbreviation ex_dead :: collector where
  "ex_dead \<equiv> ex_gc\<lparr>gc_mem := store_u32 (\<lambda>_. 0) 65536 20, gc_free_chunk := 1\<rparr>"

abbreviation ex_bp :: collector where
  "ex_bp \<equiv> ex_gc\<lparr>gc_mem := store_u32 (store_ptr (\<lambda>_. 0) 256 65540) 65536 21,
     gc_backpatch := (\<lambda>_. 0)(0 := 131072)\<rparr>"

theorem backpatch_root_moves_witness:
  "backpatch_root 256 ex_bp = Some (Inr (ex_bp\<lparr>gc_mem := store_ptr (gc_mem ex_bp) 256 131076\<rparr>))"
proof -
  have s: "separate 65536 4 256 8" using separate_nat[of 65536 4 256 8] by simp
  have l: "load_ptr (gc_mem ex_bp) 256 = 65540"
    by (simp add: load_ptr_store_u32_separate[OF s])
  have c: "CHUNK_AT ex_bp 0 = 65536" by (simp add: CHUNK_AT_def minor_heap_def gc_new_def)
  have "POINTS_MINOR ex_bp 65540" by (simp add: POINTS_MINOR_def minor_heap_def gc_new_def gc_consts)
  moreover have "MINOR_CHUNK ex_bp 65540 = CHUNK_AT ex_bp 0"
    by (simp add: MINOR_CHUNK_def CHUNK_AT_def minor_heap_def gc_new_def gc_consts)
  moreover have "MARKED (gc_mem ex_bp) 65536" by (simp add: MARKED_def FLAGS_def)
  moreover have "gc_backpatch ex_bp 0 \<noteq> 0" by simp
  ultimately show ?thesis
    using backpatch_root_moves[of ex_bp 256 0] l c by (simp add: gc_consts)
qed

theorem gc_minor_without_roots_promotes_witness:
  "\<exists>g. gc_minor ex_dead = Some (Inr g) \<and> CHUNK_FLAGS (gc_mem g) 131072 = color_val GC_WHITE
    \<and> gc_backpatch g 0 = 131072"
proof -
  have "CHUNK_AT ex_dead 0 = 65536" by (simp add: CHUNK_AT_def minor_heap_def gc_new_def)
  moreover have "CHUNK_SIZE (gc_mem ex_dead) 65536 = 20" by (simp add: CHUNK_SIZE_def FLAGS_def)
  moreover have "separate 65536 4 131072 4" using separate_nat[of 65536 4 131072 4] by simp
  then have "CHUNK_SIZE (gc_mem ex_dead) 131072 = 0"
    by (simp add: CHUNK_SIZE_def FLAGS_def load_u32_store_u32_separate)
  ultimately show ?thesis
    using gc_minor_without_roots_promotes[of ex_dead] ex_gc_layout ex_gc_major_heap
    by (simp add: layout_ok_def major_heap_def gc_new_def gc_consts)
qed

end
