(* ===== verification/Allocator.thy ===== *)
theory Allocator
  imports Minor_Mark Minor_Copy
begin

text \<open>
  The nursery allocator \<open>gc_minor_alloc\<close> (\<open>src/gc.c\<close> lines 116--131) and
  the allocation facade \<open>gc_alloc\<close> (lines 294--301). A request of \<open>size\<close>
  bytes becomes a chunk of \<open>WITH_HEADER(ALIGN(size))\<close> bytes in the next free
  256-byte slot; when the slots are used up the allocator runs a minor
  collection, which empties the nursery, and retries once. The facade falls back
  to the old generation when the nursery allocator returns \<open>NULL\<close>.

  The C parameter \<open>int size\<close> is the 32-bit word \<open>n\<close>; the test
  \<open>size > GC_MINCHUNK_SIZE\<close> compares two \<open>int\<close>s, hence \<open>sint\<close>. The
  recursion terminates because \<open>gc_minor\<close> resets \<open>gc_free_chunk\<close> to 0.
\<close>

unbundle bit_operations_syntax

function gc_minor_alloc :: "collector \<Rightarrow> u32 \<Rightarrow> (addr \<times> collector) res" where
  "gc_minor_alloc gc n =
     (if n = 0 then Some (Inr (0, gc))
      else
        let sz = WITH_HEADER (ALIGN n) in
        if sint sz > int GC_MINCHUNK_SIZE then Some (Inr (0, gc))
        else if gc_free_chunk gc \<ge> int GC_MINCHUNKS then
          res_bind (gc_minor gc) (\<lambda>g. gc_minor_alloc g (WITHOUT_HEADER sz))
        else
          let chunk = CHUNK_AT gc (nat (gc_free_chunk gc)) in
          Some (Inr (BITS chunk,
            gc\<lparr>gc_mem := store_u32 (gc_mem gc) chunk sz, gc_free_chunk := gc_free_chunk gc + 1\<rparr>)))"
  by pat_completeness auto
termination
  by (relation "measure (\<lambda>(gc, n). if gc_free_chunk gc \<ge> int GC_MINCHUNKS then 1 else 0)")
    (auto simp: gc_minor_def res_bind_eq_Inr)

declare gc_minor_alloc.simps [simp del]

definition gc_alloc :: "collector \<Rightarrow> u32 \<Rightarrow> (addr \<times> collector) res" where
  "gc_alloc gc n =
     res_bind (gc_minor_alloc gc n) (\<lambda>(ptr, g).
       if ptr = 0 then map_option Inr (gc_major_alloc g n) else Some (Inr (ptr, g)))"

text \<open>The nursery counter stays within the slots.\<close>

definition alloc_inv :: "collector \<Rightarrow> bool" where
  "alloc_inv gc \<longleftrightarrow> 0 \<le> gc_free_chunk gc \<and> gc_free_chunk gc \<le> int GC_MINCHUNKS"


subsection \<open>Frames of the minor collection\<close>

text \<open>
  A minor collection keeps the struct's address and the root registry; the
  allocator also keeps the slot counter in range, through its collection and
  retry.
\<close>

lemma mark_minor_keeps_roots:
  assumes "mark_minor gc = Some (Inr g)"
  shows "keeps_roots gc g"
proof -
  have "res_fold mark_root (root_words (gc\<lparr>gc_backpatch := \<lambda>_. 0\<rparr>)) (gc\<lparr>gc_backpatch := \<lambda>_. 0\<rparr>) = Some (Inr g)"
    using assms by (simp add: mark_minor_def for_each_root_eq)
  then show ?thesis
    by (rule res_fold_invariant[where P = "keeps_roots gc"])
      (auto dest!: mark_root_marks_only simp: marks_only_def)
qed

lemma backpatch_root_Inr: "backpatch_root w t = Some (Inr t') \<Longrightarrow> mem_only t t'"
  using backpatch_root_total[of w t] by auto

lemma backpatch_chunk_Inr: "backpatch_chunk t c = Some (Inr t') \<Longrightarrow> mem_only t t'"
  using backpatch_chunk_loop_total[of t c 0] by (auto simp: backpatch_chunk_def)

lemma copy_minor_heap_keeps_roots:
  assumes "copy_minor_heap gc = Some (Inr g)"
  shows "keeps_roots gc g"
proof -
  obtain xs g1 g2 g3 where p: "res_fold promote_slot xs gc = Some (Inr g1)"
    and b: "backpatch_refs g1 = Some (Inr g2)"
    and c: "res_fold (\<lambda>i g. backpatch_chunk g (CHUNK_AT g i)) [0..<nat (gc_ref_count g2)] g2 = Some (Inr g3)"
    and s: "res_fold copy_slot [0..<nat (gc_ref_count g3)] g3 = Some (Inr g)"
    using assms by (auto simp: copy_minor_heap_def res_bind_eq_Inr)
  have "keeps_roots gc g1"
    using p by (rule res_fold_invariant[where P = "keeps_roots gc"])
      (auto simp: promote_slot_def backpatch_set_def split: option.splits prod.splits if_splits
        dest!: gc_major_alloc_frame, metis keeps_roots_update(1))
  moreover have "mem_only g1 g2"
    using b unfolding backpatch_refs_def for_each_root_eq
    by (rule res_fold_invariant[where P = "mem_only g1"]) (auto dest!: backpatch_root_Inr intro: mem_only_trans)
  moreover have "mem_only g2 g3"
    using c by (rule res_fold_invariant[where P = "mem_only g2"]) (auto dest!: backpatch_chunk_Inr intro: mem_only_trans)
  moreover have "mem_only g3 g"
    using s by (rule res_fold_invariant[where P = "mem_only g3"])
      (auto simp: copy_slot_def Let_def split: if_splits sum.splits intro: mem_only_trans)
  ultimately show ?thesis
    by (meson keeps_roots_trans mem_only_keeps_roots)
qed

lemma gc_minor_keeps_roots:
  assumes "gc_minor gc = Some (Inr g)"
  shows "keeps_roots gc g \<and> gc_free_chunk g = 0"
proof -
  obtain g1 g2 where m: "mark_minor gc = Some (Inr g1)" and c: "copy_minor_heap g1 = Some (Inr g2)"
    and e: "g = g2\<lparr>gc_free_chunk := 0\<rparr>"
    using assms by (auto simp: gc_minor_def res_bind_eq_Inr)
  from mark_minor_keeps_roots[OF m] copy_minor_heap_keeps_roots[OF c] have "keeps_roots gc g2"
    by (rule keeps_roots_trans)
  then show ?thesis using e by simp
qed

lemma gc_minor_alloc_frame:
  "alloc_inv gc \<Longrightarrow> gc_minor_alloc gc n = Some (Inr (p, g')) \<Longrightarrow> alloc_inv g' \<and> keeps_roots gc g'"
proof (induction gc n arbitrary: p g' rule: gc_minor_alloc.induct)
  case (1 gc n)
  show ?case
  proof (cases "n = 0 \<or> sint (WITH_HEADER (ALIGN n)) > int GC_MINCHUNK_SIZE")
    case True
    then have "gc_minor_alloc gc n = Some (Inr (0, gc))"
      by (subst gc_minor_alloc.simps) (auto simp: Let_def)
    then show ?thesis using "1.prems" by simp
  next
    case False
    show ?thesis
    proof (cases "gc_free_chunk gc \<ge> int GC_MINCHUNKS")
      case full: True
      then obtain g where g: "gc_minor gc = Some (Inr g)"
        and r: "gc_minor_alloc g (WITHOUT_HEADER (WITH_HEADER (ALIGN n))) = Some (Inr (p, g'))"
        using "1.prems"(2) False by (subst (asm) gc_minor_alloc.simps) (auto simp: Let_def res_bind_eq_Inr)
      have "alloc_inv g" using gc_minor_free_chunk[OF g] by (simp add: alloc_inv_def)
      moreover have "n \<noteq> 0" "\<not> int GC_MINCHUNK_SIZE < sint (WITH_HEADER (ALIGN n))" using False by auto
      ultimately show ?thesis
        using "1.IH"[OF _ refl _ full g _ r] gc_minor_keeps_roots[OF g] keeps_roots_trans by blast
    next
      case notfull: False
      then show ?thesis using "1.prems" False
        by (subst (asm) gc_minor_alloc.simps) (auto simp: Let_def alloc_inv_def)
    qed
  qed
qed

lemma gc_minor_alloc_slot:
  assumes "n \<noteq> 0" and "\<not> sint (WITH_HEADER (ALIGN n)) > int GC_MINCHUNK_SIZE"
    and "gc_free_chunk gc < int GC_MINCHUNKS"
  shows "gc_minor_alloc gc n =
    Some (Inr (BITS (CHUNK_AT gc (nat (gc_free_chunk gc))),
      gc\<lparr>gc_mem := store_u32 (gc_mem gc) (CHUNK_AT gc (nat (gc_free_chunk gc))) (WITH_HEADER (ALIGN n)),
         gc_free_chunk := gc_free_chunk gc + 1\<rparr>))"
  using assms by (subst gc_minor_alloc.simps) (simp add: Let_def not_le)

text \<open>
  Claim C16 (functional): with a free slot, a request of 1 to 252 bytes is
  served from slot \<open>gc_free_chunk\<close>: the block starts after the slot's
  header, the header holds \<open>WITH_HEADER (ALIGN n)\<close>, which covers the request
  and its header and fits in the 256-byte slot, and the counter advances.
\<close>

theorem gc_minor_alloc_in_slot:
  assumes "gc_free_chunk gc < int GC_MINCHUNKS" and "0 < unat n" and "unat n \<le> 252"
  shows "\<exists>g'. gc_minor_alloc gc n = Some (Inr (CHUNK_AT gc (nat (gc_free_chunk gc)) + 4, g'))
    \<and> CHUNK_SIZE (gc_mem g') (CHUNK_AT gc (nat (gc_free_chunk gc))) = WITH_HEADER (ALIGN n)
    \<and> unat n + 4 \<le> unat (WITH_HEADER (ALIGN n)) \<and> unat (WITH_HEADER (ALIGN n)) \<le> GC_MINCHUNK_SIZE
    \<and> gc_free_chunk g' = gc_free_chunk gc + 1"
proof -
  note sz = request_sizes[OF assms(2,3)]
  have "n \<noteq> 0" using assms(2) by auto
  moreover have "\<not> sint (WITH_HEADER (ALIGN n)) > int GC_MINCHUNK_SIZE" using sz by (simp add: gc_consts)
  ultimately show ?thesis
    using gc_minor_alloc_slot[OF _ _ assms(1)] sz size_low_bits[OF assms(2,3)]
    by (simp add: BITS_def CHUNK_SIZE_def FLAGS_def gc_consts)
qed

text \<open>
  Claim C19 (error): a negative size is not rejected: \<open>size > GC_MINCHUNK_SIZE\<close>
  is a signed comparison, so \<open>gc_minor_alloc(gc, -100)\<close> returns a slot whose
  header claims \<open>0xFFFFFFA0\<close> bytes, which the marking and promotion loops
  then read as the chunk size.
\<close>

theorem gc_minor_alloc_negative_size:
  assumes "gc_free_chunk gc < int GC_MINCHUNKS"
  shows "\<exists>g'. gc_minor_alloc gc (- 100) = Some (Inr (CHUNK_AT gc (nat (gc_free_chunk gc)) + 4, g'))
    \<and> CHUNK_SIZE (gc_mem g') (CHUNK_AT gc (nat (gc_free_chunk gc))) = 4294967200"
proof -
  have sz: "WITH_HEADER (ALIGN (- 100 :: u32)) = 4294967200" by (simp add: WITH_HEADER_def ALIGN_def)
  then have "\<not> sint (WITH_HEADER (ALIGN (- 100 :: u32))) > int GC_MINCHUNK_SIZE" by (simp add: gc_consts)
  then show ?thesis
    using gc_minor_alloc_slot[OF _ _ assms, of "- 100"] sz
    by (simp add: BITS_def CHUNK_SIZE_def FLAGS_def)
qed

text \<open>
  Claim C18 (bounds): a request of more than 252 bytes (below \<open>2^31 - 7\<close>)
  is refused by the nursery without any change to the collector, and
  \<open>gc_alloc\<close> passes it to the old-generation allocator unchanged.
\<close>

theorem gc_minor_alloc_rejects_large:
  assumes "252 < unat n" and "unat n < 2 ^ 31 - 7"
  shows "gc_minor_alloc gc n = Some (Inr (0, gc)) \<and> gc_alloc gc n = map_option Inr (gc_major_alloc gc n)"
proof -
  have u: "unat (WITH_HEADER (ALIGN n)) = (unat n + 3) div 4 * 4 + 4"
    using assms by (intro unat_WITH_HEADER_ALIGN) simp
  then have "sint (WITH_HEADER (ALIGN n)) = int (unat (WITH_HEADER (ALIGN n)))"
    using assms by (intro sint_u32_small) simp
  then have "sint (WITH_HEADER (ALIGN n)) > int GC_MINCHUNK_SIZE" using u assms by (simp add: gc_consts)
  moreover have "n \<noteq> 0" using assms by auto
  ultimately have "gc_minor_alloc gc n = Some (Inr (0, gc))" by (subst gc_minor_alloc.simps) simp
  then show ?thesis by (simp add: gc_alloc_def)
qed

text \<open>
  Claim C17 (invariant): \<open>gc_minor_alloc\<close> keeps \<open>gc_free_chunk\<close> within
  \<open>[0, GC_MINCHUNKS]\<close>, through its minor collection and retry included.
\<close>

theorem gc_minor_alloc_keeps_inv:
  "alloc_inv gc \<Longrightarrow> gc_minor_alloc gc n = Some (Inr (p, g')) \<Longrightarrow> alloc_inv g'"
  using gc_minor_alloc_frame by blast

text \<open>
  Claim C20 (functional): on a full nursery a request of 1 to 252 bytes runs
  \<open>gc_minor\<close> and then allocates exactly what the same request allocates on
  the collected nursery: the retry's argument \<open>WITHOUT_HEADER(size)\<close> is
  \<open>ALIGN(n)\<close>, which \<open>gc_minor_alloc\<close> turns back into the same chunk size.
\<close>

theorem gc_minor_alloc_retry:
  assumes "int GC_MINCHUNKS \<le> gc_free_chunk gc" and "0 < unat n" and "unat n \<le> 252"
  shows "gc_minor_alloc gc n = res_bind (gc_minor gc) (\<lambda>g. gc_minor_alloc g n)"
proof -
  note sz = request_sizes[OF assms(2,3)]
  have n: "n \<noteq> 0" using assms(2) by auto
  have small: "\<not> sint (WITH_HEADER (ALIGN n)) > int GC_MINCHUNK_SIZE" using sz by (simp add: gc_consts)
  have w: "WITHOUT_HEADER (WITH_HEADER (ALIGN n)) = ALIGN n" by (simp add: WITHOUT_HEADER_def WITH_HEADER_def)
  have a: "ALIGN n \<noteq> 0" using sz(4) assms(2) by auto
  have retry: "gc_minor_alloc g (ALIGN n) = gc_minor_alloc g n" for g
    by (simp only: gc_minor_alloc.simps[of g "ALIGN n"] gc_minor_alloc.simps[of g n] ALIGN_idem a n if_False)
  show ?thesis using assms(1) n small
    by (subst gc_minor_alloc.simps) (simp add: Let_def w retry)
qed

subsection \<open>Witnesses\<close>

lemma ex_gc_slot0: "CHUNK_AT ex_gc (nat (gc_free_chunk ex_gc)) = 65536"
  by (simp add: CHUNK_AT_def minor_heap_def gc_new_def)

theorem gc_minor_alloc_in_slot_witness:
  "\<exists>g'. gc_minor_alloc ex_gc 16 = Some (Inr (65540, g')) \<and> CHUNK_SIZE (gc_mem g') 65536 = 20"
proof -
  have "gc_free_chunk ex_gc < int GC_MINCHUNKS" by (simp add: gc_new_def)
  then obtain g' where "gc_minor_alloc ex_gc 16 = Some (Inr (CHUNK_AT ex_gc (nat (gc_free_chunk ex_gc)) + 4, g'))"
    and "CHUNK_SIZE (gc_mem g') (CHUNK_AT ex_gc (nat (gc_free_chunk ex_gc))) = WITH_HEADER (ALIGN 16)"
    using gc_minor_alloc_in_slot[of ex_gc 16] by auto
  then show ?thesis unfolding ex_gc_slot0 by (auto simp: WITH_HEADER_def ALIGN_def)
qed

theorem gc_minor_alloc_negative_size_witness:
  "\<exists>g'. gc_minor_alloc ex_gc (- 100) = Some (Inr (65540, g')) \<and> CHUNK_SIZE (gc_mem g') 65536 = 4294967200"
proof -
  have "gc_free_chunk ex_gc < int GC_MINCHUNKS" by (simp add: gc_new_def)
  from gc_minor_alloc_negative_size[OF this] show ?thesis by (simp only: ex_gc_slot0) simp
qed

theorem gc_minor_alloc_rejects_large_witness:
  "gc_minor_alloc ex_gc 300 = Some (Inr (0, ex_gc)) \<and> gc_alloc ex_gc 300 = map_option Inr (gc_major_alloc ex_gc 300)"
  by (rule gc_minor_alloc_rejects_large) simp_all

theorem gc_minor_alloc_keeps_inv_witness:
  "alloc_inv ex_gc \<and> (\<exists>g'. gc_minor_alloc ex_gc 16 = Some (Inr (65540, g')) \<and> alloc_inv g')"
proof -
  have inv: "alloc_inv ex_gc" by (simp add: alloc_inv_def gc_new_def)
  have "gc_minor_alloc ex_gc 16 = Some (Inr (65540,
      ex_gc\<lparr>gc_mem := store_u32 (gc_mem ex_gc) 65536 (WITH_HEADER (ALIGN 16)), gc_free_chunk := 1\<rparr>))"
    using gc_minor_alloc_slot[of 16 ex_gc]
    by (simp add: BITS_def WITH_HEADER_def ALIGN_def gc_consts gc_new_def CHUNK_AT_def minor_heap_def)
  with gc_minor_alloc_keeps_inv[OF inv this] inv show ?thesis by blast
qed

theorem gc_minor_alloc_retry_witness:
  "gc_minor_alloc (ex_gc\<lparr>gc_free_chunk := 256\<rparr>) 16
     = res_bind (gc_minor (ex_gc\<lparr>gc_free_chunk := 256\<rparr>)) (\<lambda>g. gc_minor_alloc g 16)"
  by (rule gc_minor_alloc_retry) (simp_all add: gc_consts)

end
