(* ===== verification/Major_GC.thy ===== *)
theory Major_GC
  imports Major_Alloc
begin

text \<open>
  The major collection of \<open>src/gc.c\<close>: \<open>darken_chunk\<close> and \<open>darken_roots\<close>
  (lines 160--179) turn the white chunks the roots point into gray,
  \<open>mark_major_chunk\<close> (lines 102--114) and \<open>darken_major\<close> (lines 181--195)
  blacken from the gray chunks, and \<open>gc_major\<close> (lines 270--285) then frees
  every chunk still white. All three walk the old generation header by header
  and are \<^theory_text>\<open>partial_function (option)\<close>s: a chunk whose header says size 0
  makes a walk stand still. \<open>mark_major_chunk\<close> dereferences the chunk it is
  given, which is \<open>NULL\<close> when \<open>find_major_chunk\<close> fails; that is an error
  value.
\<close>

unbundle bit_operations_syntax

subsection \<open>Darkening the roots\<close>

definition darken_chunk :: "collector \<Rightarrow> addr \<Rightarrow> collector option" where
  "darken_chunk gc ptr =
     Option.bind (find_major_chunk gc ptr) (\<lambda>cur.
       Some (if cur \<noteq> 0 \<and> CHUNK_FLAGS (gc_mem gc) cur = color_val GC_WHITE
             then gc\<lparr>gc_mem := MARK_CHUNK (gc_mem gc) cur (color_val GC_GRAY)\<rparr> else gc))"

definition darken_roots :: "collector \<Rightarrow> collector res" where
  "darken_roots gc =
     for_each_root (\<lambda>ref g. map_option Inr (darken_chunk g (load_ptr (gc_mem g) ref))) gc"

subsection \<open>Blackening\<close>

text \<open>
  The loop of \<open>mark_major_chunk\<close> from word \<open>i\<close> on; a recursive call is
  \<open>mark_major_chunk\<close> itself, inlined: fail on \<open>NULL\<close>, do nothing on a black
  chunk, otherwise write \<open>CHUNK_FLAGS + GC_BLACK\<close> into the state bits (an
  unmasked sum: gray gives 5) and scan the chunk from word 0.
\<close>

partial_function (option) mark_major_scan :: "collector \<Rightarrow> addr \<Rightarrow> nat \<Rightarrow> collector res" where
  "mark_major_scan gc chunk i =
     (if i < PTR_INDEX (CHUNK_SIZE (gc_mem gc) chunk) then
        (let ptr = load_ptr (gc_mem gc) (BITS_AT chunk i) in
         if REF_PTR_MAJ gc ptr then
           Option.bind (find_major_chunk gc ptr) (\<lambda>ref.
             if ref = 0 then Some (Inl Null_dereference)
             else if CHUNK_FLAGS (gc_mem gc) ref \<noteq> color_val GC_BLACK then
               res_bind
                 (mark_major_scan (gc\<lparr>gc_mem := MARK_CHUNK (gc_mem gc) ref
                    (CHUNK_FLAGS (gc_mem gc) ref + color_val GC_BLACK)\<rparr>) ref 0)
                 (\<lambda>g. mark_major_scan g chunk (Suc i))
             else mark_major_scan gc chunk (Suc i))
         else mark_major_scan gc chunk (Suc i))
      else Some (Inr gc))"

declare mark_major_scan.simps [code]

definition mark_major_chunk :: "collector \<Rightarrow> addr \<Rightarrow> collector res" where
  "mark_major_chunk gc chunk =
     (if chunk = 0 then Some (Inl Null_dereference)
      else if CHUNK_FLAGS (gc_mem gc) chunk \<noteq> color_val GC_BLACK then
        mark_major_scan (gc\<lparr>gc_mem := MARK_CHUNK (gc_mem gc) chunk
          (CHUNK_FLAGS (gc_mem gc) chunk + color_val GC_BLACK)\<rparr>) chunk 0
      else Some (Inr gc))"

text \<open>
  \<open>darken_major\<close> walks the arena and blackens from every gray chunk; the step
  to the next chunk reads the size after the marking, which may have changed it.
\<close>

partial_function (option) darken_major_loop :: "collector \<Rightarrow> addr \<Rightarrow> collector res" where
  "darken_major_loop gc cur =
     (if cur \<noteq> 0 \<and> cur < major_end gc then
        res_bind
          (if CHUNK_FLAGS (gc_mem gc) cur = color_val GC_GRAY then mark_major_chunk gc cur
           else Some (Inr gc))
          (\<lambda>g. darken_major_loop g (cur + ucast (CHUNK_SIZE (gc_mem g) cur)))
      else Some (Inr gc))"

declare darken_major_loop.simps [code]

definition darken_major :: "collector \<Rightarrow> collector res" where
  "darken_major gc = darken_major_loop gc (major_heap gc)"

subsection \<open>Sweeping\<close>

partial_function (option) sweep_loop :: "collector \<Rightarrow> addr \<Rightarrow> collector option" where
  "sweep_loop gc cur =
     (if cur < major_end gc then
        (let g = (if CHUNK_FLAGS (gc_mem gc) cur = color_val GC_WHITE
                  then gc\<lparr>gc_mem := MARK_CHUNK (gc_mem gc) cur (color_val GC_FREE)\<rparr> else gc)
         in sweep_loop g (cur + ucast (CHUNK_SIZE (gc_mem g) cur)))
      else Some gc)"

declare sweep_loop.simps [code]

definition gc_major :: "collector \<Rightarrow> collector res" where
  "gc_major gc =
     res_bind (darken_roots gc) (\<lambda>g1.
     res_bind (darken_major g1) (\<lambda>g2.
     map_option Inr (sweep_loop g2 (major_heap g2))))"


subsection \<open>The abstract arena\<close>

text \<open>
  An arena described by its chunk sizes \<open>ss\<close> (as in \<open>arena_wf\<close>) has its
  headers at the offsets \<open>chunk_offsets 0 ss\<close> (\<open>Major_Alloc\<close>); its abstract state is the list
  of chunk colours. The sweep's specification on that state is
  \<open>map sweep_colour\<close>: white becomes free, every other colour stays.
  \<open>arena_frame\<close> bounds the bytes a walk from offset \<open>off\<close> may write.
\<close>

definition chunk_colours :: "collector \<Rightarrow> nat list \<Rightarrow> u32 list" where
  "chunk_colours gc ss = map (\<lambda>x. CHUNK_FLAGS (gc_mem gc) (major_heap gc + of_nat x)) (chunk_offsets 0 ss)"

definition sweep_colour :: "u32 \<Rightarrow> u32" where
  "sweep_colour c = (if c = color_val GC_WHITE then color_val GC_FREE else c)"

definition arena_frame :: "collector \<Rightarrow> nat \<Rightarrow> mem \<Rightarrow> mem \<Rightarrow> bool" where
  "arena_frame gc off m' m \<longleftrightarrow>
     (\<forall>x. m' x \<noteq> m x \<longrightarrow> (\<exists>b. off \<le> b \<and> b < GC_MAJHEAP_SIZE \<and> x = major_heap gc + of_nat b))"

text \<open>
  The example for the major collection: chunk A (16 bytes, white) at the start
  of the old generation, a 4-byte free chunk B after it, the rest of the arena a
  free chunk C, and one root word at \<open>0x100\<close> pointing into A.
\<close>

abbreviation ex_major_mem :: mem where
  "ex_major_mem \<equiv> store_ptr (store_u32 (store_u32 (store_u32 (\<lambda>_. 0) 131072 17) 131088 4) 131092 33554412) 256 131076"

abbreviation ex_gray :: collector where
  "ex_gray \<equiv> ex_gc\<lparr>gc_mem := store_u32 (\<lambda>_. 0) 131072 19\<rparr>"

abbreviation ex_major :: collector where
  "ex_major \<equiv> ex_gc\<lparr>gc_mem := ex_major_mem, gc_ref_count := 1, gc_refs := (\<lambda>_. (0, 0))(0 := (256, 264))\<rparr>"

lemma find_major_loop_zero:
  assumes "find_major_loop gc ptr cur = Some r"
  shows "CHUNK_SIZE (gc_mem gc) cur = 0 \<longrightarrow> \<not> cur < major_end gc"
proof (rule find_major_loop.raw_induct[where P = "\<lambda>gc ptr cur r. CHUNK_SIZE (gc_mem gc) cur = 0 \<longrightarrow> \<not> cur < major_end gc", OF _ assms])
  fix f :: "collector \<Rightarrow> addr \<Rightarrow> addr \<Rightarrow> addr option" and gc ptr cur r
  assume IH: "\<And>gc ptr cur r. f gc ptr cur = Some r \<Longrightarrow> CHUNK_SIZE (gc_mem gc) cur = 0 \<longrightarrow> \<not> cur < major_end gc"
    and eq: "(if \<not> (ptr \<ge> cur \<and> ptr < cur + ucast (CHUNK_SIZE (gc_mem gc) cur)) \<and> cur < major_end gc
      then f gc ptr (cur + ucast (CHUNK_SIZE (gc_mem gc) cur)) else Some cur) = Some r"
  show "CHUNK_SIZE (gc_mem gc) cur = 0 \<longrightarrow> \<not> cur < major_end gc"
    using eq IH[of gc ptr cur r] by (auto split: if_splits)
qed

lemma darken_major_loop_zero:
  assumes "darken_major_loop gc cur = Some r"
  shows "CHUNK_SIZE (gc_mem gc) cur = 0 \<and> CHUNK_FLAGS (gc_mem gc) cur \<noteq> color_val GC_GRAY \<and> cur \<noteq> 0
    \<longrightarrow> \<not> cur < major_end gc"
proof (rule darken_major_loop.raw_induct[where P = "\<lambda>gc cur r. CHUNK_SIZE (gc_mem gc) cur = 0
      \<and> CHUNK_FLAGS (gc_mem gc) cur \<noteq> color_val GC_GRAY \<and> cur \<noteq> 0 \<longrightarrow> \<not> cur < major_end gc", OF _ assms])
  fix f :: "collector \<Rightarrow> addr \<Rightarrow> collector res" and gc cur r
  assume IH: "\<And>gc cur r. f gc cur = Some r \<Longrightarrow> CHUNK_SIZE (gc_mem gc) cur = 0
      \<and> CHUNK_FLAGS (gc_mem gc) cur \<noteq> color_val GC_GRAY \<and> cur \<noteq> 0 \<longrightarrow> \<not> cur < major_end gc"
    and eq: "(if cur \<noteq> 0 \<and> cur < major_end gc then
        res_bind
          (if CHUNK_FLAGS (gc_mem gc) cur = color_val GC_GRAY then mark_major_chunk gc cur
           else Some (Inr gc))
          (\<lambda>g. f g (cur + ucast (CHUNK_SIZE (gc_mem g) cur)))
      else Some (Inr gc)) = Some r"
  show "CHUNK_SIZE (gc_mem gc) cur = 0 \<and> CHUNK_FLAGS (gc_mem gc) cur \<noteq> color_val GC_GRAY \<and> cur \<noteq> 0
    \<longrightarrow> \<not> cur < major_end gc"
    using eq IH[of gc cur r] by auto
qed

lemma major_heap_nonzero: "layout_ok gc \<Longrightarrow> major_heap gc \<noteq> 0"
  using unat_major_heap[of gc] by (auto simp: gc_consts)

text \<open>
  A zero-size chunk at the start of the old generation stalls the major
  collection: a root makes \<open>find_major_chunk\<close> loop on it, and without roots
  \<open>darken_major\<close> does unless the chunk is gray.
\<close>

lemma gc_major_stalls:
  assumes "layout_ok gc" and "CHUNK_SIZE (gc_mem gc) (major_heap gc) = 0"
    and "CHUNK_FLAGS (gc_mem gc) (major_heap gc) \<noteq> color_val GC_GRAY"
  shows "gc_major gc = None"
proof -
  note z = assms(2,3)
  have lt: "major_heap gc < major_end gc" and nz: "major_heap gc \<noteq> 0"
    using major_heap_less_end[OF assms(1)] major_heap_nonzero[OF assms(1)] by auto
  have dm: "darken_major gc = None"
    using darken_major_loop_zero[of gc "major_heap gc"] z lt nz unfolding darken_major_def
    by (cases "darken_major_loop gc (major_heap gc)") auto
  have find: "find_major_chunk gc ptr = None" for ptr
    using find_major_loop_zero[of gc ptr "major_heap gc"] z lt unfolding find_major_chunk_def
    by (cases "find_major_loop gc ptr (major_heap gc)") auto
  show ?thesis
  proof (cases "root_words gc")
    case Nil
    then have "darken_roots gc = Some (Inr gc)" by (simp add: darken_roots_def for_each_root_eq)
    then show ?thesis using dm by (simp add: gc_major_def)
  next
    case (Cons w ws)
    then have "darken_roots gc = None"
      by (simp add: darken_roots_def for_each_root_eq darken_chunk_def find res_bind_def)
    then show ?thesis by (simp add: gc_major_def res_bind_def)
  qed
qed

lemma ex_gc_stalls:
  assumes "CHUNK_SIZE m 131072 = 0" and "CHUNK_FLAGS m 131072 \<noteq> color_val GC_GRAY"
  shows "gc_major (ex_gc\<lparr>gc_mem := m, gc_free_chunk := k\<rparr>) = None"
  using assms by (intro gc_major_stalls)
    (simp_all add: layout_ok_def major_heap_def gc_new_def gc_consts)

lemma header_frame:
  assumes "\<forall>x. m' x \<noteq> m x \<longrightarrow> (\<exists>b. P b \<and> b < GC_MAJHEAP_SIZE \<and> x = a + of_nat b)"
    and "\<And>b j. P b \<Longrightarrow> j < 4 \<Longrightarrow> b \<noteq> o' + j" and "o' < GC_MAJHEAP_SIZE"
  shows "load_u32 m' (a + of_nat o') = load_u32 m (a + of_nat o')"
proof -
  have "m' (a + of_nat o' + of_nat j) = m (a + of_nat o' + of_nat j)" if "j < 4" for j
  proof (rule ccontr)
    assume "m' (a + of_nat o' + of_nat j) \<noteq> m (a + of_nat o' + of_nat j)"
    then obtain b where b: "P b" "b < GC_MAJHEAP_SIZE" and eq: "a + of_nat (o' + j) = a + of_nat b"
      using assms(1) by (auto simp: add.assoc)
    have "o' + j < 2 ^ 64" "b < 2 ^ 64" using b(2) assms(3) that by (simp_all add: gc_consts)
    then have "o' + j = b" using eq by (simp only: of_nat_addr_inj)
    then show False using assms(2)[OF b(1) that] by simp
  qed
  then have "load_bytes m' (a + of_nat o') 4 = load_bytes m (a + of_nat o') 4" by (rule load_bytes_cong)
  then show ?thesis by (simp add: load_u32_def)
qed

lemma chunk_chain_pos: "chunk_chain m a ss \<Longrightarrow> s \<in> set ss \<Longrightarrow> 0 < s"
  by (induction m a ss rule: chunk_chain.induct) auto

lemma chunk_offsets_bounds:
  "(\<And>s. s \<in> set ss \<Longrightarrow> 0 < s) \<Longrightarrow> o' \<in> set (chunk_offsets off ss) \<Longrightarrow> off \<le> o' \<and> o' < off + sum_list ss"
proof (induction ss arbitrary: off)
  case (Cons s ss)
  have s: "0 < s" using Cons.prems(1) by simp
  show ?case
  proof (cases "o' = off")
    case False
    then have "o' \<in> set (chunk_offsets (off + s) ss)" using Cons.prems(2) by simp
    then have "off + s \<le> o' \<and> o' < off + s + sum_list ss" using Cons.IH Cons.prems(1) by simp
    then show ?thesis by simp
  qed (use s in simp)
qed simp

lemma chunk_chain_frame:
  assumes "chunk_chain m (a + of_nat ofs) ss" and "ofs + sum_list ss \<le> GC_MAJHEAP_SIZE"
    and "\<forall>x. m' x \<noteq> m x \<longrightarrow> (\<exists>b. b < ofs \<and> b < GC_MAJHEAP_SIZE \<and> x = a + of_nat b)"
  shows "chunk_chain m' (a + of_nat ofs) ss"
  using assms
proof (induction ss arbitrary: ofs)
  case (Cons s ss)
  then have pos: "0 < s" and sz: "unat (CHUNK_SIZE m (a + of_nat ofs)) = s" by auto
  then have "ofs < GC_MAJHEAP_SIZE" using Cons.prems(2) by simp
  then have "load_u32 m' (a + of_nat ofs) = load_u32 m (a + of_nat ofs)"
    using Cons.prems(3) by (intro header_frame[where P = "\<lambda>b. b < ofs"]) auto
  then have "CHUNK_SIZE m' (a + of_nat ofs) = CHUNK_SIZE m (a + of_nat ofs)" by (simp add: CHUNK_SIZE_def FLAGS_def)
  moreover have "chunk_chain m' (a + of_nat (ofs + s)) ss"
  proof (rule Cons.IH)
    show "chunk_chain m (a + of_nat (ofs + s)) ss" using Cons.prems(1) sz by (simp add: add.assoc)
    show "ofs + s + sum_list ss \<le> GC_MAJHEAP_SIZE" using Cons.prems(2) by simp
    show "\<forall>x. m' x \<noteq> m x \<longrightarrow> (\<exists>b<ofs + s. b < GC_MAJHEAP_SIZE \<and> x = a + of_nat b)"
      using Cons.prems(3) by (meson trans_less_add1)
  qed
  ultimately show ?case using sz pos by (simp add: add.assoc)
qed simp

lemma sweep_step:
  "CHUNK_SIZE (gc_mem (if CHUNK_FLAGS (gc_mem gc) a = color_val GC_WHITE
      then gc\<lparr>gc_mem := MARK_CHUNK (gc_mem gc) a (color_val GC_FREE)\<rparr> else gc)) a = CHUNK_SIZE (gc_mem gc) a"
  "CHUNK_FLAGS (gc_mem (if CHUNK_FLAGS (gc_mem gc) a = color_val GC_WHITE
      then gc\<lparr>gc_mem := MARK_CHUNK (gc_mem gc) a (color_val GC_FREE)\<rparr> else gc)) a = sweep_colour (CHUNK_FLAGS (gc_mem gc) a)"
  by (simp_all add: sweep_colour_def)

lemma sweep_chain:
  assumes "layout_ok gc" and "chunk_chain (gc_mem gc) (major_heap gc + of_nat off) ss"
    and "off + sum_list ss = GC_MAJHEAP_SIZE"
  shows "\<exists>g. sweep_loop gc (major_heap gc + of_nat off) = Some g \<and> (\<exists>m. g = gc\<lparr>gc_mem := m\<rparr>)
     \<and> arena_frame gc off (gc_mem g) (gc_mem gc)
     \<and> chunk_chain (gc_mem g) (major_heap gc + of_nat off) ss
     \<and> map (\<lambda>x. CHUNK_FLAGS (gc_mem g) (major_heap gc + of_nat x)) (chunk_offsets off ss)
       = map (\<lambda>x. sweep_colour (CHUNK_FLAGS (gc_mem gc) (major_heap gc + of_nat x))) (chunk_offsets off ss)"
  using assms
proof (induction ss arbitrary: gc off)
  case Nil
  then have "\<not> major_heap gc + of_nat off < major_end gc"
    using major_offset_less_end[OF Nil.prems(1), of off] by simp
  then have "sweep_loop gc (major_heap gc + of_nat off) = Some gc" by (simp add: sweep_loop.simps)
  then show ?case by (auto simp: arena_frame_def intro: exI[of _ "gc_mem gc"])
next
  case (Cons s ss)
  let ?h = "major_heap gc" and ?m = "gc_mem gc"
  let ?a = "?h + of_nat off"
  let ?g1 = "if CHUNK_FLAGS ?m ?a = color_val GC_WHITE then gc\<lparr>gc_mem := MARK_CHUNK ?m ?a (color_val GC_FREE)\<rparr> else gc"
  have sz: "unat (CHUNK_SIZE ?m ?a) = s" and pos: "0 < s"
    and rest: "chunk_chain ?m (?h + of_nat (off + s)) ss" and sum: "off + s + sum_list ss = GC_MAJHEAP_SIZE"
    using Cons.prems by (simp_all add: add.assoc)
  have "4 dvd s" using unat_CHUNK_SIZE_dvd[of ?m ?a] sz by simp
  then have s4: "4 \<le> s" using pos by (auto elim: dvdE)
  have lt: "?a < major_end gc" using major_offset_less_end[OF Cons.prems(1), of off] sum pos by simp
  have g1: "\<exists>m. ?g1 = gc\<lparr>gc_mem := m\<rparr>" by (auto intro: exI[of _ ?m])
  then have l1: "layout_ok ?g1" and h1: "major_heap ?g1 = ?h" using Cons.prems(1) by auto
  have next1: "?a + ucast (CHUNK_SIZE (gc_mem ?g1) ?a) = ?h + of_nat (off + s)"
    using ucast_chunk_size[OF sz] sweep_step(1)[of gc ?a] by (simp add: add.assoc)
  have f1: "\<forall>x. gc_mem ?g1 x \<noteq> ?m x \<longrightarrow> (\<exists>b. off \<le> b \<and> b < off + 4 \<and> x = ?h + of_nat b)"
  proof (intro allI impI)
    fix x assume "gc_mem ?g1 x \<noteq> ?m x"
    then have "MARK_CHUNK ?m ?a (color_val GC_FREE) x \<noteq> ?m x" by (auto split: if_splits)
    then obtain b where "b < 4" "x = ?a + of_nat b" using MARK_CHUNK_changes_header by blast
    then show "\<exists>b. off \<le> b \<and> b < off + 4 \<and> x = ?h + of_nat b"
      by (intro exI[of _ "off + b"]) (simp add: add.assoc)
  qed
  have f1': "\<forall>x. gc_mem ?g1 x \<noteq> ?m x \<longrightarrow> (\<exists>b. b < off + s \<and> b < GC_MAJHEAP_SIZE \<and> x = ?h + of_nat b)"
  proof (intro allI impI)
    fix x assume "gc_mem ?g1 x \<noteq> ?m x"
    then obtain b where "off \<le> b" "b < off + 4" "x = ?h + of_nat b" using f1 by blast
    moreover have "b < off + s" "b < GC_MAJHEAP_SIZE" using calculation(2) s4 sum pos by linarith+
    ultimately show "\<exists>b. b < off + s \<and> b < GC_MAJHEAP_SIZE \<and> x = ?h + of_nat b" by blast
  qed
  have "off + s + sum_list ss \<le> GC_MAJHEAP_SIZE" using sum by simp
  then have chain1: "chunk_chain (gc_mem ?g1) (?h + of_nat (off + s)) ss"
    by (rule chunk_chain_frame[OF rest _ f1'])
  note ih = Cons.IH[OF l1, of "off + s", unfolded h1, OF chain1 sum]
  then obtain g where loop: "sweep_loop ?g1 (?h + of_nat (off + s)) = Some g"
    and gm: "\<exists>m. g = ?g1\<lparr>gc_mem := m\<rparr>" and fr: "arena_frame ?g1 (off + s) (gc_mem g) (gc_mem ?g1)"
    and ch: "chunk_chain (gc_mem g) (?h + of_nat (off + s)) ss"
    and col: "map (\<lambda>x. CHUNK_FLAGS (gc_mem g) (?h + of_nat x)) (chunk_offsets (off + s) ss)
       = map (\<lambda>x. sweep_colour (CHUNK_FLAGS (gc_mem ?g1) (?h + of_nat x))) (chunk_offsets (off + s) ss)"
    using ih by blast
  have fr': "\<forall>x. gc_mem g x \<noteq> gc_mem ?g1 x \<longrightarrow> (\<exists>b. off + s \<le> b \<and> b < GC_MAJHEAP_SIZE \<and> x = ?h + of_nat b)"
    using fr unfolding arena_frame_def h1 by blast
  have "sweep_loop gc ?a = sweep_loop ?g1 (?a + ucast (CHUNK_SIZE (gc_mem ?g1) ?a))"
    by (subst sweep_loop.simps) (simp only: lt if_True Let_def)
  then have "sweep_loop gc ?a = Some g" using loop next1 by (simp add: add.assoc)
  moreover have "\<exists>m. g = gc\<lparr>gc_mem := m\<rparr>" using gm g1 by auto
  moreover have "arena_frame gc off (gc_mem g) ?m"
    unfolding arena_frame_def
  proof (intro allI impI)
    fix x assume "gc_mem g x \<noteq> ?m x"
    then have "gc_mem g x \<noteq> gc_mem ?g1 x \<or> gc_mem ?g1 x \<noteq> ?m x" by auto
    then show "\<exists>b\<ge>off. b < GC_MAJHEAP_SIZE \<and> x = ?h + of_nat b"
    proof
      assume "gc_mem g x \<noteq> gc_mem ?g1 x"
      then obtain b where "off + s \<le> b" "b < GC_MAJHEAP_SIZE" "x = ?h + of_nat b" using fr' by blast
      then show ?thesis by (intro exI[of _ b]) simp
    next
      assume "gc_mem ?g1 x \<noteq> ?m x"
      then obtain b where "off \<le> b" "b < off + 4" "x = ?h + of_nat b" using f1 by blast
      moreover have "b < GC_MAJHEAP_SIZE" using calculation(2) s4 sum by linarith
      ultimately show ?thesis by blast
    qed
  qed
  moreover have hd: "load_u32 (gc_mem g) ?a = load_u32 (gc_mem ?g1) ?a"
  proof (rule header_frame[where P = "\<lambda>b. off + s \<le> b", OF fr'])
    show "b \<noteq> off + j" if "off + s \<le> b" "j < 4" for b j using that s4 by linarith
    show "off < GC_MAJHEAP_SIZE" using sum pos by linarith
  qed
  moreover have "chunk_chain (gc_mem g) ?a (s # ss)"
    using ch hd sz sweep_step(1)[of gc ?a] pos by (simp add: CHUNK_SIZE_def FLAGS_def add.assoc)
  moreover have "map (\<lambda>x. CHUNK_FLAGS (gc_mem g) (?h + of_nat x)) (chunk_offsets off (s # ss))
       = map (\<lambda>x. sweep_colour (CHUNK_FLAGS ?m (?h + of_nat x))) (chunk_offsets off (s # ss))"
  proof -
    have "CHUNK_FLAGS (gc_mem g) ?a = sweep_colour (CHUNK_FLAGS ?m ?a)"
      using hd sweep_step(2)[of gc ?a] by (simp add: CHUNK_FLAGS_def FLAGS_def)
    moreover have "CHUNK_FLAGS (gc_mem ?g1) (?h + of_nat x) = CHUNK_FLAGS ?m (?h + of_nat x)"
      if "x \<in> set (chunk_offsets (off + s) ss)" for x
    proof -
      have "off + s \<le> x \<and> x < off + s + sum_list ss"
        using chunk_offsets_bounds[OF _ that] chunk_chain_pos[OF rest] by blast
      then have "load_u32 (gc_mem ?g1) (?h + of_nat x) = load_u32 ?m (?h + of_nat x)"
      proof (intro header_frame[where P = "\<lambda>b. b < off + s", OF f1'])
        show "b \<noteq> x + j" if "off + s \<le> x \<and> x < off + s + sum_list ss" "b < off + s" for b j
          using that by linarith
        show "x < GC_MAJHEAP_SIZE" if "off + s \<le> x \<and> x < off + s + sum_list ss"
          using that sum by linarith
      qed
      then show ?thesis by (simp add: CHUNK_FLAGS_def FLAGS_def)
    qed
    ultimately show ?thesis using col by simp
  qed
  ultimately show ?case by blast
qed

text \<open>
  Claim C27 (refinement): on a well-formed arena the sweep of \<open>gc_major\<close>
  returns and implements \<open>map sweep_colour\<close> on the chunk colours: it frees
  exactly the white chunks, keeps every chunk size, and changes nothing but the
  collector's memory.
\<close>

theorem sweep_refines:
  assumes "arena_wf gc ss"
  shows "\<exists>g. sweep_loop gc (major_heap gc) = Some g \<and> arena_wf g ss
    \<and> chunk_colours g ss = map sweep_colour (chunk_colours gc ss) \<and> (\<exists>m. g = gc\<lparr>gc_mem := m\<rparr>)"
proof -
  have "layout_ok gc" "chunk_chain (gc_mem gc) (major_heap gc + of_nat 0) ss" "0 + sum_list ss = GC_MAJHEAP_SIZE"
    using assms by (simp_all add: arena_wf_def)
  from sweep_chain[OF this] obtain g m where "sweep_loop gc (major_heap gc) = Some g" and g: "g = gc\<lparr>gc_mem := m\<rparr>"
    and "chunk_chain (gc_mem g) (major_heap gc) ss"
    and "map (\<lambda>x. CHUNK_FLAGS (gc_mem g) (major_heap gc + of_nat x)) (chunk_offsets 0 ss)
       = map (\<lambda>x. sweep_colour (CHUNK_FLAGS (gc_mem gc) (major_heap gc + of_nat x))) (chunk_offsets 0 ss)"
    by auto
  then show ?thesis using assms by (auto simp: arena_wf_def chunk_colours_def)
qed

lemma REF_PTR_MAJ_mem_update [simp]: "REF_PTR_MAJ (gc\<lparr>gc_mem := m\<rparr>) p = REF_PTR_MAJ gc p"
  by (simp add: REF_PTR_MAJ_def POINTS_MAJOR_def)

lemma mark_major_scan_no_refs:
  assumes "\<forall>j. i \<le> j \<and> j < PTR_INDEX (CHUNK_SIZE (gc_mem gc) c) \<longrightarrow> \<not> REF_PTR_MAJ gc (load_ptr (gc_mem gc) (BITS_AT c j))"
  shows "mark_major_scan gc c i = Some (Inr gc)"
  using assms
proof (induction "PTR_INDEX (CHUNK_SIZE (gc_mem gc) c) - i" arbitrary: i)
  case 0
  then show ?case by (subst mark_major_scan.simps) simp
next
  case (Suc k)
  then have lt: "i < PTR_INDEX (CHUNK_SIZE (gc_mem gc) c)" by simp
  have "mark_major_scan gc c (Suc i) = Some (Inr gc)"
    using Suc.hyps(2) Suc.prems by (intro Suc.hyps(1)) auto
  then show ?case using lt Suc.prems by (subst mark_major_scan.simps) (simp add: Let_def)
qed

lemma PTR_INDEX_bound: "PTR_INDEX x < 2 ^ 29"
proof -
  have "unat x < 2 ^ 32" using unsigned_less[of x] by simp
  then show ?thesis by (simp add: PTR_INDEX_def)
qed

text \<open>
  Claim C28 (code bug): \<open>mark_major_chunk\<close> does not blacken a gray chunk.
  It ORs \<open>GC_GRAY + GC_BLACK = 5\<close> into the header, which reads back as
  white with bit 2 added to the size; when the chunk holds no old-generation
  pointer the call returns with exactly that change, so the chunk
  \<open>darken_major\<close> meant to keep is left white and the sweep frees it
  (\<open>sweep_refines\<close>).
\<close>

theorem mark_major_chunk_whitens_gray:
  assumes "c \<noteq> 0" and "CHUNK_FLAGS (gc_mem gc) c = color_val GC_GRAY"
    and "\<forall>i < PTR_INDEX (CHUNK_SIZE (gc_mem gc) c OR 4). \<not> REF_PTR_MAJ gc (load_ptr (gc_mem gc) (BITS_AT c i))"
  shows "mark_major_chunk gc c = Some (Inr (gc\<lparr>gc_mem := MARK_CHUNK (gc_mem gc) c 5\<rparr>))
    \<and> CHUNK_FLAGS (MARK_CHUNK (gc_mem gc) c 5) c = color_val GC_WHITE
    \<and> CHUNK_SIZE (MARK_CHUNK (gc_mem gc) c 5) c = CHUNK_SIZE (gc_mem gc) c OR 4"
proof -
  let ?m = "MARK_CHUNK (gc_mem gc) c 5"
  have f: "CHUNK_FLAGS (gc_mem gc) c + color_val GC_BLACK = 5" using assms(2) by simp
  have ld: "load_ptr ?m (BITS_AT c i) = load_ptr (gc_mem gc) (BITS_AT c i)" if "i < 2 ^ 29" for i
  proof -
    have "separate (c + of_nat 0) 4 (c + of_nat (4 + i * 8)) 8"
      using that by (intro separate_offsets) simp_all
    then show ?thesis by (simp add: BITS_AT_def BITS_def load_ptr_MARK_CHUNK_other add.assoc)
  qed
  have nr: "\<not> REF_PTR_MAJ gc (load_ptr ?m (BITS_AT c j))" if "j < PTR_INDEX (CHUNK_SIZE (gc_mem gc) c OR 4)" for j
  proof -
    have "j < 2 ^ 29" using that PTR_INDEX_bound less_trans by blast
    then show ?thesis using assms(3) that ld by simp
  qed
  have "mark_major_scan (gc\<lparr>gc_mem := ?m\<rparr>) c 0 = Some (Inr (gc\<lparr>gc_mem := ?m\<rparr>))"
    using nr by (intro mark_major_scan_no_refs) (simp add: MARK_CHUNK_5)
  then show ?thesis using assms(1,2) f by (simp add: mark_major_chunk_def MARK_CHUNK_5)
qed

subsection \<open>Witnesses\<close>

theorem sweep_refines_witness:
  "\<exists>g. sweep_loop ex_major (major_heap ex_major) = Some g \<and> chunk_colours g [16, 4, 33554412] = [0, 0, 0]"
proof -
  have wf: "arena_wf ex_major [16, 4, 33554412]"
    by (simp add: arena_wf_def layout_ok_def CHUNK_SIZE_def FLAGS_def load_u32_def store_u32_def store_ptr_def
        load_bytes_def le_bytes_def le_val_def upt_rec major_heap_def gc_new_def gc_consts)
  have c: "chunk_colours ex_major [16, 4, 33554412] = [1, 0, 0]"
    by (simp add: chunk_colours_def CHUNK_FLAGS_def FLAGS_def load_u32_def store_u32_def store_ptr_def
        load_bytes_def le_bytes_def le_val_def upt_rec major_heap_def gc_new_def gc_consts)
  from sweep_refines[OF wf] c show ?thesis by (auto simp: sweep_colour_def)
qed

theorem mark_major_chunk_whitens_gray_witness:
  "mark_major_chunk ex_gray 131072 = Some (Inr (ex_gray\<lparr>gc_mem := MARK_CHUNK (gc_mem ex_gray) 131072 5\<rparr>))
    \<and> CHUNK_FLAGS (MARK_CHUNK (gc_mem ex_gray) 131072 5) 131072 = color_val GC_WHITE
    \<and> CHUNK_SIZE (MARK_CHUNK (gc_mem ex_gray) 131072 5) 131072 = 20"
proof -
  have h: "CHUNK_FLAGS (gc_mem ex_gray) 131072 = color_val GC_GRAY" "CHUNK_SIZE (gc_mem ex_gray) 131072 = 16"
    by (simp_all add: CHUNK_FLAGS_def CHUNK_SIZE_def FLAGS_def)
  have "load_ptr (gc_mem ex_gray) (BITS_AT 131072 i) = 0" if "i < 2" for i
  proof -
    have "separate (of_nat 131072) 4 (of_nat (131076 + i * 8)) 8"
      using that by (intro separate_nat) simp_all
    then have "separate 131072 4 (BITS_AT 131072 i) 8" by (simp add: BITS_AT_def BITS_def add.commute)
    then show ?thesis by (simp add: load_ptr_store_u32_separate)
  qed
  moreover have "\<not> REF_PTR_MAJ ex_gray 0" by (simp add: REF_PTR_MAJ_def POINTS_MAJOR_def ex_gc_major_heap)
  moreover have "PTR_INDEX (16 OR 4) = 2" by (simp add: PTR_INDEX_def)
  ultimately show ?thesis using mark_major_chunk_whitens_gray[of 131072 ex_gray] h by simp
qed

end
