(* ===== verification/Roots.thy ===== *)
theory Roots
  imports Collector
begin

text \<open>
  The root registry: \<open>gc_add_ref\<close> and \<open>gc_remove_ref\<close> of \<open>src/gc.c\<close>
  (lines 24--76) and the inline wrappers \<open>gc_add_single_ref\<close> and
  \<open>gc_remove_single_ref\<close> of \<open>src/gc.h\<close> (lines 52--60). The table is the
  array \<open>gc_refs\<close> of \<open>[begin, end)\<close> pairs, of which the first
  \<open>gc_ref_count\<close> are live; a slot whose begin is \<open>NULL\<close> is free for reuse.
  Both operations search the live slots for one that contains the range
  (\<open>begin >= slot.begin && end <= slot.end\<close>).
\<close>

definition contains_range :: "addr \<times> addr \<Rightarrow> addr \<Rightarrow> addr \<Rightarrow> bool" where
  "contains_range slot b e \<longleftrightarrow> fst slot \<le> b \<and> e \<le> snd slot"

definition gc_add_ref :: "collector \<Rightarrow> addr \<Rightarrow> addr \<Rightarrow> gc_error + collector" where
  "gc_add_ref gc b0 e0 =
     (if b0 = e0 then Inr gc
      else
        let b = (if b0 > e0 then e0 else b0);
            e = (if b0 > e0 then b0 else e0);
            slots = [0..<nat (gc_ref_count gc)]
        in if list_ex (\<lambda>i. contains_range (gc_refs gc i) b e) slots then Inr gc
           else case find (\<lambda>i. fst (gc_refs gc i) = 0) slots of
                  Some i \<Rightarrow> set_ref_block gc (int i) b e
                | None \<Rightarrow> set_ref_block (gc\<lparr>gc_ref_count := gc_ref_count gc + 1\<rparr>) (gc_ref_count gc) b e)"

text \<open>
  After its search loop over the slots below \<open>gc_ref_count - 1\<close>,
  \<open>gc_remove_ref\<close> tests the slot the loop variable stopped at, which is
  \<open>gc_ref_count - 1\<close>, or 0 when the count is at most 1, and drops it by
  decrementing the count.
\<close>

definition gc_remove_ref :: "collector \<Rightarrow> addr \<Rightarrow> addr \<Rightarrow> collector" where
  "gc_remove_ref gc b0 e0 =
     (if b0 = e0 then gc
      else
        let b = (if b0 > e0 then e0 else b0);
            e = (if b0 > e0 then b0 else e0)
        in case find (\<lambda>i. contains_range (gc_refs gc i) b e) [0..<nat (gc_ref_count gc - 1)] of
             Some i \<Rightarrow> gc\<lparr>gc_refs := (gc_refs gc)(i := (0, snd (gc_refs gc i)))\<rparr>
           | None \<Rightarrow>
               if contains_range (gc_refs gc (nat (gc_ref_count gc - 1))) b e
               then gc\<lparr>gc_ref_count := gc_ref_count gc - 1\<rparr> else gc)"

definition gc_add_single_ref :: "collector \<Rightarrow> addr \<Rightarrow> gc_error + collector" where
  "gc_add_single_ref gc ref = gc_add_ref gc ref (ref + 8)"

definition gc_remove_single_ref :: "collector \<Rightarrow> addr \<Rightarrow> gc_error + collector" where
  "gc_remove_single_ref gc ref = gc_add_ref gc ref (ref + 8)"

text \<open>
  The reads of \<open>gc_refs\<close> in both operations and in every root scan stay in
  the array as long as the count does not pass the capacity; this is the
  registry invariant.
\<close>

definition refs_inv :: "collector \<Rightarrow> bool" where
  "refs_inv gc \<longleftrightarrow> gc_ref_count gc \<le> int GC_MAX_REFS"

text \<open>
  The registry of the example collector \<open>ex_gc\<close> after registering the
  one-word ranges \<open>[256, 264)\<close> and \<open>[512, 520)\<close>, and after removing the
  first again.
\<close>

abbreviation ex_gc1 :: collector where
  "ex_gc1 \<equiv> ex_gc\<lparr>gc_ref_count := 1, gc_refs := (\<lambda>_. (0, 0))(0 := (256, 264))\<rparr>"

abbreviation ex_gc2 :: collector where
  "ex_gc2 \<equiv> ex_gc\<lparr>gc_ref_count := 2, gc_refs := (\<lambda>_. (0, 0))(0 := (256, 264), 1 := (512, 520))\<rparr>"

abbreviation ex_gc3 :: collector where
  "ex_gc3 \<equiv> ex_gc\<lparr>gc_ref_count := 2, gc_refs := (\<lambda>_. (0, 0))(0 := (0, 264), 1 := (512, 520))\<rparr>"

subsection \<open>Basic facts\<close>

lemma set_ref_block_Inr:
  "set_ref_block gc i b e = Inr gc' \<longleftrightarrow>
     0 \<le> i \<and> i < int GC_MAX_REFS \<and> gc' = gc\<lparr>gc_refs := (gc_refs gc)(nat i := (b, e))\<rparr>"
  by (auto simp: set_ref_block_def)

lemma gc_add_ref_frame:
  assumes "gc_add_ref gc b e = Inr gc'"
  shows "gc_mem gc' = gc_mem gc \<and> gc_base gc' = gc_base gc \<and> gc_free_chunk gc' = gc_free_chunk gc
    \<and> gc_backpatch gc' = gc_backpatch gc"
  using assms
  by (auto simp: gc_add_ref_def set_ref_block_def Let_def split: if_splits option.splits)

lemma gc_remove_ref_frame:
  "gc_mem (gc_remove_ref gc b e) = gc_mem gc \<and> gc_base (gc_remove_ref gc b e) = gc_base gc
   \<and> gc_free_chunk (gc_remove_ref gc b e) = gc_free_chunk gc
   \<and> gc_backpatch (gc_remove_ref gc b e) = gc_backpatch gc"
  by (simp add: gc_remove_ref_def Let_def split: option.splits)

lemma normalise_range [simp]:
  "(if (b0 :: addr) > e0 then e0 else b0) = min b0 e0"
  "(if (b0 :: addr) > e0 then b0 else e0) = max b0 e0"
  by auto

subsection \<open>Registering a range\<close>

text \<open>
  Claim C3 (functional): after a successful \<open>gc_add_ref\<close> of a non-empty range,
  some live slot of the table contains the range with its bounds put in order,
  whichever of the three branches (already covered, reused slot, appended slot)
  the code took.
\<close>

theorem add_ref_covers:
  assumes "gc_add_ref gc b e = Inr gc'" and "b \<noteq> e"
  shows "list_ex (\<lambda>i. contains_range (gc_refs gc' i) (min b e) (max b e)) [0..<nat (gc_ref_count gc')]"
proof -
  let ?slots = "[0..<nat (gc_ref_count gc)]"
  consider (contained) "list_ex (\<lambda>i. contains_range (gc_refs gc i) (min b e) (max b e)) ?slots"
    | (reuse) i where "\<not> list_ex (\<lambda>i. contains_range (gc_refs gc i) (min b e) (max b e)) ?slots"
        "find (\<lambda>i. fst (gc_refs gc i) = 0) ?slots = Some i"
    | (append) "\<not> list_ex (\<lambda>i. contains_range (gc_refs gc i) (min b e) (max b e)) ?slots"
        "find (\<lambda>i. fst (gc_refs gc i) = 0) ?slots = None"
    by (cases "find (\<lambda>i. fst (gc_refs gc i) = 0) ?slots") auto
  then show ?thesis
  proof cases
    case contained
    with assms show ?thesis by (simp add: gc_add_ref_def Let_def)
  next
    case (reuse i)
    then have i: "i < nat (gc_ref_count gc)" by (auto simp: find_Some_iff)
    have "gc_add_ref gc b e = set_ref_block gc (int i) (min b e) (max b e)"
      unfolding gc_add_ref_def Let_def normalise_range
      by (simp only: assms(2) reuse if_False if_not_P option.case)
    with assms(1) i have "gc' = gc\<lparr>gc_refs := (gc_refs gc)(i := (min b e, max b e))\<rparr>"
      and "i < nat (gc_ref_count gc')"
      by (auto simp: set_ref_block_Inr)
    then show ?thesis by (auto simp: list_ex_iff contains_range_def intro!: bexI[of _ i])
  next
    case append
    with assms have "0 \<le> gc_ref_count gc" and
      gc': "gc' = gc\<lparr>gc_ref_count := gc_ref_count gc + 1, gc_refs := (gc_refs gc)(nat (gc_ref_count gc) := (min b e, max b e))\<rparr>"
      by (auto simp: gc_add_ref_def Let_def set_ref_block_Inr)
    then show ?thesis by (auto simp: list_ex_iff contains_range_def intro!: bexI[of _ "nat (gc_ref_count gc)"])
  qed
qed

text \<open>
  Claim C6 (error): on a full table (\<open>gc_ref_count = GC_MAX_REFS\<close>, no free
  slot, range not covered) \<open>gc_add_ref\<close> does not fail silently, as the
  specification says: it writes \<open>gc_refs[GC_MAX_REFS]\<close>, one past the end of
  the array, which is undefined behaviour.
\<close>

theorem add_ref_full_out_of_bounds:
  assumes "gc_ref_count gc = int GC_MAX_REFS" and "b \<noteq> e"
    and "\<not> list_ex (\<lambda>i. contains_range (gc_refs gc i) (min b e) (max b e)) [0..<GC_MAX_REFS]"
    and "list_all (\<lambda>i. fst (gc_refs gc i) \<noteq> 0) [0..<GC_MAX_REFS]"
  shows "gc_add_ref gc b e = Inl (Refs_index_out_of_bounds (int GC_MAX_REFS))"
proof -
  have "find (\<lambda>i. fst (gc_refs gc i) = 0) [0..<GC_MAX_REFS] = None"
    using assms(4) by (simp add: find_None_iff list_all_iff)
  with assms show ?thesis by (simp add: gc_add_ref_def Let_def set_ref_block_def)
qed

text \<open>
  Claim C4 (invariant): both registry operations keep the root count within
  the capacity of \<open>gc_refs\<close>, so every read of the table in the root scans
  stays inside the array.
\<close>

theorem registry_keeps_refs_inv:
  assumes "refs_inv gc"
  shows "(\<forall>gc'. gc_add_ref gc b e = Inr gc' \<longrightarrow> refs_inv gc') \<and> refs_inv (gc_remove_ref gc b e)"
  using assms
  by (auto simp: refs_inv_def gc_add_ref_def gc_remove_ref_def set_ref_block_Inr Let_def
      split: if_splits option.splits)

subsection \<open>Removing a range\<close>

text \<open>
  Claim C5 (functional): when a slot before the last contains the range and no
  earlier slot does, \<open>gc_remove_ref\<close> clears exactly that slot's begin and
  leaves the count and every other slot in place (index stability).
\<close>

theorem remove_ref_clears_first_match:
  assumes "b \<noteq> e" and "i < nat (gc_ref_count gc - 1)"
    and "contains_range (gc_refs gc i) (min b e) (max b e)"
    and "list_all (\<lambda>j. \<not> contains_range (gc_refs gc j) (min b e) (max b e)) [0..<i]"
  shows "gc_remove_ref gc b e = gc\<lparr>gc_refs := (gc_refs gc)(i := (0, snd (gc_refs gc i)))\<rparr>"
proof -
  have "find (\<lambda>j. contains_range (gc_refs gc j) (min b e) (max b e)) [0..<nat (gc_ref_count gc - 1)] = Some i"
    using assms(2-4) by (simp add: find_upt_Some)
  then show ?thesis using assms(1) by (simp add: gc_remove_ref_def Let_def)
qed

text \<open>
  Claim C7 (code bug): a slot cleared by \<open>gc_remove_ref\<close> keeps its end, and
  \<open>gc_add_ref\<close> tests containment against live slots without skipping free
  ones; as \<open>NULL\<close> is below every address, the cleared slot contains every
  range that ends before its old end, so registering such a range again does
  nothing.
\<close>

theorem add_ref_after_clear_is_noop:
  assumes "i < nat (gc_ref_count gc)" and "fst (gc_refs gc i) = 0" and "max b e \<le> snd (gc_refs gc i)"
  shows "gc_add_ref gc b e = Inr gc"
proof -
  have "list_ex (\<lambda>i. contains_range (gc_refs gc i) (min b e) (max b e)) [0..<nat (gc_ref_count gc)]"
    using assms by (auto simp: list_ex_iff contains_range_def intro!: bexI[of _ i])
  then show ?thesis by (simp add: gc_add_ref_def)
qed

text \<open>
  Claim C8 (code bug): the root scans do not skip a cleared slot either; they
  walk it from \<open>NULL\<close>, so a collection after removing a range that is not in
  the last slot dereferences the word at address 8.
\<close>

theorem cleared_slot_scans_from_null:
  assumes "i < nat (gc_ref_count gc)" and "fst (gc_refs gc i) = 0" and "16 \<le> snd (gc_refs gc i)"
  shows "8 \<in> set (root_words gc)"
proof -
  obtain e where slot: "gc_refs gc i = (0, e)" using assms(2) by (cases "gc_refs gc i") auto
  with assms(3) have e: "16 \<le> e" by simp
  then have "16 \<le> unat e" by (simp add: word_le_nat_alt)
  then have n: "1 < (unat e + 7) div 8" by simp
  have pos: "(0::addr) < e" using e by (simp add: word_less_nat_alt word_le_nat_alt)
  have "ref_range 0 e ! 1 = 8" and "1 < length (ref_range 0 e)"
    using n pos by (simp_all add: ref_range_def)
  then have r: "8 \<in> set (ref_range 0 e)" by (metis nth_mem)
  have "i \<in> set [0..<nat (gc_ref_count gc)]" using assms(1) by simp
  with r slot show ?thesis
    unfolding root_words_def by (force simp del: upt_Suc intro!: bexI[of _ i])
qed

text \<open>
  Claim C9 (code bug): \<open>gc_remove_single_ref\<close> calls \<open>gc_add_ref\<close>: removing
  a single reference right after adding it leaves the registry unchanged, so the
  reference stays a root.
\<close>

theorem remove_single_ref_keeps_range:
  assumes "gc_add_single_ref gc r = Inr gc1"
  shows "gc_remove_single_ref gc1 r = Inr gc1"
proof -
  have ne: "r \<noteq> r + 8" by simp
  from add_ref_covers[OF assms[unfolded gc_add_single_ref_def] ne]
  show ?thesis using ne by (simp add: gc_remove_single_ref_def gc_add_ref_def Let_def)
qed

text \<open>
  Claim C10 (code bug): \<open>gc_remove_ref\<close> inspects slot 0 when the count is 0,
  so removing a range twice drives the count to -1, and the next
  \<open>gc_add_ref\<close> writes \<open>gc_refs[-1]\<close>.
\<close>

theorem remove_twice_then_add_out_of_bounds:
  fixes b e b' e' :: addr
  assumes "b \<noteq> e" and "b' \<noteq> e'"
  shows "\<exists>g1. gc_add_ref (gc_new a m bp rs) b e = Inr g1
     \<and> gc_ref_count (gc_remove_ref (gc_remove_ref g1 b e) b e) = -1
     \<and> gc_add_ref (gc_remove_ref (gc_remove_ref g1 b e) b e) b' e' = Inl (Refs_index_out_of_bounds (-1))"
  using assms
  by (simp add: gc_add_ref_def gc_remove_ref_def gc_new_def set_ref_block_def contains_range_def
      gc_consts Let_def)

subsection \<open>Witnesses\<close>

lemma ex_gc_add_first: "gc_add_ref ex_gc 256 264 = Inr ex_gc1"
  by (simp add: gc_add_ref_def gc_new_def set_ref_block_def gc_consts Let_def)

lemma ex_gc_add_second: "gc_add_ref ex_gc1 512 520 = Inr ex_gc2"
  by (simp add: gc_add_ref_def gc_new_def set_ref_block_def contains_range_def gc_consts Let_def)

lemma ex_gc_remove_first: "gc_remove_ref ex_gc2 256 264 = ex_gc3"
  by (simp add: gc_remove_ref_def gc_new_def contains_range_def Let_def fun_upd_twist)

theorem add_ref_covers_witness:
  "list_ex (\<lambda>i. contains_range (gc_refs ex_gc1 i) 256 264) [0..<nat (gc_ref_count ex_gc1)]"
  using add_ref_covers[OF ex_gc_add_first] by simp

theorem add_ref_full_out_of_bounds_witness:
  "gc_add_ref (ex_gc\<lparr>gc_ref_count := 65536, gc_refs := (\<lambda>_. (8, 16))\<rparr>) 256 264 =
     Inl (Refs_index_out_of_bounds 65536)"
  using add_ref_full_out_of_bounds[of "ex_gc\<lparr>gc_ref_count := 65536, gc_refs := (\<lambda>_. (8, 16))\<rparr>" 256 264]
  by (simp add: gc_consts list_ex_iff list_all_iff contains_range_def)

theorem registry_keeps_refs_inv_witness:
  "refs_inv ex_gc1 \<and> refs_inv (gc_remove_ref ex_gc1 256 264)"
proof -
  have inv: "refs_inv ex_gc" by (simp add: refs_inv_def gc_new_def)
  from registry_keeps_refs_inv[OF inv, of 256 264] ex_gc_add_first show ?thesis
    using registry_keeps_refs_inv[of ex_gc1 256 264] by (simp add: refs_inv_def gc_consts)
qed

theorem remove_ref_clears_first_match_witness:
  "gc_remove_ref ex_gc2 256 264 = ex_gc2\<lparr>gc_refs := (gc_refs ex_gc2)(0 := (0, 264))\<rparr>"
  using remove_ref_clears_first_match[of 256 264 0 ex_gc2] by (simp add: contains_range_def)

theorem add_ref_after_clear_is_noop_witness: "gc_add_ref ex_gc3 256 264 = Inr ex_gc3"
  using add_ref_after_clear_is_noop[of 0 ex_gc3 256 264] by simp

theorem cleared_slot_scans_from_null_witness: "8 \<in> set (root_words ex_gc3)"
  using cleared_slot_scans_from_null[of 0 ex_gc3] by simp

theorem remove_single_ref_keeps_range_witness:
  "gc_remove_single_ref ex_gc1 256 = Inr ex_gc1"
  using remove_single_ref_keeps_range[of ex_gc 256 ex_gc1] ex_gc_add_first
  by (simp add: gc_add_single_ref_def)

theorem remove_twice_then_add_out_of_bounds_witness:
  "\<exists>g1. gc_add_ref ex_gc 256 264 = Inr g1
     \<and> gc_ref_count (gc_remove_ref (gc_remove_ref g1 256 264) 256 264) = -1
     \<and> gc_add_ref (gc_remove_ref (gc_remove_ref g1 256 264) 256 264) 512 520 =
        Inl (Refs_index_out_of_bounds (-1))"
  using remove_twice_then_add_out_of_bounds[of 256 264 512 520] by simp

end
