(* ===== verification/Debug.thy ===== *)
theory Debug
  imports Collector
begin

text \<open>
  The debug dumps of \<open>src/gc.c\<close> (compiled with \<open>GC_DEBUG\<close>):
  \<open>gc_print_minor\<close> (lines 304--313) and \<open>gc_print_refs\<close> (lines 315--342).
  Their effect is output only; each is modelled as the list of lines it prints,
  one constructor per \<open>printf\<close> format, carrying the values the format
  prints (the text around them is fixed by the constructor).
\<close>

datatype heap_name = Heap_minor | Heap_major | Heap_unknown

datatype dump_line =
    Minor_header int
  | Chunk_line int u32 bool
  | Minor_footer
  | Refs_header int
  | Ref_line u32 heap_name
  | Empty_slot
  | Refs_footer

text \<open>
  \<open>(int) CHUNK_OFFSET(gc, chunk)\<close> converts the \<open>ptrdiff_t\<close> quotient to
  \<open>int\<close>, keeping its low 32 bits.
\<close>

definition to_c_int :: "int \<Rightarrow> int" where
  "to_c_int x = sint (word_of_int x :: u32)"

definition gc_print_minor :: "collector \<Rightarrow> dump_line list" where
  "gc_print_minor gc =
     Minor_header (gc_free_chunk gc)
     # map (\<lambda>i. let chunk = CHUNK_AT gc i
                in Chunk_line (to_c_int (CHUNK_OFFSET gc chunk)) (CHUNK_SIZE (gc_mem gc) chunk)
                     (MARKED (gc_mem gc) chunk))
         [0..<nat (gc_free_chunk gc)]
     @ [Minor_footer]"

text \<open>
  The line \<open>gc_print_refs\<close> prints for a word of range \<open>counter\<close>: it tests
  and dereferences the range's begin, \<open>gc_refs[counter][0]\<close>, not the loop
  variable \<open>ref\<close>, and prints the target's distance from the arena it points
  into (from address 0 when it points into neither).
\<close>

definition ref_line :: "collector \<Rightarrow> nat \<Rightarrow> dump_line" where
  "ref_line gc counter =
     (let b = fst (gc_refs gc counter) in
      if b \<noteq> 0 then
        (let p = load_ptr (gc_mem gc) b in
         if POINTS_MINOR gc p then Ref_line (ucast (p - minor_heap gc)) Heap_minor
         else if POINTS_MAJOR gc p then Ref_line (ucast (p - major_heap gc)) Heap_major
         else Ref_line (ucast p) Heap_unknown)
      else Empty_slot)"

definition gc_print_refs :: "collector \<Rightarrow> dump_line list" where
  "gc_print_refs gc =
     Refs_header (gc_ref_count gc)
     # concat (map (\<lambda>counter.
         map (\<lambda>ref. ref_line gc counter)
           (filter (\<lambda>ref. ref \<noteq> 0) (ref_range (fst (gc_refs gc counter)) (snd (gc_refs gc counter)))))
         [0..<nat (gc_ref_count gc)])
     @ [Refs_footer]"

abbreviation ex_dump :: collector where
  "ex_dump \<equiv> ex_gc\<lparr>gc_mem := store_ptr (store_ptr (\<lambda>_. 0) 256 65540) 264 131076,
     gc_ref_count := 1, gc_refs := (\<lambda>_. (0, 0))(0 := (256, 272))\<rparr>"

abbreviation ex_slot :: collector where
  "ex_slot \<equiv> ex_gc\<lparr>gc_mem := store_u32 (\<lambda>_. 0) 65536 20, gc_free_chunk := 1\<rparr>"

lemma to_c_int_small: "0 \<le> x \<Longrightarrow> x < 2 ^ 31 \<Longrightarrow> to_c_int x = x"
  by (simp add: to_c_int_def int_word_sint)

text \<open>
  Claim C25 (roundtrip): with the slot counter within the nursery, the dump of
  the nursery prints one line per allocated slot, in order, and the offset it
  prints for slot \<open>i\<close> is \<open>i\<close>: \<open>CHUNK_OFFSET\<close> inverts \<open>CHUNK_AT\<close>.
\<close>

theorem gc_print_minor_lists_slots:
  assumes "0 \<le> gc_free_chunk gc" and "gc_free_chunk gc \<le> int GC_MINCHUNKS"
  shows "gc_print_minor gc = Minor_header (gc_free_chunk gc)
     # map (\<lambda>i. Chunk_line (int i) (CHUNK_SIZE (gc_mem gc) (CHUNK_AT gc i)) (MARKED (gc_mem gc) (CHUNK_AT gc i)))
         [0..<nat (gc_free_chunk gc)]
     @ [Minor_footer]"
proof -
  have "to_c_int (CHUNK_OFFSET gc (CHUNK_AT gc i)) = int i" if "i < nat (gc_free_chunk gc)" for i
  proof -
    have "i < GC_MINCHUNKS" using that assms by linarith
    then show ?thesis by (simp add: CHUNK_OFFSET_CHUNK_AT to_c_int_small gc_consts)
  qed
  then show ?thesis by (simp add: gc_print_minor_def Let_def)
qed

lemma ref_line_cong:
  assumes "gc_base g = gc_base gc" and "gc_refs g c = gc_refs gc c"
    and "load_ptr (gc_mem g) (fst (gc_refs gc c)) = load_ptr (gc_mem gc) (fst (gc_refs gc c))"
  shows "ref_line g c = ref_line gc c"
  using assms by (simp add: ref_line_def Let_def POINTS_MINOR_def POINTS_MAJOR_def minor_heap_def
    major_heap_def major_end_def)

text \<open>
  Claim C26 (code bug): \<open>gc_print_refs\<close> reads only the first word of
  each registered range. Two collectors with the same struct address and
  registry whose memories agree on those first words print the same dump,
  whatever the other words of the ranges hold; a dump of the references would
  depend on every word.
\<close>

theorem gc_print_refs_reads_first_words:
  assumes "gc_base g = gc_base gc" and "gc_ref_count g = gc_ref_count gc" and "gc_refs g = gc_refs gc"
    and "\<forall>c < nat (gc_ref_count gc).
           load_ptr (gc_mem g) (fst (gc_refs gc c)) = load_ptr (gc_mem gc) (fst (gc_refs gc c))"
  shows "gc_print_refs g = gc_print_refs gc"
proof -
  have "ref_line g c = ref_line gc c" if "c \<in> set [0..<nat (gc_ref_count gc)]" for c
    using that assms by (intro ref_line_cong) auto
  then show ?thesis using assms(2,3) unfolding gc_print_refs_def
    by (intro arg_cong2[where f = Cons] arg_cong2[where f = append] arg_cong[where f = concat] refl map_cong) simp_all
qed

theorem gc_print_minor_lists_slots_witness:
  "gc_print_minor ex_slot = [Minor_header 1, Chunk_line 0 20 False, Minor_footer]"
proof -
  have "CHUNK_AT ex_slot 0 = 65536" by (simp add: CHUNK_AT_def minor_heap_def gc_new_def)
  then show ?thesis using gc_print_minor_lists_slots[of ex_slot]
    by (simp add: gc_consts CHUNK_SIZE_def FLAGS_def MARKED_def)
qed

theorem gc_print_refs_reads_first_words_witness:
  "gc_print_refs (ex_dump\<lparr>gc_mem := store_ptr (gc_mem ex_dump) 264 0\<rparr>) = gc_print_refs ex_dump"
proof -
  have s: "separate 264 8 256 8" using separate_nat[of 264 8 256 8] by simp
  have "load_ptr (store_ptr (gc_mem ex_dump) 264 0) 256 = load_ptr (gc_mem ex_dump) 256"
    by (rule load_ptr_store_ptr_separate[OF s])
  then show ?thesis by (intro gc_print_refs_reads_first_words) simp_all
qed

end
