(* ===== verification/Spec2Isabelle.thy ===== *)
theory Spec2Isabelle
  imports Allocator Major_GC Roots Debug
begin

text \<open>
  \<^bold>\<open>A model of the Trident generational collector (\<open>src/gc.c\<close>, \<open>src/gc.h\<close>).\<close>

  \<^bold>\<open>The program.\<close> One C struct \<open>collector\<close> holds a 64 KiB nursery of 256
  fixed 256-byte slots, a 32 MiB old generation of variable-size chunks, the
  nursery's slot counter \<open>gc_free_chunk\<close>, a table of root ranges
  \<open>gc_refs\<close> with its count, and the backpatch table used during a minor
  collection. Every chunk starts with a 32-bit header: size (header included) in
  the upper bits, a 2-bit state below (the nursery mark bit, or an old-generation
  colour). The parts and their interaction:
  \<^item> tag and header convention (\<open>gc.h\<close> macros): which words are pointers
    (\<open>MEM_TAG\<close>, \<open>POINTS_MINOR\<close>, \<open>POINTS_MAJOR\<close>) and how headers are read
    and written (\<open>FLAGS\<close>, \<open>CHUNK_SIZE\<close>, \<open>MARK_CHUNK\<close>);
  \<^item> root registry (\<open>gc_add_ref\<close>, \<open>gc_remove_ref\<close>): the ranges both
    collections scan;
  \<^item> nursery allocator (\<open>gc_minor_alloc\<close>), which runs a minor collection
    (\<open>gc_minor\<close> = \<open>mark_minor\<close>, \<open>copy_minor_heap\<close> with
    \<open>backpatch_refs\<close> and \<open>backpatch_chunk\<close>) when the slots run out, and the
    minor collection promotes slots with the old-generation allocator;
  \<^item> old-generation allocator (\<open>gc_major_alloc\<close>) and major collector
    (\<open>gc_major\<close> = \<open>darken_roots\<close>, \<open>darken_major\<close> with
    \<open>mark_major_chunk\<close> and \<open>find_major_chunk\<close>, then the sweep);
  \<^item> the facade \<open>gc_alloc\<close>: nursery first, old generation otherwise.

  \<^bold>\<open>The model.\<close> Memory is byte-addressed (\<open>Memory\<close>): a total function from
  64-bit addresses to bytes, read and written little-endian through
  \<open>load_u32\<close>/\<open>store_u32\<close> (headers) and \<open>load_ptr\<close>/\<open>store_ptr\<close> (payload
  words, 4 bytes off 8-byte alignment), because the code reads and writes its
  arenas through casts and several of its defects are about which bytes a write
  lands on. Both arenas and every root range live in this one memory
  (\<open>Collector.gc_mem\<close>); the nursery starts at the struct's address and the old
  generation 64 KiB later, as the struct layout puts them. C \<open>int\<close> values are
  \<open>int\<close> where they are counters and \<open>u32\<close> (32-bit words) where the code
  masks or casts them; pointers are 64-bit words. Each C function becomes one HOL
  function of the same name that takes and returns the collector. Some
  undefined behaviour is an error value: a write to \<open>gc_refs\<close> outside the
  array, any access to \<open>gc_backpatch\<close> outside the array, and a \<open>NULL\<close>
  dereference in \<open>mark_major_chunk\<close>. A loop that may not end is a
  \<open>partial_function (option)\<close> whose \<open>None\<close> is non-termination.

  \<^bold>\<open>Where the model departs from the C object layout.\<close> The scalar
  fields and tables of the struct (\<open>gc_free_chunk\<close>, \<open>gc_ref_count\<close>,
  \<open>gc_backpatch\<close>, \<open>gc_refs\<close>) are fields of the record \<open>collector\<close>,
  not bytes of \<open>gc_mem\<close>. In C they follow \<open>gc_major_heap\<close>
  (\<open>gc.h\<close> lines 33--40), so a write past the old generation's end lands
  on them; in the model it lands in \<open>gc_mem\<close> and leaves them unchanged.
  \<open>Major_Alloc.gc_major_alloc_writes_past_arena\<close> shows that such a
  write happens: a large request writes the remainder header at or beyond the
  arena's end. Invariants of these fields therefore hold for the program only
  on runs that write inside the arenas, and none is claimed for arbitrary
  runs. Three more simplifications:
  \<^item> the reads of \<open>gc_refs[counter]\<close> in the root scans, in
    \<open>gc_remove_ref\<close> and in \<open>gc_print_refs\<close> are not bounds-checked;
    they stay inside the array while \<open>refs_inv\<close> holds
    (\<open>Roots.registry_keeps_refs_inv\<close>);
  \<^item> \<open>CHUNK_AT\<close> takes a \<open>nat\<close> slot index. \<open>gc_minor_alloc\<close> passes
    \<open>nat gc_free_chunk\<close>, so a negative counter reads as slot 0, where C
    would address below the nursery. No function of the model makes the
    counter negative (\<open>Allocator.gc_minor_alloc_keeps_inv\<close>); only the
    aliasing write above could;
  \<^item> the copy loops of \<open>copy_minor_heap\<close> run to \<open>gc_ref_count\<close> and
    compute \<open>CHUNK_AT\<close> for indices past the 256 slots without flagging
    the out-of-array address; the \<open>gc_backpatch\<close> access at the same index
    is an error value.

  \<^bold>\<open>Theories.\<close> In import order:
  \<^item> \<open>GC_Prelude\<close>: machine types (\<open>u32\<close>, \<open>addr\<close>), the result type
    \<open>'a res = (gc_error + 'a) option\<close> (an error value, or \<open>None\<close> for a loop
    that does not end), \<open>res_bind\<close> and \<open>res_fold\<close> for C \<open>for\<close> loops, and
    the word lemmas the components share.
  \<^item> \<open>Memory\<close>: little-endian \<open>load_u32\<close>/\<open>store_u32\<close>,
    \<open>load_ptr\<close>/\<open>store_ptr\<close>, \<open>mem_copy\<close> (\<open>memcpy\<close>); load/store round
    trips and frame lemmas under \<open>separate\<close> (disjoint byte ranges).
  \<^item> \<open>Header\<close>: the \<open>gc.h\<close> constants (and the equivalence of the bit
    trick \<open>ALIGN\<close> with rounding up modulo \<open>2^32\<close>), \<open>gc_color\<close>, and the header macros
    (\<open>FLAGS\<close>, \<open>CHUNK_SIZE\<close>, \<open>CHUNK_FLAGS\<close>, \<open>MARK_CHUNK\<close>, \<open>ALIGN\<close>,
    \<open>WITH_HEADER\<close>, \<open>PTR_INDEX\<close>, \<open>BITS\<close>); header round trips, the size
    arithmetic of a request, and the overflow of the state argument of
    \<open>MARK_CHUNK\<close> (\<open>GC_GRAY + GC_BLACK = 5\<close> reads back as white).
  \<^item> \<open>Collector\<close>: the struct as the record \<open>collector\<close>, the arena macros
    (\<open>CHUNK_AT\<close>, \<open>MINOR_CHUNK\<close>, \<open>POINTS_MINOR\<close>, \<open>REF_PTR_MIN\<close>),
    \<open>gc_new\<close>, the backpatch table, and the root scan \<open>for_each_root\<close> shared
    by \<open>mark_minor\<close>, \<open>backpatch_refs\<close> and \<open>darken_roots\<close>.
  \<^item> \<open>Roots\<close>: \<open>gc_add_ref\<close>, \<open>gc_remove_ref\<close> and the single-reference
    wrappers of \<open>gc.h\<close>; coverage after registering, the count invariant,
    index-stable removal, the capacity error and four defects of removal.
  \<^item> \<open>Major_Alloc\<close>: \<open>gc_major_alloc\<close> (\<open>gc.c\<close> lines 134--158) with its
    chunk walk \<open>major_alloc_scan\<close> and \<open>find_major_chunk\<close>. On a
    well-formed arena (\<open>arena_wf\<close>: headers that chain from the arena's
    start to its end) the walk returns, and it equals a search over the list
    of chunk offsets for the first chunk that does not fit. Also: the
    inverted first-fit test, the reuse of a handed-out chunk, the failure on
    a free arena, the missing split, and the remainder header written past
    the arena.
  \<^item> \<open>Minor_GC\<close>: the minor collection, \<open>gc_mark_chunk\<close> to \<open>gc_minor\<close>.
  \<^item> \<open>Minor_Mark\<close>: that \<open>mark_minor\<close> always returns and changes only mark
    bits (an invariant \<open>marks_only\<close> kept by every step, and a measure on the
    number of unmarked slots, of which there are 256, and the word index),
    and that it marks every slot reachable from a root (\<open>minor_succ\<close>, by
    rule induction on its reflexive transitive closure).
  \<^item> \<open>Minor_Copy\<close>: the backpatch passes never fail and change only
    memory, and \<open>backpatch_root\<close> moves a root to the same offset in the
    promoted copy. A minor collection without roots still promotes every
    allocated slot. It takes the old generation's first chunk for them, by
    induction over the promotion loop.
  \<^item> \<open>Allocator\<close>: \<open>gc_minor_alloc\<close>, whose collect-and-retry recursion ends
    because \<open>gc_minor\<close> resets \<open>gc_free_chunk\<close>, and the facade \<open>gc_alloc\<close>;
    the served slot, the counter invariant, the size bounds, the negative-size
    defect, and the retry (after the collection, the same request).
  \<^item> \<open>Major_GC\<close>: the major collection (\<open>darken_roots\<close>,
    \<open>mark_major_chunk\<close>, \<open>darken_major\<close>, the sweep, \<open>gc_major\<close>); the
    sweep refines \<open>map sweep_colour\<close> on the abstract list of chunk colours;
    \<open>mark_major_chunk\<close> leaves a gray chunk white, so the sweep frees it;
    a zero-size header stalls the collection.
  \<^item> \<open>Debug\<close>: \<open>gc_print_minor\<close> and \<open>gc_print_refs\<close> as the lists of
    lines they print; the nursery dump lists slot \<open>i\<close> at offset \<open>i\<close>,
    and the registry dump depends only on the first word of each range.

  \<^bold>\<open>Loops.\<close> A C loop over a counted range is \<open>res_fold\<close> over a list. A
  walk whose step is read from memory is a \<^theory_text>\<open>partial_function (option)\<close>;
  where it always ends this is proved as such (\<open>mark_minor_returns\<close>,
  \<open>major_alloc_scan_first_unfit\<close>, \<open>sweep_refines\<close>), and where it may not
  the model shows \<open>None\<close> on the input that makes it spin
  (\<open>gc_major_stalls\<close>). \<open>backpatch_chunk\<close> terminates by the bound
  \<open>PTR_INDEX\<close> of a 32-bit size \<open>< 2^29\<close>, \<open>gc_minor_alloc\<close> by one retry.
  No fuel is used.

  \<^bold>\<open>Not modelled.\<close> The demonstration client \<open>main.c\<close>
  (\<open>print_object\<close>, \<open>main\<close>), which the specification puts out of scope and
  which only calls \<open>gc_new\<close>; the client tag constants and \<open>gc_obj\<close> of
  \<open>gc.h\<close>, which no code uses. The text \<open>printf\<close> renders is not modelled,
  only the values each line prints. The memory \<open>malloc\<close> returns is an
  argument of \<open>gc_new\<close>. No termination theorem is given for
  \<open>mark_major_chunk\<close> and \<open>darken_major\<close>. The walk stands still on a
  zero-size header (\<open>gc_major_stalls\<close>). The recursion over a cycle of
  old-generation chunks need not end either, because the colour sum can turn
  a chunk gray again. The calls of \<open>gc.h\<close> are not modelled as one state
  machine, because an invariant of the record fields over arbitrary call
  sequences would not hold for the program (see above).

  \<^bold>\<open>Across components.\<close> The theorem below composes the facade, the two
  allocators and the major collection. On a fresh collector whose arenas hold
  zeros, the first allocation of any size leaves the old generation's first
  header with size 0, and then \<open>gc_major\<close> never returns.
  \<open>Minor_Copy.gc_minor_without_roots_promotes\<close> composes the minor
  collection with the old-generation allocator.
\<close>

text \<open>
  Claim C29 (liveness): after any \<open>gc_alloc\<close> on the fresh collector
  \<open>ex_gc\<close> (arenas zero-filled), the major collection \<open>gc_major\<close> does not
  return: \<open>gc_new\<close> writes no header into the old generation, and neither
  allocator gives its first chunk a non-zero size.
\<close>

theorem fresh_collector_major_diverges:
  assumes "gc_alloc ex_gc n = Some (Inr (p, g))"
  shows "gc_major g = None"
proof -
  have z: "CHUNK_SIZE (\<lambda>_. 0) 131072 = 0" "CHUNK_FLAGS (\<lambda>_. 0) 131072 \<noteq> color_val GC_GRAY"
    by (simp_all add: CHUNK_SIZE_def CHUNK_FLAGS_def FLAGS_def)
  have mem0: "gc_mem ex_gc = (\<lambda>_. 0)" and fc0: "gc_free_chunk ex_gc = 0" by (simp_all add: gc_new_def)
  have self: "ex_gc\<lparr>gc_mem := \<lambda>_. 0, gc_free_chunk := 0\<rparr> = ex_gc" by (simp add: gc_new_def)
  consider (zero) "n = 0" | (large) "n \<noteq> 0" "int GC_MINCHUNK_SIZE < sint (WITH_HEADER (ALIGN n))"
    | (small) "n \<noteq> 0" "\<not> int GC_MINCHUNK_SIZE < sint (WITH_HEADER (ALIGN n))" by blast
  then show ?thesis
  proof cases
    case zero
    then have "g = ex_gc" using assms
      by (simp add: gc_alloc_def gc_minor_alloc.simps gc_major_alloc_def res_bind_def)
    then show ?thesis using ex_gc_stalls[OF z, of 0] by (simp only: self)
  next
    case large
    obtain m where a: "gc_major_alloc ex_gc n = Some (131076, ex_gc\<lparr>gc_mem := m\<rparr>)"
      and h: "load_u32 m 131072 = 1" using ex_gc_major_alloc_large[OF large(2,1)] by blast
    have "gc_minor_alloc ex_gc n = Some (Inr (0, ex_gc))"
      using large by (subst gc_minor_alloc.simps) simp
    then have "g = ex_gc\<lparr>gc_mem := m\<rparr>" using assms a by (simp add: gc_alloc_def res_bind_def)
    moreover have "CHUNK_SIZE m 131072 = 0" "CHUNK_FLAGS m 131072 \<noteq> color_val GC_GRAY"
      using h by (simp_all add: CHUNK_SIZE_def CHUNK_FLAGS_def FLAGS_def)
    ultimately show ?thesis using ex_gc_stalls[of m "gc_free_chunk ex_gc"] by simp
  next
    case small
    let ?m = "store_u32 (\<lambda>_. 0) 65536 (WITH_HEADER (ALIGN n))"
    have "gc_minor_alloc ex_gc n = Some (Inr (65540, ex_gc\<lparr>gc_mem := ?m, gc_free_chunk := 1\<rparr>))"
      using gc_minor_alloc_slot[of n ex_gc] small ex_gc_slot0 unfolding mem0 fc0
      by (simp add: BITS_def gc_consts)
    then have g: "g = ex_gc\<lparr>gc_mem := ?m, gc_free_chunk := 1\<rparr>" using assms
      by (simp add: gc_alloc_def res_bind_def)
    have sep: "separate 65536 4 131072 4" using separate_nat[of 65536 4 131072 4] by simp
    have "FLAGS ?m 131072 = 0" by (simp add: FLAGS_def load_u32_store_u32_separate[OF sep])
    then have "CHUNK_SIZE ?m 131072 = 0" "CHUNK_FLAGS ?m 131072 \<noteq> color_val GC_GRAY"
      by (simp_all add: CHUNK_SIZE_def CHUNK_FLAGS_def)
    then show ?thesis unfolding g by (rule ex_gc_stalls)
  qed
qed

theorem fresh_collector_major_diverges_witness:
  "\<exists>p g. gc_alloc ex_gc 16 = Some (Inr (p, g)) \<and> gc_major g = None"
proof -
  have "gc_free_chunk ex_gc < int GC_MINCHUNKS" by (simp add: gc_new_def)
  then obtain g' where "gc_minor_alloc ex_gc 16 = Some (Inr (65540, g'))"
    using gc_minor_alloc_slot[of 16 ex_gc] ex_gc_slot0 by (simp add: BITS_def WITH_HEADER_def ALIGN_def gc_consts)
  then have "gc_alloc ex_gc 16 = Some (Inr (65540, g'))" by (simp add: gc_alloc_def res_bind_def)
  then show ?thesis using fresh_collector_major_diverges by blast
qed

end
